(* ===== verification/Prelude.thy ===== *)
theory Prelude
  imports Main "HOL-Library.Word"
begin

text \<open>
  Shared vocabulary of the development: the machine integers and byte strings the crates use,
  the three-way outcome of a Rust computation (a value, an \<open>Err\<close>, a panic) with the combinators
  the stateful components are written in, the decimal text of an unsigned integer and Rust's
  parser for it, UTF-8 validity, and the insertion-ordered map that stands for
  \<^verbatim>\<open>indexmap::IndexMap\<close>. Arithmetic on \<open>u8\<close>, \<open>u32\<close>, \<open>u64\<close> and \<open>usize\<close> wraps, as in the release
  profile (the workspace sets no overflow checks); explicit panics are outcomes.
\<close>

named_theorems bytes_simps \<open>evaluation of byte strings, digits and decimal text\<close>
named_theorems comp_simps \<open>unfolding of the outcome and state combinators\<close>
named_theorems map_simps \<open>lookup laws of the insertion-ordered map\<close>

section \<open>Types\<close>

type_synonym u8 = "8 word"
type_synonym u32 = "32 word"
type_synonym u64 = "64 word"
type_synonym usize = "64 word"

text \<open>A HOL \<open>char\<close> is one byte, so \<open>Vec<u8>\<close>, \<open>&[u8]\<close>, \<open>String\<close> and \<open>&str\<close> are all char lists.\<close>

type_synonym bytes = string

section \<open>Outcomes and state-passing computations\<close>

datatype ('a, 'e) outcome = Ok 'a | Err 'e | Panic

type_synonym ('st, 'a, 'e) comp = "'st \<Rightarrow> ('a, 'e) outcome \<times> 'st"

definition ret :: "'a \<Rightarrow> ('st, 'a, 'e) comp" where
  "ret a = (\<lambda>s. (Ok a, s))"

definition throw :: "'e \<Rightarrow> ('st, 'a, 'e) comp" where
  "throw e = (\<lambda>s. (Err e, s))"

definition panic :: "('st, 'a, 'e) comp" where
  "panic = (\<lambda>s. (Panic, s))"

text \<open>Rust's \<open>?\<close>: go on with the value, or leave with the error and the state reached.\<close>

definition bind_comp :: "('st, 'a, 'e) comp \<Rightarrow> ('a \<Rightarrow> ('st, 'b, 'e) comp) \<Rightarrow> ('st, 'b, 'e) comp" where
  "bind_comp m f = (\<lambda>s. case m s of
      (Ok a, s') \<Rightarrow> f a s'
    | (Err e, s') \<Rightarrow> (Err e, s')
    | (Panic, s') \<Rightarrow> (Panic, s'))"

text \<open>\<open>m.map_err(f)?\<close> followed by the rest.\<close>

definition map_err :: "('e \<Rightarrow> 'f) \<Rightarrow> ('st, 'a, 'e) comp \<Rightarrow> ('st, 'a, 'f) comp" where
  "map_err g m = (\<lambda>s. case m s of
      (Ok a, s') \<Rightarrow> (Ok a, s')
    | (Err e, s') \<Rightarrow> (Err (g e), s')
    | (Panic, s') \<Rightarrow> (Panic, s'))"

text \<open>\<open>if let Err(err) = m { log }\<close>: an error is only logged.\<close>

definition log_err :: "('st, 'a, 'e) comp \<Rightarrow> ('st, unit, 'f) comp" where
  "log_err m = (\<lambda>s. case m s of
      (Ok a, s') \<Rightarrow> (Ok (), s')
    | (Err e, s') \<Rightarrow> (Ok (), s')
    | (Panic, s') \<Rightarrow> (Panic, s'))"

definition lift_outcome :: "('a, 'e) outcome \<Rightarrow> ('st, 'a, 'e) comp" where
  "lift_outcome r = (\<lambda>s. (r, s))"

definition gets :: "('st \<Rightarrow> 'a) \<Rightarrow> ('st, 'a, 'e) comp" where
  "gets f = (\<lambda>s. (Ok (f s), s))"

definition modify :: "('st \<Rightarrow> 'st) \<Rightarrow> ('st, unit, 'e) comp" where
  "modify f = (\<lambda>s. (Ok (), f s))"

lemmas [comp_simps] = ret_def throw_def panic_def bind_comp_def map_err_def log_err_def
  lift_outcome_def gets_def modify_def

lemma bind_comp_ret [simp]: "bind_comp (ret a) f = f a"
  by (simp add: comp_simps)

lemma bind_comp_throw [simp]: "bind_comp (throw e) f = throw e"
  by (simp add: comp_simps)

lemma bind_comp_panic [simp]: "bind_comp panic f = panic"
  by (simp add: comp_simps)

lemma bind_comp_ret_right [simp]: "bind_comp m ret = m"
  by (auto simp: comp_simps split: prod.splits outcome.splits)

lemma bind_comp_assoc: "bind_comp (bind_comp m f) g = bind_comp m (\<lambda>a. bind_comp (f a) g)"
  by (auto simp: comp_simps split: prod.splits outcome.splits)

lemma bind_comp_Ok:
  "bind_comp m f s = (Ok b, t) \<longleftrightarrow> (\<exists>a s'. m s = (Ok a, s') \<and> f a s' = (Ok b, t))"
  by (auto simp: comp_simps split: prod.splits outcome.splits)

text \<open>
  \<open>ensures P m Q\<close>: from a state that satisfies \<open>P\<close> the computation ends, whatever its outcome, in one that
  satisfies \<open>P\<close> again, and a value it returns satisfies \<open>Q\<close>. One rule per combinator; the collection
  \<open>ensures_intros\<close> takes an operation apart along its text.
\<close>

definition ensures :: "('st \<Rightarrow> bool) \<Rightarrow> ('st, 'a, 'e) comp \<Rightarrow> ('a \<Rightarrow> bool) \<Rightarrow> bool" where
  "ensures P m Q \<longleftrightarrow> (\<forall>s. P s \<longrightarrow> P (snd (m s)) \<and> (\<forall>a. fst (m s) = Ok a \<longrightarrow> Q a))"

abbreviation keeps :: "('st \<Rightarrow> bool) \<Rightarrow> ('st, 'a, 'e) comp \<Rightarrow> bool" where
  "keeps P m \<equiv> ensures P m (\<lambda>_. True)"

named_theorems ensures_intros \<open>preservation of an invariant, one rule per combinator or operation\<close>

lemma ensuresI: "(\<And>s r s'. P s \<Longrightarrow> m s = (r, s') \<Longrightarrow> P s' \<and> (\<forall>a. r = Ok a \<longrightarrow> Q a)) \<Longrightarrow> ensures P m Q"
  unfolding ensures_def by (metis prod.collapse)

lemma ensuresD: "ensures P m Q \<Longrightarrow> P s \<Longrightarrow> m s = (r, s') \<Longrightarrow> P s'"
  by (metis ensures_def snd_conv)

lemma ensures_weaken: "ensures P m Q \<Longrightarrow> (\<And>a. Q a \<Longrightarrow> R a) \<Longrightarrow> ensures P m R"
  by (auto simp: ensures_def)

lemma ensures_pure [ensures_intros]:
  "Q a \<Longrightarrow> ensures P (ret a) Q" "ensures P (throw e) Q" "ensures P panic Q"
  by (simp_all add: ensures_def comp_simps)

lemma ensures_lift_outcome [ensures_intros]: "(\<And>a. r = Ok a \<Longrightarrow> Q a) \<Longrightarrow> ensures P (lift_outcome r) Q"
  by (simp add: ensures_def comp_simps)

lemma ensures_bind:
  assumes "ensures P m Q" and "\<And>a. Q a \<Longrightarrow> ensures P (f a) R"
  shows "ensures P (bind_comp m f) R"
proof (rule ensuresI)
  fix s r s'
  assume s: "P s" and run: "bind_comp m f s = (r, s')"
  obtain x s1 where m: "m s = (x, s1)" by fastforce
  have s1: "P s1" using ensuresD [OF assms(1) s m] .
  show "P s' \<and> (\<forall>a. r = Ok a \<longrightarrow> R a)"
  proof (cases x)
    case (Ok a)
    then have "Q a" using assms(1) s m by (auto simp: ensures_def)
    then show ?thesis using assms(2) [of a] s1 run m Ok by (fastforce simp: ensures_def comp_simps)
  qed (use run m s1 in \<open>auto simp: comp_simps\<close>)
qed

lemma keeps_bind: "keeps P m \<Longrightarrow> (\<And>a. ensures P (f a) R) \<Longrightarrow> ensures P (bind_comp m f) R"
  by (rule ensures_bind)

lemma ensures_keeps: "ensures P m Q \<Longrightarrow> keeps P m"
  by (simp add: ensures_def)

lemma ensures_bind_gets [ensures_intros]:
  "(\<And>s. P s \<Longrightarrow> ensures P (f (g s)) R) \<Longrightarrow> ensures P (bind_comp (gets g) f) R"
  by (simp add: ensures_def comp_simps)

lemma ensures_modify [ensures_intros]: "(\<And>s. P s \<Longrightarrow> P (f s)) \<Longrightarrow> Q () \<Longrightarrow> ensures P (modify f) Q"
  by (simp add: ensures_def comp_simps)

lemma ensures_map_err [ensures_intros]: "ensures P m Q \<Longrightarrow> ensures P (map_err g m) Q"
  unfolding ensures_def map_err_def by (auto split: prod.split outcome.split)

lemma ensures_log_err [ensures_intros]: "keeps P m \<Longrightarrow> keeps P (log_err m)"
  unfolding ensures_def log_err_def by (auto split: prod.split outcome.split)

section \<open>Decimal text\<close>

definition digit_char :: "nat \<Rightarrow> char" where
  "digit_char d = char_of (48 + d)"

definition is_ascii_digit :: "char \<Rightarrow> bool" where
  "is_ascii_digit c \<longleftrightarrow> 48 \<le> (of_char c :: nat) \<and> (of_char c :: nat) \<le> 57"

definition digit_val :: "char \<Rightarrow> nat" where
  "digit_val c = of_char c - 48"

text \<open>\<^verbatim>\<open>format!("{n}")\<close> on an unsigned integer.\<close>

fun show_nat :: "nat \<Rightarrow> bytes" where
  "show_nat n = (if n < 10 then [digit_char n] else show_nat (n div 10) @ [digit_char (n mod 10)])"

declare show_nat.simps [simp del]

text \<open>\<^verbatim>\<open>format!("{n:0width$}")\<close>: padded on the left with zeros up to the width.\<close>

definition show_padded :: "nat \<Rightarrow> nat \<Rightarrow> bytes" where
  "show_padded width n = replicate (width - length (show_nat n)) (CHR ''0'') @ show_nat n"

fun digits_value :: "nat \<Rightarrow> bytes \<Rightarrow> nat option" where
  "digits_value acc [] = Some acc"
| "digits_value acc (c # cs) =
     (if is_ascii_digit c then digits_value (acc * 10 + digit_val c) cs else None)"

text \<open>
  \<open>str::parse\<close> of the standard library for an unsigned type with the given largest value: a
  leading \<open>+\<close> is taken, at least one digit is needed, other characters and overflow are errors.
\<close>

definition parse_unsigned :: "nat \<Rightarrow> bytes \<Rightarrow> nat option" where
  "parse_unsigned max_value s = (case s of
      [] \<Rightarrow> None
    | c # cs \<Rightarrow>
        (let ds = (if c = CHR ''+'' then cs else s) in
         if ds = [] then None
         else (case digits_value 0 ds of
             None \<Rightarrow> None
           | Some n \<Rightarrow> if n \<le> max_value then Some n else None)))"

definition parse_u64 :: "bytes \<Rightarrow> u64 option" where
  "parse_u64 s = map_option of_nat (parse_unsigned (2 ^ 64 - 1) s)"

definition parse_u32 :: "bytes \<Rightarrow> u32 option" where
  "parse_u32 s = map_option of_nat (parse_unsigned (2 ^ 32 - 1) s)"

abbreviation show_u64 :: "u64 \<Rightarrow> bytes" where
  "show_u64 n \<equiv> show_nat (unat n)"

abbreviation show_u32 :: "u32 \<Rightarrow> bytes" where
  "show_u32 n \<equiv> show_nat (unat n)"

lemma digit_char_simps [bytes_simps]:
  "digit_char 0 = CHR ''0''" "digit_char 1 = CHR ''1''" "digit_char (Suc 0) = CHR ''1''"
  "digit_char 2 = CHR ''2''" "digit_char 3 = CHR ''3''" "digit_char 4 = CHR ''4''"
  "digit_char 5 = CHR ''5''" "digit_char 6 = CHR ''6''" "digit_char 7 = CHR ''7''"
  "digit_char 8 = CHR ''8''" "digit_char 9 = CHR ''9''"
  by code_simp+

lemma show_nat_numeral [bytes_simps]:
  "show_nat (numeral k) = (if numeral k < (10::nat) then [digit_char (numeral k)]
     else show_nat (numeral k div 10) @ [digit_char (numeral k mod 10)])"
  "show_nat 0 = ''0''" "show_nat 1 = ''1''" "show_nat (Suc 0) = ''1''"
  by (subst show_nat.simps; simp add: digit_char_simps)+

lemmas [bytes_simps] = show_padded_def parse_u64_def parse_u32_def
  parse_unsigned_def is_ascii_digit_def digit_val_def

lemma of_char_digit_char: "d < 10 \<Longrightarrow> (of_char (digit_char d) :: nat) = 48 + d"
  by (simp add: digit_char_def)

lemma is_ascii_digit_digit_char [simp]: "d < 10 \<Longrightarrow> is_ascii_digit (digit_char d)"
  by (simp add: is_ascii_digit_def of_char_digit_char)

lemma digit_val_digit_char [simp]: "d < 10 \<Longrightarrow> digit_val (digit_char d) = d"
  by (simp add: digit_val_def of_char_digit_char)

lemma show_nat_not_Nil [simp]: "show_nat n \<noteq> []"
  by (subst show_nat.simps) simp

lemma show_nat_digits: "c \<in> set (show_nat n) \<Longrightarrow> is_ascii_digit c"
proof (induction n rule: show_nat.induct)
  case (1 n)
  then show ?case
    by (subst (asm) (2) show_nat.simps) (auto split: if_splits)
qed

lemma digits_value_append:
  "digits_value acc (xs @ ys) =
     (case digits_value acc xs of None \<Rightarrow> None | Some v \<Rightarrow> digits_value v ys)"
  by (induction xs arbitrary: acc) auto

lemma digits_value_show_nat: "digits_value 0 (show_nat n) = Some n"
proof (induction n rule: show_nat.induct)
  case (1 n)
  show ?case
  proof (cases "n < 10")
    case True
    then show ?thesis by (subst show_nat.simps) simp
  next
    case False
    with 1 show ?thesis by (subst show_nat.simps) (simp add: digits_value_append)
  qed
qed

lemma digits_value_zeros: "digits_value 0 (replicate k (CHR ''0'') @ xs) = digits_value 0 xs"
  by (induction k) (simp_all add: is_ascii_digit_def digit_val_def)

lemma digit_not_special:
  assumes "is_ascii_digit c"
  shows "c \<noteq> CHR ''+''" "c \<noteq> CHR ''=''" "c \<noteq> CHR '':''" "c \<noteq> CHR '',''" "c \<noteq> CHR '' ''"
    "c \<noteq> CHR 0x01"
  using assms by (auto simp: is_ascii_digit_def)

lemma parse_unsigned_digits:
  assumes "ds \<noteq> []" "\<forall>c \<in> set ds. is_ascii_digit c" "digits_value 0 ds = Some n" "n \<le> b"
  shows "parse_unsigned b ds = Some n"
  using assms by (auto simp: parse_unsigned_def Let_def digit_not_special split: list.splits)

lemma parse_unsigned_show_nat: "n \<le> b \<Longrightarrow> parse_unsigned b (show_nat n) = Some n"
  by (rule parse_unsigned_digits) (auto simp: digits_value_show_nat show_nat_digits)

lemma is_ascii_digit_zero [simp]: "is_ascii_digit (CHR ''0'')"
  by (simp add: is_ascii_digit_def)

lemma show_padded_digits: "c \<in> set (show_padded w n) \<Longrightarrow> is_ascii_digit c"
  by (auto simp: show_padded_def show_nat_digits)

lemma parse_unsigned_show_padded: "n \<le> b \<Longrightarrow> parse_unsigned b (show_padded w n) = Some n"
  by (rule parse_unsigned_digits)
    (auto simp: show_padded_digits, auto simp: show_padded_def digits_value_zeros digits_value_show_nat)

lemma parse_u64_show [simp]: "parse_u64 (show_u64 n) = Some n"
proof -
  have "unat n \<le> 2 ^ 64 - 1" using unsigned_less [of n, where ?'a = nat] by simp
  then have "parse_unsigned (2 ^ 64 - 1) (show_u64 n) = Some (unat n)"
    by (rule parse_unsigned_show_nat)
  then show ?thesis by (simp add: parse_u64_def)
qed

lemma parse_u32_show [simp]: "parse_u32 (show_u32 n) = Some n"
proof -
  have "unat n \<le> 2 ^ 32 - 1" using unsigned_less [of n, where ?'a = nat] by simp
  then have "parse_unsigned (2 ^ 32 - 1) (show_u32 n) = Some (unat n)"
    by (rule parse_unsigned_show_nat)
  then show ?thesis by (simp add: parse_u32_def)
qed

lemma length_show_nat_le: "n < 10 ^ Suc k \<Longrightarrow> length (show_nat n) \<le> Suc k"
proof (induction k arbitrary: n)
  case 0
  then show ?case by (subst show_nat.simps) simp
next
  case (Suc k)
  show ?case
  proof (cases "n < 10")
    case True
    then show ?thesis by (subst show_nat.simps) simp
  next
    case False
    from Suc.prems have "n div 10 < 10 ^ Suc k" by (simp add: less_mult_imp_div_less)
    then have "length (show_nat (n div 10)) \<le> Suc k" by (rule Suc.IH)
    with False show ?thesis by (subst show_nat.simps) simp
  qed
qed

lemma length_show_padded: "n < 10 ^ Suc k \<Longrightarrow> length (show_padded (Suc k) n) = Suc k"
  using length_show_nat_le [of n k] by (simp add: show_padded_def)

lemma length_show_padded3: "n < 1000 \<Longrightarrow> length (show_padded 3 n) = 3"
  using length_show_padded [of n 2] by (simp add: numeral_3_eq_3)

section \<open>UTF-8\<close>

definition is_cont :: "nat \<Rightarrow> bool" where
  "is_cont b \<longleftrightarrow> 128 \<le> b \<and> b \<le> 191"

text \<open>Well-formed byte sequences, as \<open>std::str::from_utf8\<close> checks them.\<close>

fun utf8_valid :: "nat list \<Rightarrow> bool" where
  "utf8_valid [] = True"
| "utf8_valid (a # r) =
    (if a < 128 then utf8_valid r
     else case r of
       [] \<Rightarrow> False
     | b # r1 \<Rightarrow>
         if 194 \<le> a \<and> a \<le> 223 then is_cont b \<and> utf8_valid r1
         else case r1 of
           [] \<Rightarrow> False
         | c # r2 \<Rightarrow>
             if a = 224 \<and> 160 \<le> b \<and> b \<le> 191 \<or> a = 237 \<and> 128 \<le> b \<and> b \<le> 159
                \<or> (225 \<le> a \<and> a \<le> 236 \<or> 238 \<le> a \<and> a \<le> 239) \<and> is_cont b
             then is_cont c \<and> utf8_valid r2
             else case r2 of
               [] \<Rightarrow> False
             | d # r3 \<Rightarrow>
                 (a = 240 \<and> 144 \<le> b \<and> b \<le> 191 \<or> a = 244 \<and> 128 \<le> b \<and> b \<le> 143
                  \<or> 241 \<le> a \<and> a \<le> 243 \<and> is_cont b)
                 \<and> is_cont c \<and> is_cont d \<and> utf8_valid r3)"

definition from_utf8 :: "bytes \<Rightarrow> bytes option" where
  "from_utf8 s = (if utf8_valid (map of_char s) then Some s else None)"

definition is_ascii :: "bytes \<Rightarrow> bool" where
  "is_ascii s \<longleftrightarrow> list_all (\<lambda>c. (of_char c :: nat) < 128) s"

lemma from_utf8_ascii: "is_ascii s \<Longrightarrow> from_utf8 s = Some s"
proof -
  have "list_all (\<lambda>n. n < 128) ns \<Longrightarrow> utf8_valid ns" for ns
    by (induction ns) auto
  then show "is_ascii s \<Longrightarrow> from_utf8 s = Some s"
    by (simp add: is_ascii_def from_utf8_def list_all_iff)
qed

lemma from_utf8_SomeD: "from_utf8 s = Some t \<Longrightarrow> t = s"
  by (simp add: from_utf8_def split: if_splits)

lemma is_ascii_digits: "\<forall>c \<in> set s. is_ascii_digit c \<Longrightarrow> is_ascii s"
  by (force simp: is_ascii_def is_ascii_digit_def list_all_iff)

lemma is_ascii_show_nat [simp]: "is_ascii (show_nat n)"
  by (rule is_ascii_digits) (simp add: show_nat_digits)

lemma is_ascii_Cons [simp]: "is_ascii (c # s) \<longleftrightarrow> (of_char c :: nat) < 128 \<and> is_ascii s" "is_ascii []"
  by (simp_all add: is_ascii_def)

lemma is_ascii_append [simp]: "is_ascii (s @ t) \<longleftrightarrow> is_ascii s \<and> is_ascii t"
  by (simp add: is_ascii_def)

lemmas [bytes_simps] = from_utf8_def is_cont_def

section \<open>The insertion-ordered map\<close>

text \<open>
  \<^verbatim>\<open>IndexMap\<close> keeps its entries in insertion order: inserting at a key that is present replaces
  the value in place, \<^verbatim>\<open>shift_remove\<close> keeps the order of the rest. The laws the message crate
  relies on are the locale \<open>index_map\<close>; an association list with distinct keys has them.
\<close>

fun im_insert :: "'k \<Rightarrow> 'v \<Rightarrow> ('k \<times> 'v) list \<Rightarrow> ('k \<times> 'v) list" where
  "im_insert k v [] = [(k, v)]"
| "im_insert k v ((k', v') # m) = (if k' = k then (k, v) # m else (k', v') # im_insert k v m)"

fun im_remove :: "'k \<Rightarrow> ('k \<times> 'v) list \<Rightarrow> ('k \<times> 'v) list" where
  "im_remove k [] = []"
| "im_remove k ((k', v') # m) = (if k' = k then m else (k', v') # im_remove k m)"

lemma map_of_filter_neq: "map_of (filter (\<lambda>e. fst e \<noteq> k) es) = (map_of es)(k := None)"
  by (induction es) auto

locale index_map =
  fixes empty :: "'m"
    and insert :: "'k \<Rightarrow> 'v \<Rightarrow> 'm \<Rightarrow> 'm"
    and remove :: "'k \<Rightarrow> 'm \<Rightarrow> 'm"
    and lookup :: "'m \<Rightarrow> 'k \<Rightarrow> 'v option"
    and entries :: "'m \<Rightarrow> ('k \<times> 'v) list"
    and invar :: "'m \<Rightarrow> bool"
  assumes entries_empty: "entries empty = []"
    and lookup_entries: "invar m \<Longrightarrow> lookup m = map_of (entries m)"
    and distinct_entries: "invar m \<Longrightarrow> distinct (map fst (entries m))"
    and entries_insert_new:
      "invar m \<Longrightarrow> lookup m k = None \<Longrightarrow> entries (insert k v m) = entries m @ [(k, v)]"
    and keys_insert_old:
      "invar m \<Longrightarrow> lookup m k \<noteq> None \<Longrightarrow> map fst (entries (insert k v m)) = map fst (entries m)"
    and lookup_insert: "invar m \<Longrightarrow> lookup (insert k v m) = (lookup m)(k \<mapsto> v)"
    and entries_remove: "invar m \<Longrightarrow> entries (remove k m) = filter (\<lambda>e. fst e \<noteq> k) (entries m)"
    and invar_empty: "invar empty"
    and invar_insert: "invar m \<Longrightarrow> invar (insert k v m)"
    and invar_remove: "invar m \<Longrightarrow> invar (remove k m)"
begin

lemma lookup_remove: "invar m \<Longrightarrow> lookup (remove k m) = (lookup m)(k := None)"
  by (simp add: lookup_entries invar_remove entries_remove map_of_filter_neq)

lemma set_entries_insert:
  "invar m \<Longrightarrow> fst ` set (entries (insert k v m)) = Set.insert k (fst ` set (entries m))"
  by (metis dom_map_of_conv_image_fst dom_fun_upd lookup_entries lookup_insert invar_insert option.distinct(1))

end

lemma im_insert_new: "k \<notin> fst ` set m \<Longrightarrow> im_insert k v m = m @ [(k, v)]"
  by (induction m) auto

lemma im_insert_keys: "k \<in> fst ` set m \<Longrightarrow> map fst (im_insert k v m) = map fst m"
  by (induction m) (auto simp: rev_image_eqI)

lemma set_im_insert_keys: "fst ` set (im_insert k v m) = insert k (fst ` set m)"
proof (induction m)
  case (Cons e m)
  then show ?case by (cases e) (simp add: insert_commute)
qed simp

lemma map_of_im_insert [map_simps]: "map_of (im_insert k v m) = (map_of m)(k \<mapsto> v)"
  by (induction m) auto

lemma distinct_im_insert: "distinct (map fst m) \<Longrightarrow> distinct (map fst (im_insert k v m))"
  by (induction m) (auto simp: set_im_insert_keys)

lemma im_remove_filter: "distinct (map fst m) \<Longrightarrow> im_remove k m = filter (\<lambda>e. fst e \<noteq> k) m"
  by (induction m) (auto simp: rev_image_eqI intro!: filter_True [symmetric])

lemma distinct_im_remove: "distinct (map fst m) \<Longrightarrow> distinct (map fst (im_remove k m))"
  by (simp add: im_remove_filter distinct_map_filter)

interpretation im: index_map "[]" im_insert im_remove map_of "\<lambda>m. m" "\<lambda>m. distinct (map fst m)"
proof
  fix m :: "('k \<times> 'v) list" and k v
  show "map_of m k = None \<Longrightarrow> im_insert k v m = m @ [(k, v)]"
    by (simp add: im_insert_new map_of_eq_None_iff)
  show "map_of m k \<noteq> None \<Longrightarrow> map fst (im_insert k v m) = map fst m"
    by (simp add: im_insert_keys map_of_eq_None_iff)
qed (simp_all add: map_of_im_insert distinct_im_insert im_remove_filter distinct_map_filter)

lemmas [map_simps] = im.lookup_remove

end
