(* ===== verification/Field_Types.thy ===== *)
theory Field_Types
  imports Prelude
begin

text \<open>
  The field types of \<^verbatim>\<open>hotfix-message/src/encoding/field_types\<close> the session layer reads and
  writes: unsigned integers, booleans, strings, \<open>CheckSum\<close>, \<open>Date\<close>, \<open>Time\<close> and \<open>Timestamp\<close>, each
  with its serializer and its deserializer. The contract of the trait \<open>FieldType\<close> is the locale
  \<open>field_type\<close>: what a value serializes to deserializes to that value. Every type here interprets it.
\<close>

section \<open>Bytes and words\<close>

abbreviation byte_of_u8 :: "u8 \<Rightarrow> char" where
  "byte_of_u8 w \<equiv> char_of (unat w)"

text \<open>\<^verbatim>\<open>n as u8\<close>: the low eight bits (\<open>char_of\<close> reduces modulo 256).\<close>

abbreviation byte_of_u32 :: "u32 \<Rightarrow> char" where
  "byte_of_u32 w \<equiv> char_of (unat w)"

section \<open>Unsigned integers, booleans and strings\<close>

definition u64_serialize :: "u64 \<Rightarrow> bytes" where
  "u64_serialize n = show_u64 n"

definition u64_deserialize :: "bytes \<Rightarrow> (u64, string) outcome" where
  "u64_deserialize data = (case from_utf8 data of
      None \<Rightarrow> Err ''Invalid byte sequence; expected UTF-8 valid bytes.''
    | Some s \<Rightarrow> (case parse_u64 s of
        None \<Rightarrow> Err ''Invalid integer digits.''
      | Some n \<Rightarrow> Ok n))"

text \<open>The macro \<open>lossy_deserialize_unsigned\<close>: no digit check, wrapping arithmetic.\<close>

definition u64_deserialize_lossy :: "bytes \<Rightarrow> (u64, string) outcome" where
  "u64_deserialize_lossy data = Ok (foldl (\<lambda>n c. n * 10 + (of_char c - 48)) 0 data)"

definition bool_serialize :: "bool \<Rightarrow> bytes" where
  "bool_serialize b = (if b then ''Y'' else ''N'')"

definition bool_deserialize :: "bytes \<Rightarrow> (bool, string) outcome" where
  "bool_deserialize data =
     (if data = ''Y'' then Ok True
      else if data = ''N'' then Ok False
      else if length data = 1 then Err ''Invalid character for boolean. Only Y and N are valid.''
      else Err ''Invalid length; a boolean is Y or N (1 char).'')"

definition str_serialize :: "bytes \<Rightarrow> bytes" where
  "str_serialize s = s"

definition str_deserialize :: "bytes \<Rightarrow> (bytes, string) outcome" where
  "str_deserialize data = (case from_utf8 data of None \<Rightarrow> Err ''Utf8Error'' | Some s \<Rightarrow> Ok s)"

section \<open>CheckSum\<close>

fun checksum_acc :: "u8 \<Rightarrow> bytes \<Rightarrow> u8" where
  "checksum_acc value [] = value"
| "checksum_acc value (byte # data) = checksum_acc (value + of_char byte) data"

definition checksum_compute :: "bytes \<Rightarrow> u8" where
  "checksum_compute data = checksum_acc 0 data"

definition digit_to_ascii :: "u8 \<Rightarrow> char" where
  "digit_to_ascii byte = byte_of_u8 (byte + 48)"

definition checksum_serialize :: "u8 \<Rightarrow> bytes" where
  "checksum_serialize v =
     [digit_to_ascii (v div 100), digit_to_ascii ((v div 10) mod 10), digit_to_ascii (v mod 10)]"

definition ascii_digit_to_u8 :: "char \<Rightarrow> u8 \<Rightarrow> u8" where
  "ascii_digit_to_u8 digit multiplier = (of_char digit - 48) * multiplier"

definition checksum_from_digits :: "bytes \<Rightarrow> u8" where
  "checksum_from_digits data =
     ascii_digit_to_u8 (data ! 0) 100 + ascii_digit_to_u8 (data ! 1) 10 + ascii_digit_to_u8 (data ! 2) 1"

definition checksum_deserialize :: "bytes \<Rightarrow> (u8, string) outcome" where
  "checksum_deserialize data =
     (if length data \<noteq> 3 then Err ''Expected exactly three bytes for CheckSum.''
      else if is_ascii_digit (data ! 0) \<and> is_ascii_digit (data ! 1) \<and> is_ascii_digit (data ! 2)
      then Ok (checksum_from_digits data)
      else Err ''Expected ASCII digits, found invalid characters.'')"

definition checksum_deserialize_lossy :: "bytes \<Rightarrow> (u8, string) outcome" where
  "checksum_deserialize_lossy data =
     (if length data \<noteq> 3 then Err ''Expected exactly three bytes for CheckSum.''
      else Ok (checksum_from_digits data))"

section \<open>Date, Time and Timestamp\<close>

datatype date = Date (year: u32) (month: u32) (day: u32)

definition Date_new :: "u32 \<Rightarrow> u32 \<Rightarrow> u32 \<Rightarrow> date option" where
  "Date_new y m d =
     (if y \<le> 9999 \<and> (1 \<le> m \<and> m \<le> 12) \<and> (1 \<le> d \<and> d \<le> 31) then Some (Date y m d) else None)"

definition date_digit_to_ascii :: "u32 \<Rightarrow> char" where
  "date_digit_to_ascii n = byte_of_u32 (n + 48)"

definition to_yyyymmdd :: "date \<Rightarrow> bytes" where
  "to_yyyymmdd t =
     [date_digit_to_ascii (year t div 1000),
      date_digit_to_ascii ((year t div 100) mod 10),
      date_digit_to_ascii ((year t div 10) mod 10),
      date_digit_to_ascii (year t mod 10),
      date_digit_to_ascii (month t div 10),
      date_digit_to_ascii (month t mod 10),
      date_digit_to_ascii (day t div 10),
      date_digit_to_ascii (day t mod 10)]"

definition ascii_digit_to_u32 :: "char \<Rightarrow> u32 \<Rightarrow> u32" where
  "ascii_digit_to_u32 digit multiplier = (of_char digit - 48) * multiplier"

definition date_from_array :: "bytes \<Rightarrow> (date, string) outcome" where
  "date_from_array data =
     (let y = ascii_digit_to_u32 (data ! 0) 1000 + ascii_digit_to_u32 (data ! 1) 100
            + ascii_digit_to_u32 (data ! 2) 10 + ascii_digit_to_u32 (data ! 3) 1;
          m = ascii_digit_to_u32 (data ! 4) 10 + ascii_digit_to_u32 (data ! 5) 1;
          d = ascii_digit_to_u32 (data ! 6) 10 + ascii_digit_to_u32 (data ! 7) 1
      in case Date_new y m d of None \<Rightarrow> Err ''Values outside legal bounds.'' | Some t \<Rightarrow> Ok t)"

definition Date_deserialize :: "bytes \<Rightarrow> (date, string) outcome" where
  "Date_deserialize data =
     (if length data = 8
      then if \<forall>c \<in> set data. is_ascii_digit c then date_from_array data
           else Err ''Invalid characters, expected ASCII digits.''
      else Err ''Invalid length, expected 8 bytes (YYYYMMDD format).'')"

definition Date_deserialize_lossy :: "bytes \<Rightarrow> (date, string) outcome" where
  "Date_deserialize_lossy data =
     (if length data = 8 then date_from_array data
      else Err ''Invalid length, expected 8 bytes (YYYYMMDD format).'')"

datatype time = Time (hour: u32) (minute: u32) (second: u32) (milli: u32)

definition from_hmsm :: "u32 \<Rightarrow> u32 \<Rightarrow> u32 \<Rightarrow> u32 \<Rightarrow> time option" where
  "from_hmsm h mi s ms =
     (if h \<le> 23 \<and> mi \<le> 59 \<and> s \<le> 60 \<and> ms \<le> 999 then Some (Time h mi s ms) else None)"

text \<open>\<^verbatim>\<open>n as u8 + b'0'\<close>: truncate to a byte, then add.\<close>

definition time_digit_to_ascii :: "u32 \<Rightarrow> char" where
  "time_digit_to_ascii n = byte_of_u8 (ucast n + 48)"

definition time_to_bytes :: "time \<Rightarrow> bytes" where
  "time_to_bytes t =
     [time_digit_to_ascii (hour t div 10), time_digit_to_ascii (hour t mod 10), CHR '':'',
      time_digit_to_ascii (minute t div 10), time_digit_to_ascii (minute t mod 10), CHR '':'',
      time_digit_to_ascii (second t div 10), time_digit_to_ascii (second t mod 10), CHR ''.'',
      time_digit_to_ascii (milli t div 100), time_digit_to_ascii ((milli t div 10) mod 10),
      time_digit_to_ascii (milli t mod 10)]"

definition Time_deserialize :: "bytes \<Rightarrow> (time, string) outcome" where
  "Time_deserialize data =
     (if length data = 12 \<and> data ! 8 \<noteq> CHR ''.'' then Err ''Invalid time.''
      else if length data \<noteq> 12 \<and> length data \<noteq> 8 then Err ''Invalid time.''
      else
        let ms = (if length data = 12
                  then ascii_digit_to_u32 (data ! 9) 100 + ascii_digit_to_u32 (data ! 10) 10
                     + ascii_digit_to_u32 (data ! 11) 1
                  else 0);
            digits_are_ok = (data ! 2 = CHR '':'' \<and> data ! 5 = CHR '':''
              \<and> is_ascii_digit (data ! 0) \<and> is_ascii_digit (data ! 1)
              \<and> is_ascii_digit (data ! 3) \<and> is_ascii_digit (data ! 4)
              \<and> is_ascii_digit (data ! 6) \<and> is_ascii_digit (data ! 7))
        in if \<not> digits_are_ok then Err ''Invalid time.''
           else
             let h = ascii_digit_to_u32 (data ! 0) 10 + ascii_digit_to_u32 (data ! 1) 1;
                 mi = ascii_digit_to_u32 (data ! 3) 10 + ascii_digit_to_u32 (data ! 4) 1;
                 s = ascii_digit_to_u32 (data ! 6) 10 + ascii_digit_to_u32 (data ! 7) 1
             in case from_hmsm h mi s ms of None \<Rightarrow> Err ''Invalid time.'' | Some t \<Rightarrow> Ok t)"

datatype timestamp = Timestamp (ts_date: date) (ts_time: time)

definition timestamp_parse :: "bytes \<Rightarrow> timestamp option" where
  "timestamp_parse data =
     (if length data < 12 \<or> data ! 8 \<noteq> CHR ''-'' then None
      else case Date_deserialize (take 8 data) of
          Ok d \<Rightarrow> (case Time_deserialize (drop 9 data) of
              Ok t \<Rightarrow> Some (Timestamp d t)
            | _ \<Rightarrow> None)
        | _ \<Rightarrow> None)"

definition timestamp_serialize :: "timestamp \<Rightarrow> bytes" where
  "timestamp_serialize t = to_yyyymmdd (ts_date t) @ ''-'' @ time_to_bytes (ts_time t)"

definition timestamp_deserialize :: "bytes \<Rightarrow> (timestamp, string) outcome" where
  "timestamp_deserialize data = (case timestamp_parse data of
      None \<Rightarrow> Err ''Invalid timestamp format''
    | Some t \<Rightarrow> Ok t)"

text \<open>
  \<open>Timestamp::utc_now\<close> takes the calendar fields \<open>chrono\<close> reports for the current time; the
  milliseconds are the nanoseconds divided by a million.
\<close>

record calendar =
  cal_year :: u32
  cal_month :: u32
  cal_day :: u32
  cal_hour :: u32
  cal_minute :: u32
  cal_second :: u32
  cal_nanosecond :: u32

definition utc_now :: "calendar \<Rightarrow> (timestamp, unit) outcome" where
  "utc_now utc = (case Date_new (cal_year utc) (cal_month utc) (cal_day utc) of
      None \<Rightarrow> Panic
    | Some d \<Rightarrow> (case from_hmsm (cal_hour utc) (cal_minute utc) (cal_second utc)
                        (cal_nanosecond utc div 1000000) of
        None \<Rightarrow> Panic
      | Some t \<Rightarrow> Ok (Timestamp d t)))"

text \<open>The values the checked constructors build.\<close>

definition date_ok :: "date \<Rightarrow> bool" where
  "date_ok t \<longleftrightarrow> Date_new (year t) (month t) (day t) = Some t"

definition time_ok :: "time \<Rightarrow> bool" where
  "time_ok t \<longleftrightarrow> from_hmsm (hour t) (minute t) (second t) (milli t) = Some t"

definition timestamp_ok :: "timestamp \<Rightarrow> bool" where
  "timestamp_ok t \<longleftrightarrow> date_ok (ts_date t) \<and> time_ok (ts_time t)"

text \<open>The derived orders compare the fields from left to right.\<close>

instantiation date :: linorder
begin

definition less_eq_date :: "date \<Rightarrow> date \<Rightarrow> bool" where
  "less_eq_date a b \<longleftrightarrow> year a < year b \<or> year a = year b \<and>
     (month a < month b \<or> month a = month b \<and> day a \<le> day b)"

definition less_date :: "date \<Rightarrow> date \<Rightarrow> bool" where
  "less_date a b \<longleftrightarrow> year a < year b \<or> year a = year b \<and>
     (month a < month b \<or> month a = month b \<and> day a < day b)"

instance
  by standard (auto simp: less_eq_date_def less_date_def date.expand)

end

instantiation time :: linorder
begin

definition less_eq_time :: "time \<Rightarrow> time \<Rightarrow> bool" where
  "less_eq_time a b \<longleftrightarrow> hour a < hour b \<or> hour a = hour b \<and>
     (minute a < minute b \<or> minute a = minute b \<and>
      (second a < second b \<or> second a = second b \<and> milli a \<le> milli b))"

definition less_time :: "time \<Rightarrow> time \<Rightarrow> bool" where
  "less_time a b \<longleftrightarrow> hour a < hour b \<or> hour a = hour b \<and>
     (minute a < minute b \<or> minute a = minute b \<and>
      (second a < second b \<or> second a = second b \<and> milli a < milli b))"

instance
  by standard (auto simp: less_eq_time_def less_time_def time.expand)

end

instantiation timestamp :: linorder
begin

definition less_eq_timestamp :: "timestamp \<Rightarrow> timestamp \<Rightarrow> bool" where
  "less_eq_timestamp a b \<longleftrightarrow> ts_date a < ts_date b \<or> ts_date a = ts_date b \<and> ts_time a \<le> ts_time b"

definition less_timestamp :: "timestamp \<Rightarrow> timestamp \<Rightarrow> bool" where
  "less_timestamp a b \<longleftrightarrow> ts_date a < ts_date b \<or> ts_date a = ts_date b \<and> ts_time a < ts_time b"

instance
  by standard (auto simp: less_eq_timestamp_def less_timestamp_def timestamp.expand)

end

section \<open>Digits\<close>

lemma of_char_digit:
  assumes "k < 10"
  shows "(of_char (digit_char k) :: 'a::comm_ring_1) - 48 = of_nat k"
proof -
  have "(of_char (digit_char k) :: 'a) = of_nat (of_char (digit_char k))"
    by (rule of_nat_of_char [symmetric])
  also have "\<dots> = 48 + of_nat k" using assms by (simp only: of_char_digit_char) simp
  finally show ?thesis by simp
qed

lemma ascii_digit_to_u32_digit [simp]:
  "k < 10 \<Longrightarrow> ascii_digit_to_u32 (digit_char k) m = of_nat k * m"
  by (simp add: ascii_digit_to_u32_def of_char_digit)

lemma ascii_digit_to_u8_digit [simp]:
  "k < 10 \<Longrightarrow> ascii_digit_to_u8 (digit_char k) m = of_nat k * m"
  by (simp add: ascii_digit_to_u8_def of_char_digit)

lemma unat_of_nat_small:
  "k < 256 \<Longrightarrow> unat (of_nat k :: u8) = k" "k < 2 ^ 32 \<Longrightarrow> unat (of_nat k :: u32) = k"
  by (simp_all add: unat_of_nat)

lemma unat_add_48:
  "k < 10 \<Longrightarrow> unat (of_nat k + 48 :: u8) = k + 48" "k < 10 \<Longrightarrow> unat (of_nat k + 48 :: u32) = k + 48"
proof -
  assume k: "k < 10"
  have e: "of_nat k + 48 = (of_nat (k + 48) :: u8)" "of_nat k + 48 = (of_nat (k + 48) :: u32)" by simp_all
  show "unat (of_nat k + 48 :: u8) = k + 48" using k unfolding e by (subst unat_of_nat_small) auto
  show "unat (of_nat k + 48 :: u32) = k + 48" using k unfolding e by (subst unat_of_nat_small) auto
qed

lemma digit_to_ascii_digit:
  assumes "k < 10"
  shows "digit_to_ascii (of_nat k) = digit_char k"
    "date_digit_to_ascii (of_nat k) = digit_char k"
    "time_digit_to_ascii (of_nat k) = digit_char k"
proof -
  have "k < 2 ^ 32" using assms by simp
  then have "ucast (of_nat k :: u32) = (of_nat k :: u8)"
    by (simp add: unsigned_of_nat take_bit_nat_eq_self)
  with assms show "digit_to_ascii (of_nat k) = digit_char k"
    "date_digit_to_ascii (of_nat k) = digit_char k" "time_digit_to_ascii (of_nat k) = digit_char k"
    by (simp_all add: digit_to_ascii_def date_digit_to_ascii_def time_digit_to_ascii_def
        digit_char_def unat_add_48 add.commute)
qed

lemma u8_div_mod:
  assumes "k < 256"
  shows "(of_nat k :: u8) div 10 = of_nat (k div 10)" "(of_nat k :: u8) div 100 = of_nat (k div 100)"
    "(of_nat k :: u8) mod 10 = of_nat (k mod 10)"
  using assms by (simp_all add: word_unat_eq_iff unat_div unat_mod unat_of_nat)

lemma u32_div_mod:
  assumes "k < 2 ^ 32"
  shows "(of_nat k :: u32) div 10 = of_nat (k div 10)" "(of_nat k :: u32) div 100 = of_nat (k div 100)"
    "(of_nat k :: u32) div 1000 = of_nat (k div 1000)" "(of_nat k :: u32) mod 10 = of_nat (k mod 10)"
  using assms by (simp_all add: word_unat_eq_iff unat_div unat_mod unat_of_nat)

lemma digits2: "(k :: nat) div 10 * 10 + k mod 10 = k"
  by simp

lemma digits3: "(k :: nat) div 100 * 100 + k div 10 mod 10 * 10 + k mod 10 = k"
proof -
  have "k div 100 = k div 10 div 10" by (simp add: div_mult2_eq [of k 10 10, simplified])
  then show ?thesis using digits2 [of k] digits2 [of "k div 10"] by linarith
qed

lemma digits4: "(k :: nat) div 1000 * 1000 + k div 100 mod 10 * 100 + k div 10 mod 10 * 10 + k mod 10 = k"
proof -
  have "k div 1000 = k div 100 div 10" by (simp add: div_mult2_eq [of k 100 10, simplified])
  then show ?thesis using digits3 [of k] digits2 [of "k div 100"] by linarith
qed

lemma of_nat_digits:
  "of_nat (k div 10) * 10 + of_nat (k mod 10) = (of_nat k :: 'a::comm_semiring_1)"
  "of_nat (k div 100) * 100 + of_nat (k div 10 mod 10) * 10 + of_nat (k mod 10) = (of_nat k :: 'a)"
  "of_nat (k div 1000) * 1000 + of_nat (k div 100 mod 10) * 100 + of_nat (k div 10 mod 10) * 10
    + of_nat (k mod 10) = (of_nat k :: 'a)"
proof -
  have "of_nat (k div 10 * 10 + k mod 10) = (of_nat k :: 'a)" by (simp only: digits2)
  then show "of_nat (k div 10) * 10 + of_nat (k mod 10) = (of_nat k :: 'a)"
    by (simp only: of_nat_add of_nat_mult of_nat_numeral)
qed (use arg_cong [OF digits3 [of k], of "of_nat :: nat \<Rightarrow> 'a"]
      arg_cong [OF digits4 [of k], of "of_nat :: nat \<Rightarrow> 'a"] in simp_all)

section \<open>The contract of FieldType\<close>

text \<open>
  \<open>valid\<close> picks the values the type's constructors build; the crate's own test utility
  \<^verbatim>\<open>test_utility_verify_serialization_behavior\<close> states the same law.
\<close>

locale field_type =
  fixes serialize :: "'v \<Rightarrow> bytes"
    and deserialize :: "bytes \<Rightarrow> ('v, 'e) outcome"
    and valid :: "'v \<Rightarrow> bool"
  assumes roundtrip: "valid v \<Longrightarrow> deserialize (serialize v) = Ok v"
begin

lemma serialize_inj: "valid v \<Longrightarrow> valid w \<Longrightarrow> serialize v = serialize w \<Longrightarrow> v = w"
  by (metis outcome.inject(1) roundtrip)

end

interpretation u64_field: field_type u64_serialize u64_deserialize "\<lambda>_. True"
  by standard (simp add: u64_serialize_def u64_deserialize_def from_utf8_ascii)

interpretation bool_field: field_type bool_serialize bool_deserialize "\<lambda>_. True"
  by standard (simp add: bool_serialize_def bool_deserialize_def)

interpretation str_field: field_type str_serialize str_deserialize "\<lambda>s. from_utf8 s = Some s"
  by standard (simp add: str_serialize_def str_deserialize_def)

lemma checksum_serialize_digits:
  assumes "k < 256"
  shows "checksum_serialize (of_nat k)
    = [digit_char (k div 100), digit_char (k div 10 mod 10), digit_char (k mod 10)]"
proof -
  have "k div 10 < 256" "k div 100 < 10" using assms by auto
  with assms show ?thesis
    by (simp add: checksum_serialize_def u8_div_mod digit_to_ascii_digit)
qed

lemma checksum_roundtrip_aux: "checksum_deserialize (checksum_serialize v) = Ok v"
proof -
  obtain k where k: "v = of_nat k" "k < 256"
    using that [of "unat v"] unsigned_less [of v, where ?'a = nat] by simp
  then have "k div 100 < 10" by auto
  with k show ?thesis
    by (simp add: checksum_serialize_digits checksum_deserialize_def checksum_from_digits_def
        of_nat_digits)
qed


interpretation checksum_field: field_type checksum_serialize checksum_deserialize "\<lambda>_. True"
  by standard (simp add: checksum_roundtrip_aux)

lemma u32_le_numeral:
  assumes "(w :: u32) \<le> numeral b"
  shows "unat w \<le> numeral b"
proof -
  have "unat w \<le> unat (of_nat (numeral b) :: u32)" using assms by (simp add: word_le_nat_alt)
  also have "\<dots> \<le> numeral b" unfolding unat_of_nat by (rule mod_less_eq_dividend)
  finally show ?thesis .
qed

lemma to_yyyymmdd_digits:
  assumes "y < 10000" "m < 100" "d < 100"
  shows "to_yyyymmdd (Date (of_nat y) (of_nat m) (of_nat d)) =
    [digit_char (y div 1000), digit_char (y div 100 mod 10), digit_char (y div 10 mod 10),
     digit_char (y mod 10), digit_char (m div 10), digit_char (m mod 10), digit_char (d div 10),
     digit_char (d mod 10)]"
proof -
  have "y div 1000 < 10" "y div 100 < 2 ^ 32" "y div 10 < 2 ^ 32" "y < 2 ^ 32" "m < 2 ^ 32" "d < 2 ^ 32"
    "m div 10 < 10" "d div 10 < 10"
    using assms by auto
  then show ?thesis by (simp add: to_yyyymmdd_def u32_div_mod digit_to_ascii_digit)
qed

lemma date_roundtrip: "date_ok t \<Longrightarrow> Date_deserialize (to_yyyymmdd t) = Ok t"
proof -
  assume ok: "date_ok t"
  define y m d where "y = unat (year t)" "m = unat (month t)" "d = unat (day t)"
  then have t: "t = Date (of_nat y) (of_nat m) (of_nat d)" by (cases t) simp
  from ok have "y \<le> 9999" "m \<le> 12" "d \<le> 31"
    by (auto simp: date_ok_def Date_new_def y_m_d_def u32_le_numeral split: if_splits)
  then have "to_yyyymmdd t =
    [digit_char (y div 1000), digit_char (y div 100 mod 10), digit_char (y div 10 mod 10),
     digit_char (y mod 10), digit_char (m div 10), digit_char (m mod 10), digit_char (d div 10),
     digit_char (d mod 10)]" and "y div 1000 < 10" "m div 10 < 10" "d div 10 < 10"
    unfolding t by (auto intro!: to_yyyymmdd_digits)
  then have "Date_deserialize (to_yyyymmdd t)
      = (case Date_new (of_nat y) (of_nat m) (of_nat d) of None \<Rightarrow> Err ''Values outside legal bounds.'' | Some t \<Rightarrow> Ok t)"
    by (simp add: Date_deserialize_def date_from_array_def of_nat_digits)
  with ok show ?thesis by (simp add: date_ok_def t)
qed

lemma time_to_bytes_digits:
  assumes "h < 100" "mi < 100" "s < 100" "ms < 1000"
  shows "time_to_bytes (Time (of_nat h) (of_nat mi) (of_nat s) (of_nat ms)) =
    [digit_char (h div 10), digit_char (h mod 10), CHR '':'', digit_char (mi div 10),
     digit_char (mi mod 10), CHR '':'', digit_char (s div 10), digit_char (s mod 10), CHR ''.'',
     digit_char (ms div 100), digit_char (ms div 10 mod 10), digit_char (ms mod 10)]"
proof -
  have "h < 2 ^ 32" "mi < 2 ^ 32" "s < 2 ^ 32" "ms < 2 ^ 32" "ms div 10 < 2 ^ 32" "h div 10 < 10"
    "mi div 10 < 10" "s div 10 < 10" "ms div 100 < 10"
    using assms by auto
  then show ?thesis by (simp add: time_to_bytes_def u32_div_mod digit_to_ascii_digit)
qed

lemma time_roundtrip: "time_ok t \<Longrightarrow> Time_deserialize (time_to_bytes t) = Ok t"
proof -
  assume ok: "time_ok t"
  define h mi s ms where "h = unat (hour t)" "mi = unat (minute t)" "s = unat (second t)" "ms = unat (milli t)"
  then have t: "t = Time (of_nat h) (of_nat mi) (of_nat s) (of_nat ms)" by (cases t) simp
  from ok have "h \<le> 23" "mi \<le> 59" "s \<le> 60" "ms \<le> 999"
    by (auto simp: time_ok_def from_hmsm_def h_mi_s_ms_def u32_le_numeral split: if_splits)
  then have "time_to_bytes t =
    [digit_char (h div 10), digit_char (h mod 10), CHR '':'', digit_char (mi div 10),
     digit_char (mi mod 10), CHR '':'', digit_char (s div 10), digit_char (s mod 10), CHR ''.'',
     digit_char (ms div 100), digit_char (ms div 10 mod 10), digit_char (ms mod 10)]"
    and "h div 10 < 10" "mi div 10 < 10" "s div 10 < 10" "ms div 100 < 10"
    unfolding t by (auto intro!: time_to_bytes_digits)
  then have "Time_deserialize (time_to_bytes t)
      = (case from_hmsm (of_nat h) (of_nat mi) (of_nat s) (of_nat ms) of None \<Rightarrow> Err ''Invalid time.'' | Some t \<Rightarrow> Ok t)"
    by (simp add: Time_deserialize_def of_nat_digits)
  with ok show ?thesis by (simp add: time_ok_def t)
qed

lemma timestamp_roundtrip_aux:
  "timestamp_ok t \<Longrightarrow> timestamp_deserialize (timestamp_serialize t) = Ok t"
proof -
  assume ok: "timestamp_ok t"
  have len: "length (to_yyyymmdd (ts_date t)) = 8" "length (time_to_bytes (ts_time t)) = 12"
    by (simp_all add: to_yyyymmdd_def time_to_bytes_def)
  with ok show ?thesis
    by (cases t) (simp add: timestamp_deserialize_def timestamp_parse_def timestamp_serialize_def
        timestamp_ok_def date_roundtrip time_roundtrip nth_append)
qed

interpretation date_field: field_type to_yyyymmdd Date_deserialize date_ok
  by standard (rule date_roundtrip)

interpretation time_field: field_type time_to_bytes Time_deserialize time_ok
  by standard (rule time_roundtrip)

interpretation timestamp_field: field_type timestamp_serialize timestamp_deserialize timestamp_ok
  by standard (rule timestamp_roundtrip_aux)

section \<open>Properties\<close>

lemma checksum_acc_sum: "unat (checksum_acc v data) = (unat v + sum_list (map of_char data)) mod 256"
proof (induction data arbitrary: v)
  case Nil
  show ?case using unsigned_less [of v, where ?'a = nat] by simp
next
  case (Cons c data)
  have "unat (v + of_char c) = (unat v + of_char c) mod 256"
    by (simp add: unat_word_ariths unsigned_of_nat take_bit_eq_mod flip: of_nat_of_char [where 'a = u8])
  with Cons show ?case by (simp add: mod_add_left_eq add.assoc)
qed

lemma Date_deserialize_ok: "Date_deserialize data = Ok d \<Longrightarrow> date_ok d"
  by (auto simp: Date_deserialize_def date_from_array_def Date_new_def date_ok_def Let_def split: if_splits)

lemma Time_deserialize_ok: "Time_deserialize data = Ok t \<Longrightarrow> time_ok t"
  by (auto simp: Time_deserialize_def from_hmsm_def time_ok_def Let_def split: if_splits)

lemma timestamp_deserialize_ok: "timestamp_deserialize data = Ok t \<Longrightarrow> timestamp_ok t"
  by (auto simp: timestamp_deserialize_def timestamp_parse_def timestamp_ok_def
      split: if_splits outcome.splits option.splits
      dest: Date_deserialize_ok Time_deserialize_ok)

lemma length_timestamp_serialize: "length (timestamp_serialize t) = 21"
  by (simp add: timestamp_serialize_def to_yyyymmdd_def time_to_bytes_def)

text \<open>The check sum a message carries. What \<open>CheckSum::compute\<close> yields is the sum of all the bytes
  modulo 256, it is written as exactly three ASCII digits, and reading those digits back gives the
  same check sum.\<close>

theorem checksum_text_of_bytes:
  "unat (checksum_compute data) = sum_list (map of_char data) mod 256
   \<and> length (checksum_serialize (checksum_compute data)) = 3
   \<and> list_all is_ascii_digit (checksum_serialize (checksum_compute data))
   \<and> checksum_deserialize (checksum_serialize (checksum_compute data)) = Ok (checksum_compute data)"
proof -
  have "list_all is_ascii_digit (checksum_serialize v)" for v
    using checksum_roundtrip_aux [of v]
    by (auto simp: checksum_deserialize_def checksum_serialize_def split: if_splits)
  then show ?thesis
    by (simp add: checksum_compute_def checksum_acc_sum checksum_roundtrip_aux)
      (simp add: checksum_serialize_def)
qed

text \<open>C31. UTC timestamps. Whatever \<open>Timestamp::deserialize\<close> accepts lies inside the bounds of
  \<open>Date::new\<close> and \<open>Time::from_hmsm\<close>, and writing it again and reading that text gives the same
  timestamp: 21 bytes, so that the short form without milliseconds reads back equal to the long one.\<close>

theorem timestamp_roundtrip:
  assumes "timestamp_deserialize data = Ok t"
  shows "timestamp_ok t \<and> length (timestamp_serialize t) = 21
    \<and> timestamp_deserialize (timestamp_serialize t) = Ok t"
  using timestamp_deserialize_ok [OF assms] timestamp_field.roundtrip
  by (simp add: length_timestamp_serialize)

lemmas [bytes_simps] = timestamp_deserialize_def timestamp_parse_def Date_deserialize_def
  date_from_array_def Date_new_def Time_deserialize_def from_hmsm_def ascii_digit_to_u32_def
  timestamp_serialize_def to_yyyymmdd_def time_to_bytes_def date_digit_to_ascii_def
  time_digit_to_ascii_def

theorem timestamp_roundtrip_witness:
  "timestamp_deserialize ''20240229-23:59:60'' = Ok (Timestamp (Date 2024 2 29) (Time 23 59 60 0))
   \<and> timestamp_deserialize (timestamp_serialize (Timestamp (Date 2024 2 29) (Time 23 59 60 0)))
     = Ok (Timestamp (Date 2024 2 29) (Time 23 59 60 0))"
proof -
  have "timestamp_deserialize ''20240229-23:59:60'' = Ok (Timestamp (Date 2024 2 29) (Time 23 59 60 0))"
    by (simp add: bytes_simps)
  with timestamp_roundtrip [OF this] show ?thesis by simp
qed

end
