(* ===== verification/Message.thy ===== *)
theory Message
  imports Field_Types
begin

text \<open>
  The message of \<^verbatim>\<open>hotfix-message\<close>: fields and field maps with their repeating groups
  (\<^verbatim>\<open>field_map.rs\<close>, \<^verbatim>\<open>parts.rs\<close>, \<^verbatim>\<open>parts/\<close>), the encoder (\<^verbatim>\<open>encoder.rs\<close>) and \<open>Message\<close> itself
  (\<^verbatim>\<open>message.rs\<close>). A \<open>FieldMap\<close> holds two insertion-ordered maps, so it is a pair of association
  lists; \<open>Header\<close>, \<open>Body\<close>, \<open>Trailer\<close> are each one field map. Lengths are natural numbers: they count
  bytes that are in memory and cannot wrap.
\<close>

section \<open>Data\<close>

type_synonym tag = u32

datatype field = Field (field_tag: tag) (field_data: bytes)

datatype field_map =
    FieldMap (fm_fields: "(tag \<times> field) list") (fm_groups: "(tag \<times> repeating_group list) list")
and repeating_group =
    RepeatingGroup (start_tag: tag) (delimiter_tag: tag) (group_fields: field_map)

datatype field_location = HeaderLoc | BodyLoc | TrailerLoc

text \<open>\<open>HardCodedFixFieldDefinition\<close>, less the name and the data type, which nothing here reads.\<close>

record field_def =
  def_tag :: tag
  def_location :: field_location

abbreviation header_field :: "tag \<Rightarrow> field_def" where
  "header_field t \<equiv> \<lparr>def_tag = t, def_location = HeaderLoc\<rparr>"

abbreviation body_field :: "tag \<Rightarrow> field_def" where
  "body_field t \<equiv> \<lparr>def_tag = t, def_location = BodyLoc\<rparr>"

abbreviation trailer_field :: "tag \<Rightarrow> field_def" where
  "trailer_field t \<equiv> \<lparr>def_tag = t, def_location = TrailerLoc\<rparr>"

definition BEGIN_STRING :: field_def where "BEGIN_STRING = header_field 8"
definition BODY_LENGTH :: field_def where "BODY_LENGTH = header_field 9"
definition MSG_TYPE :: field_def where "MSG_TYPE = header_field 35"
definition CHECK_SUM :: field_def where "CHECK_SUM = trailer_field 10"

lemmas field_defs [simp] = BEGIN_STRING_def BODY_LENGTH_def MSG_TYPE_def CHECK_SUM_def

datatype 'e field_value_error = Missing | Invalid 'e

datatype set_groups_error = EmptyGroups | MultipleStartTagsAndDelimiters "(tag \<times> tag) list"

section \<open>Fields and field maps\<close>

definition field_length :: "field \<Rightarrow> nat" where
  "field_length f = length (show_u32 (field_tag f)) + length (field_data f) + 2"

definition fm_default :: field_map where
  "fm_default = FieldMap [] []"

definition fm_insert :: "field \<Rightarrow> field_map \<Rightarrow> field_map" where
  "fm_insert f m = FieldMap (im_insert (field_tag f) f (fm_fields m)) (fm_groups m)"

definition fm_set_groups :: "tag \<Rightarrow> repeating_group list \<Rightarrow> field_map \<Rightarrow> field_map" where
  "fm_set_groups t gs m = FieldMap (fm_fields m) (im_insert t gs (fm_groups m))"

definition fm_get_raw :: "field_map \<Rightarrow> tag \<Rightarrow> bytes option" where
  "fm_get_raw m t = map_option field_data (map_of (fm_fields m) t)"

definition fm_get_group :: "field_map \<Rightarrow> tag \<Rightarrow> nat \<Rightarrow> repeating_group option" where
  "fm_get_group m t i = (case map_of (fm_groups m) t of
      None \<Rightarrow> None
    | Some gs \<Rightarrow> if i < length gs then Some (gs ! i) else None)"

lemma size_group_fields [termination_simp]:
  assumes "(t, gs) \<in> set gm" and "g \<in> set gs"
  shows "size (group_fields g) < Suc (size_list (\<lambda>x. Suc (size_list size (snd x))) gm)"
proof -
  have "size (group_fields g) < size g" by (cases g) simp
  also have "size g \<le> size_list size gs" using assms(2) by (rule size_list_estimation') simp
  also have "\<dots> \<le> size_list (\<lambda>x. Suc (size_list size (snd x))) gm"
    using assms(1) by (rule size_list_estimation') simp
  finally show ?thesis by simp
qed

lemma size_group_fields_lookup [termination_simp]:
  "map_of gm t = Some gs \<Longrightarrow> g \<in> set gs
   \<Longrightarrow> size (group_fields g) < Suc (size_list (\<lambda>x. Suc (size_list size (snd x))) gm)"
  using size_group_fields map_of_SomeD by fast

fun fm_calculate_length :: "tag list \<Rightarrow> field_map \<Rightarrow> nat" where
  "fm_calculate_length skip (FieldMap fs gm) =
     sum_list (map (\<lambda>(_, f). field_length f) (filter (\<lambda>(_, f). field_tag f \<notin> set skip) fs))
     + sum_list (map (\<lambda>(_, gs). sum_list (map (\<lambda>g. fm_calculate_length [] (group_fields g)) gs)) gm)"

text \<open>\<^verbatim>\<open>FieldMap::write\<close>: the fields of \<open>pre_fields\<close> first, in that order, then the others in insertion
  order; a field that starts a group is followed by its entries.\<close>

fun fm_write :: "char \<Rightarrow> tag list \<Rightarrow> field_map \<Rightarrow> bytes" where
  "fm_write sep pre_fields (FieldMap fs gm) =
     (let write_field = (\<lambda>f. show_u32 (field_tag f) @ ''='' @ field_data f @ [sep]
            @ (case map_of gm (field_tag f) of
                 None \<Rightarrow> []
               | Some gs \<Rightarrow> concat (map (\<lambda>g. fm_write sep [] (group_fields g)) gs)))
      in concat (map (\<lambda>t. case map_of fs t of None \<Rightarrow> [] | Some f \<Rightarrow> write_field f) pre_fields)
         @ concat (map (\<lambda>(t, f). if t \<in> set pre_fields then [] else write_field f) fs))"

text \<open>The closure \<open>write_field\<close> of that function, by itself.\<close>

definition write_field :: "char \<Rightarrow> (tag \<times> repeating_group list) list \<Rightarrow> field \<Rightarrow> bytes" where
  "write_field sep gm f = show_u32 (field_tag f) @ ''='' @ field_data f @ [sep]
     @ (case map_of gm (field_tag f) of
          None \<Rightarrow> []
        | Some gs \<Rightarrow> concat (map (\<lambda>g. fm_write sep [] (group_fields g)) gs))"

lemma fm_write_fields:
  "fm_write sep pre (FieldMap fs gm) =
     concat (map (\<lambda>t. case map_of fs t of None \<Rightarrow> [] | Some f \<Rightarrow> write_field sep gm f) pre)
     @ concat (map (\<lambda>(t, f). if t \<in> set pre then [] else write_field sep gm f) fs)"
  by (simp only: fm_write.simps Let_def write_field_def)

declare fm_write.simps [simp del]

section \<open>Parts\<close>

text \<open>
  The trait \<open>Part\<close> on a field map. \<open>part_get\<close> takes the deserializer of the value's type; \<open>part_set\<close>
  takes the bytes the value serializes to.
\<close>

definition part_store_field :: "field \<Rightarrow> field_map \<Rightarrow> field_map" where
  "part_store_field f m = fm_insert f m"

definition part_set :: "field_def \<Rightarrow> bytes \<Rightarrow> field_map \<Rightarrow> field_map" where
  "part_set d v m = part_store_field (Field (def_tag d) v) m"

definition part_get_raw :: "field_def \<Rightarrow> field_map \<Rightarrow> bytes option" where
  "part_get_raw d m = fm_get_raw m (def_tag d)"

definition part_get ::
    "(bytes \<Rightarrow> ('v, 'e) outcome) \<Rightarrow> field_def \<Rightarrow> field_map \<Rightarrow> ('v, 'e field_value_error) outcome" where
  "part_get deserialize d m = (case part_get_raw d m of
      None \<Rightarrow> Err Missing
    | Some data \<Rightarrow> (case deserialize data of
        Ok v \<Rightarrow> Ok v
      | Err e \<Rightarrow> Err (Invalid e)
      | Panic \<Rightarrow> Panic))"

definition part_pop :: "field_def \<Rightarrow> field_map \<Rightarrow> field option \<times> field_map" where
  "part_pop d m = (map_of (fm_fields m) (def_tag d), FieldMap (im_remove (def_tag d) (fm_fields m)) (fm_groups m))"

definition part_set_groups ::
    "repeating_group list \<Rightarrow> field_map \<Rightarrow> (field_map, set_groups_error) outcome" where
  "part_set_groups gs m =
     (let tags = remdups (map (\<lambda>g. (start_tag g, delimiter_tag g)) gs) in
      case tags of
        [] \<Rightarrow> Err EmptyGroups
      | (st, _) # rest \<Rightarrow>
          if rest \<noteq> [] then Err (MultipleStartTagsAndDelimiters tags)
          else Ok (fm_set_groups st gs m))"

definition part_get_group :: "tag \<Rightarrow> nat \<Rightarrow> field_map \<Rightarrow> repeating_group option" where
  "part_get_group t i m = fm_get_group m t i"

definition body_calculate_length :: "field_map \<Rightarrow> nat" where
  "body_calculate_length m = fm_calculate_length [] m"

definition header_calculate_length :: "field_map \<Rightarrow> nat" where
  "header_calculate_length m = fm_calculate_length [def_tag BEGIN_STRING, def_tag BODY_LENGTH] m"

definition trailer_calculate_length :: "field_map \<Rightarrow> nat" where
  "trailer_calculate_length m = fm_calculate_length [def_tag CHECK_SUM] m"

definition new_with_tags :: "tag \<Rightarrow> tag \<Rightarrow> repeating_group" where
  "new_with_tags st dt = RepeatingGroup st dt fm_default"

definition rg_store_field :: "field \<Rightarrow> repeating_group \<Rightarrow> repeating_group" where
  "rg_store_field f g =
     RepeatingGroup (start_tag g) (delimiter_tag g) (part_store_field f (group_fields g))"

section \<open>Messages\<close>

record message =
  header :: field_map
  body :: field_map
  trailer :: field_map

record msg_config =
  separator :: char
  validate_user_defined_fields :: bool

definition SOH :: char where "SOH = CHR 0x01"

definition default_config :: msg_config where
  "default_config = \<lparr>separator = SOH, validate_user_defined_fields = True\<rparr>"

definition with_header :: "field_map \<Rightarrow> message" where
  "with_header h = \<lparr>header = h, body = fm_default, trailer = fm_default\<rparr>"

definition msg_set :: "field_def \<Rightarrow> bytes \<Rightarrow> message \<Rightarrow> message" where
  "msg_set d v m = (case def_location d of
      HeaderLoc \<Rightarrow> m\<lparr>header := part_set d v (header m)\<rparr>
    | BodyLoc \<Rightarrow> m\<lparr>body := part_set d v (body m)\<rparr>
    | TrailerLoc \<Rightarrow> m\<lparr>trailer := part_set d v (trailer m)\<rparr>)"

text \<open>\<open>Message\<close>'s own field map is the body's, so \<open>message.get(..)\<close> reads the body.\<close>

definition msg_get ::
    "(bytes \<Rightarrow> ('v, 'e) outcome) \<Rightarrow> field_def \<Rightarrow> message \<Rightarrow> ('v, 'e field_value_error) outcome" where
  "msg_get deserialize d m = part_get deserialize d (body m)"

definition msg_get_group :: "field_def \<Rightarrow> nat \<Rightarrow> message \<Rightarrow> repeating_group option" where
  "msg_get_group d i m = (case def_location d of
      HeaderLoc \<Rightarrow> part_get_group (def_tag d) i (header m)
    | BodyLoc \<Rightarrow> part_get_group (def_tag d) i (body m)
    | TrailerLoc \<Rightarrow> part_get_group (def_tag d) i (trailer m))"

definition Message_new :: "bytes \<Rightarrow> bytes \<Rightarrow> message" where
  "Message_new begin_string message_type =
     msg_set MSG_TYPE message_type (msg_set BEGIN_STRING begin_string
       \<lparr>header = fm_default, body = fm_default, trailer = fm_default\<rparr>)"

text \<open>\<open>Message::encode\<close> returns the bytes and the message with its new BodyLength and CheckSum.
  Writing into a \<open>Vec\<close> does not fail.\<close>

definition encode :: "msg_config \<Rightarrow> message \<Rightarrow> bytes \<times> message" where
  "encode config m0 =
     (let m1 = m0\<lparr>trailer := snd (part_pop CHECK_SUM (trailer m0))\<rparr>;
          body_length = header_calculate_length (header m1) + body_calculate_length (body m1)
                      + trailer_calculate_length (trailer m1);
          m2 = msg_set BODY_LENGTH (str_serialize (show_nat body_length)) m1;
          starting_fields = [def_tag BEGIN_STRING, def_tag BODY_LENGTH, def_tag MSG_TYPE];
          buffer = fm_write (separator config) starting_fields (header m2)
                 @ fm_write (separator config) [] (body m2)
                 @ fm_write (separator config) [] (trailer m2);
          checksum = checksum_acc 0 buffer;
          checksum_value = show_padded 3 (unat checksum);
          m3 = msg_set CHECK_SUM (str_serialize checksum_value) m2
      in (buffer @ ''10='' @ checksum_value @ [separator config], m3))"

section \<open>Well-formed field maps\<close>

text \<open>
  The invariant of a field map: distinct keys in both maps, every field stored under its own tag, and
  so in every group entry. A map is anchored when the count field of every group is itself set,
  which \<open>set_groups\<close> leaves to the caller and the encoder relies on.
\<close>

fun fm_ok :: "field_map \<Rightarrow> bool" where
  "fm_ok (FieldMap fs gm) \<longleftrightarrow> distinct (map fst fs) \<and> list_all (\<lambda>(t, f). field_tag f = t) fs
     \<and> distinct (map fst gm) \<and> list_all (\<lambda>(_, gs). list_all (\<lambda>g. fm_ok (group_fields g)) gs) gm"

fun groups_anchored :: "field_map \<Rightarrow> bool" where
  "groups_anchored (FieldMap fs gm) \<longleftrightarrow>
     list_all (\<lambda>(t, gs). t \<in> fst ` set fs \<and> list_all (\<lambda>g. groups_anchored (group_fields g)) gs) gm"

definition message_ok :: "message \<Rightarrow> bool" where
  "message_ok m \<longleftrightarrow> fm_ok (header m) \<and> fm_ok (body m) \<and> fm_ok (trailer m)
     \<and> groups_anchored (header m) \<and> groups_anchored (body m) \<and> groups_anchored (trailer m)
     \<and> 8 \<notin> fst ` set (fm_groups (header m)) \<and> 9 \<notin> fst ` set (fm_groups (header m))
     \<and> 10 \<notin> fst ` set (fm_groups (trailer m))"

lemma fm_okI:
  assumes "distinct (map fst (fm_fields m))" "list_all (\<lambda>(t, f). field_tag f = t) (fm_fields m)"
    "distinct (map fst (fm_groups m))"
    "list_all (\<lambda>(_, gs). list_all (\<lambda>g. fm_ok (group_fields g)) gs) (fm_groups m)"
  shows "fm_ok m"
  using assms by (cases m) simp

lemma fm_okD:
  assumes "fm_ok m"
  shows "distinct (map fst (fm_fields m))" "list_all (\<lambda>(t, f). field_tag f = t) (fm_fields m)"
    "distinct (map fst (fm_groups m))"
    "list_all (\<lambda>(_, gs). list_all (\<lambda>g. fm_ok (group_fields g)) gs) (fm_groups m)"
  using assms by (cases m, simp)+

lemma list_all_im_insert:
  "list_all P m \<Longrightarrow> P (k, v) \<Longrightarrow> list_all P (im_insert k v m)"
  by (induction m) auto

lemma list_all_im_remove: "list_all P m \<Longrightarrow> list_all P (im_remove k m)"
  by (induction m) auto

lemma fm_ok_default [simp]: "fm_ok fm_default" "groups_anchored fm_default"
  by (simp_all add: fm_default_def)

lemma fm_ok_insert [simp]: "fm_ok m \<Longrightarrow> fm_ok (fm_insert f m)"
  by (rule fm_okI) (auto simp: fm_insert_def distinct_im_insert fm_okD list_all_im_insert)

lemma fm_ok_set_groups:
  "fm_ok m \<Longrightarrow> list_all (\<lambda>g. fm_ok (group_fields g)) gs \<Longrightarrow> fm_ok (fm_set_groups t gs m)"
  by (rule fm_okI) (auto simp: fm_set_groups_def distinct_im_insert fm_okD list_all_im_insert)

lemma fm_ok_pop [simp]: "fm_ok m \<Longrightarrow> fm_ok (snd (part_pop d m))"
  by (rule fm_okI) (auto simp: part_pop_def distinct_im_remove fm_okD list_all_im_remove)

lemma groups_anchored_insert [simp]: "groups_anchored m \<Longrightarrow> groups_anchored (fm_insert f m)"
  by (cases m) (auto simp: fm_insert_def set_im_insert_keys list_all_iff)

lemma keys_im_remove:
  "distinct (map fst m) \<Longrightarrow> fst ` set (im_remove k m) = fst ` set m - {k}"
  by (auto simp: im_remove_filter)

lemma groups_anchored_pop:
  assumes "fm_ok m" "groups_anchored m" "def_tag d \<notin> fst ` set (fm_groups m)"
  shows "groups_anchored (snd (part_pop d m))"
proof (cases m)
  case (FieldMap fs gm)
  with assms show ?thesis
    by (auto simp: part_pop_def keys_im_remove list_all_iff rev_image_eqI)
qed

lemma groups_insert [simp]: "fm_groups (fm_insert f m) = fm_groups m"
  "fm_groups (snd (part_pop d m)) = fm_groups m" "fm_groups fm_default = []"
  by (simp_all add: fm_insert_def part_pop_def fm_default_def)

lemma get_raw_insert [simp]:
  "fm_get_raw (fm_insert f m) t = (if t = field_tag f then Some (field_data f) else fm_get_raw m t)"
  by (simp add: fm_get_raw_def fm_insert_def map_of_im_insert)

lemma get_raw_default [simp]: "fm_get_raw fm_default t = None"
  by (simp add: fm_get_raw_def fm_default_def)

lemma get_raw_pop [simp]:
  "fm_ok m \<Longrightarrow> fm_get_raw (snd (part_pop d m)) t = (if t = def_tag d then None else fm_get_raw m t)"
  by (simp add: fm_get_raw_def part_pop_def im.lookup_remove fm_okD)

lemma fm_ok_part_set [simp]: "fm_ok m \<Longrightarrow> fm_ok (part_set d v m)"
  by (simp add: part_set_def part_store_field_def)

lemma anchored_part_set [simp]: "groups_anchored m \<Longrightarrow> groups_anchored (part_set d v m)"
  by (simp add: part_set_def part_store_field_def)

lemma groups_part_set [simp]: "fm_groups (part_set d v m) = fm_groups m"
  by (simp add: part_set_def part_store_field_def)

lemma get_raw_part_set [simp]:
  "part_get_raw d' (part_set d v m) = (if def_tag d' = def_tag d then Some v else part_get_raw d' m)"
  by (simp add: part_get_raw_def part_set_def part_store_field_def)

lemma message_ok_set [simp]: "message_ok m \<Longrightarrow> message_ok (msg_set d v m)"
  by (cases "def_location d") (simp_all add: message_ok_def msg_set_def)

lemma message_ok_new [simp]: "message_ok (Message_new bs mt)"
  unfolding Message_new_def by (intro message_ok_set) (simp add: message_ok_def)

text \<open>Reading a field back after setting it, for every field type.\<close>

context field_type
begin

lemma get_set: "valid v \<Longrightarrow> part_get deserialize d (part_set d (serialize v) m) = Ok v"
  by (simp add: part_get_def roundtrip)

end

section \<open>Lengths\<close>

lemma sum_list_pre_fields:
  assumes "distinct pre" "distinct (map fst fs)"
  shows "sum_list (map (\<lambda>t. case map_of fs t of None \<Rightarrow> 0 | Some f \<Rightarrow> w f) pre)
     + sum_list (map (\<lambda>(t, f). if t \<in> set pre then 0 else w f) fs)
     = (sum_list (map (\<lambda>(t, f). w f) fs) :: nat)"
  using assms(1)
proof (induction pre)
  case Nil
  show ?case by simp
next
  case (Cons t pre)
  from Cons.prems have t: "t \<notin> set pre" by simp
  have "(case map_of fs t of None \<Rightarrow> 0 | Some f \<Rightarrow> w f)
      + sum_list (map (\<lambda>(t', f). if t' = t \<or> t' \<in> set pre then 0 else w f) fs)
      = sum_list (map (\<lambda>(t', f). if t' \<in> set pre then 0 else w f) fs)"
    using assms(2)
  proof (induction fs)
    case (Cons e fs)
    obtain a f where e: "e = (a, f)" by (cases e)
    have same: "map (\<lambda>(t', f). if t' = t \<or> t' \<in> set pre then 0 else w f) fs
        = map (\<lambda>(t', f). if t' \<in> set pre then 0 else w f) fs" if "a = t"
      using Cons.prems that by (force simp: e intro!: map_cong)
    show ?case
    proof (cases "a = t")
      case True
      then show ?thesis using t by (simp add: e same)
    next
      case False
      then show ?thesis using Cons by (simp add: e)
    qed
  qed simp
  with Cons show ?case by simp
qed

lemma sum_list_groups_by_field:
  assumes "distinct (map fst fs)" "distinct (map fst gm)" "fst ` set gm \<subseteq> fst ` set fs"
  shows "sum_list (map (\<lambda>(t, _). case map_of gm t of None \<Rightarrow> 0 | Some gs \<Rightarrow> L gs) fs)
     = (sum_list (map (\<lambda>(_, gs). L gs) gm) :: nat)"
proof -
  let ?h = "\<lambda>t. case map_of gm t of None \<Rightarrow> 0 | Some gs \<Rightarrow> L gs"
  have "sum_list (map (\<lambda>(t, _). ?h t) fs) = sum_list (map ?h (map fst fs))"
    by (simp only: map_map comp_def case_prod_beta')
  also have "\<dots> = sum ?h (fst ` set fs)"
    using assms(1) sum.distinct_set_conv_list [of "map fst fs" ?h] by simp
  also have "\<dots> = sum ?h (fst ` set gm)"
    using assms(3) by (intro sum.mono_neutral_right) (auto simp: map_of_eq_None_iff [symmetric])
  also have "\<dots> = sum_list (map ?h (map fst gm))"
    using assms(2) sum.distinct_set_conv_list [of "map fst gm" ?h] by simp
  also have "map ?h (map fst gm) = map (\<lambda>(_, gs). L gs) gm"
    using assms(2) by (auto intro!: map_cong simp: map_of_eq_Some_iff)
  finally show ?thesis .
qed

lemma sum_list_add: "sum_list (map (\<lambda>x. f x + g x) xs) = sum_list (map f xs) + (sum_list (map g xs) :: nat)"
  by (induction xs) auto

lemma length_concat_map: "length (concat (map f xs)) = sum_list (map (\<lambda>x. length (f x)) xs)"
  by (induction xs) auto

text \<open>Writing an anchored map takes exactly the bytes that \<open>calculate_length\<close> counts, whatever
  fields are written first.\<close>

lemma length_fm_write:
  "fm_ok m \<Longrightarrow> groups_anchored m \<Longrightarrow> distinct pre \<Longrightarrow>
   length (fm_write sep pre m) = fm_calculate_length [] m"
proof (induction sep pre m rule: fm_write.induct)
  case (1 sep pre fs gm)
  let ?W = "write_field sep gm"
  let ?L = "\<lambda>gs. sum_list (map (\<lambda>g. fm_calculate_length [] (group_fields g)) gs)"
  from 1 have keys: "distinct (map fst fs)" "distinct (map fst gm)" "fst ` set gm \<subseteq> fst ` set fs"
    and tags: "list_all (\<lambda>(t, f). field_tag f = t) fs"
    by (auto simp: list_all_iff)
  have IH: "length (concat (map (\<lambda>g. fm_write sep [] (group_fields g)) gs)) = ?L gs"
    if "map_of gm t = Some gs" for t gs
  proof -
    have "length (fm_write sep [] (group_fields g)) = fm_calculate_length [] (group_fields g)"
      if "g \<in> set gs" for g
    proof -
      have "fm_ok (group_fields g)" "groups_anchored (group_fields g)"
        using 1 map_of_SomeD [OF \<open>map_of gm t = Some gs\<close>] that by (auto simp: list_all_iff)
      then show ?thesis using 1(1) [of "Field t []"] \<open>map_of gm t = Some gs\<close> that by simp
    qed
    then show ?thesis unfolding length_concat_map by (intro arg_cong [where f = sum_list] map_cong) auto
  qed
  have W: "length (?W f) = field_length f + (case map_of gm t of None \<Rightarrow> 0 | Some gs \<Rightarrow> ?L gs)"
    if "(t, f) \<in> set fs" for t f
  proof -
    have "field_tag f = t" using tags that by (auto simp: list_all_iff)
    then show ?thesis by (simp add: write_field_def field_length_def IH split: option.split)
  qed
  have "length (fm_write sep pre (FieldMap fs gm))
      = sum_list (map (\<lambda>t. case map_of fs t of None \<Rightarrow> 0 | Some f \<Rightarrow> length (?W f)) pre)
        + sum_list (map (\<lambda>(t, f). if t \<in> set pre then 0 else length (?W f)) fs)"
    by (auto simp: fm_write_fields length_concat_map intro!: arg_cong2 [where f = plus]
        arg_cong [where f = sum_list] split: option.split)
  also have "\<dots> = sum_list (map (\<lambda>(t, f). length (?W f)) fs)"
    by (rule sum_list_pre_fields) (use 1 keys in auto)
  also have "map (\<lambda>(t, f). length (?W f)) fs
      = map (\<lambda>e. field_length (snd e) + (case map_of gm (fst e) of None \<Rightarrow> 0 | Some gs \<Rightarrow> ?L gs)) fs"
    by (auto intro!: map_cong simp: W)
  also have "sum_list \<dots> = fm_calculate_length [] (FieldMap fs gm)"
    using sum_list_groups_by_field [OF keys, of ?L] by (simp add: sum_list_add case_prod_beta')
  finally show ?case .
qed

lemma sum_filter_skip:
  assumes "distinct (map fst fs)" "list_all (\<lambda>(t, f). field_tag f = t) fs" "map_of fs t = Some f"
    and "t \<notin> set skip"
  shows "sum_list (map (\<lambda>(_, f). field_length f) (filter (\<lambda>(_, f). field_tag f \<notin> set skip) fs))
    = field_length f
      + sum_list (map (\<lambda>(_, f). field_length f) (filter (\<lambda>(_, f). field_tag f \<notin> set (t # skip)) fs))"
  using assms
proof (induction fs)
  case (Cons e fs)
  obtain a g where e: "e = (a, g)" by (cases e)
  show ?case
  proof (cases "a = t")
    case True
    have "filter (\<lambda>(_, f). field_tag f \<notin> set skip) fs
        = filter (\<lambda>(_, f). field_tag f \<noteq> t \<and> field_tag f \<notin> set skip) fs"
      using Cons.prems True by (intro filter_cong) (force simp: e list_all_iff)+
    then show ?thesis using Cons.prems True by (simp add: e)
  next
    case False
    then show ?thesis using Cons by (simp add: e)
  qed
qed simp

lemma calculate_length_skip:
  "fm_ok m \<Longrightarrow> map_of (fm_fields m) t = Some f \<Longrightarrow> t \<notin> set skip \<Longrightarrow>
   fm_calculate_length skip m = field_length f + fm_calculate_length (t # skip) m"
  by (cases m) (simp add: sum_filter_skip)

lemma calculate_length_insert_skipped:
  "fm_ok m \<Longrightarrow> field_tag f \<in> set skip \<Longrightarrow>
   fm_calculate_length skip (fm_insert f m) = fm_calculate_length skip m"
proof -
  have "list_all (\<lambda>(t, f). field_tag f = t) fs \<Longrightarrow> field_tag f \<in> set skip \<Longrightarrow>
    filter (\<lambda>(_, f). field_tag f \<notin> set skip) (im_insert (field_tag f) f fs)
    = filter (\<lambda>(_, f). field_tag f \<notin> set skip) fs" for fs
    by (induction fs) (auto split: if_splits)
  then show "fm_ok m \<Longrightarrow> field_tag f \<in> set skip \<Longrightarrow>
   fm_calculate_length skip (fm_insert f m) = fm_calculate_length skip m"
    by (cases m) (simp add: fm_insert_def)
qed

lemma get_raw_lookup:
  assumes "fm_ok m" "fm_get_raw m t = Some v"
  shows "map_of (fm_fields m) t = Some (Field t v)"
proof -
  from assms(2) obtain f where f: "map_of (fm_fields m) t = Some f" "field_data f = v"
    by (auto simp: fm_get_raw_def)
  then have "field_tag f = t" using fm_okD(2) [OF assms(1)] map_of_SomeD by (force simp: list_all_iff)
  with f show ?thesis by (cases f) simp
qed

lemma calculate_length_skip_absent:
  "fm_ok m \<Longrightarrow> fm_get_raw m t = None \<Longrightarrow> fm_calculate_length [t] m = fm_calculate_length [] m"
  by (cases m) (force simp: fm_get_raw_def map_of_eq_None_iff list_all_iff intro!: arg_cong [where f = sum_list]
      arg_cong [where f = "map _"] filter_True)

section \<open>The encoder\<close>

abbreviation field_bytes :: "char \<Rightarrow> bytes \<Rightarrow> bytes \<Rightarrow> bytes" where
  "field_bytes sep t v \<equiv> t @ ''='' @ v @ [sep]"

lemma show_tags [simp]:
  "show_nat 8 = ''8''" "show_nat 9 = ''9''" "show_nat 10 = ''10''" "show_nat 35 = ''35''"
  by (simp_all add: bytes_simps)

lemma length_header_fields:
  assumes "fm_ok h" "fm_get_raw h 8 = Some v" "fm_get_raw h 9 = Some w"
  shows "fm_calculate_length [] h
    = length (field_bytes sep ''8'' v) + length (field_bytes sep ''9'' w) + fm_calculate_length [8, 9] h"
  using assms calculate_length_skip [of h 9 "Field 9 w" "[]"] calculate_length_skip [of h 8 "Field 8 v" "[9]"]
  by (simp add: get_raw_lookup field_length_def)

lemma write_header_fields:
  assumes "fm_ok h" "fm_get_raw h 8 = Some v" "fm_get_raw h 9 = Some w"
    and "8 \<notin> fst ` set (fm_groups h)" "9 \<notin> fst ` set (fm_groups h)"
  shows "\<exists>rest. fm_write sep (8 # 9 # pre) h
    = field_bytes sep ''8'' v @ field_bytes sep ''9'' w @ rest"
proof (cases h)
  case (FieldMap fs gm)
  with assms have "write_field sep gm (Field 8 v) = field_bytes sep ''8'' v"
    "write_field sep gm (Field 9 w) = field_bytes sep ''9'' w"
    by (auto simp: write_field_def rev_image_eqI split: option.split dest!: map_of_SomeD)
  then show ?thesis
    using get_raw_lookup [OF assms(1,2)] get_raw_lookup [OF assms(1,3)]
    by (simp add: FieldMap fm_write_fields)
qed

text \<open>The layout of an encoded message: BeginString, BodyLength, the part that BodyLength measures,
  and the CheckSum of everything before it.\<close>

lemma encode_parts:
  assumes ok: "message_ok m" and bs: "part_get_raw BEGIN_STRING (header m) = Some v"
  obtains r rest where
    "fm_write (separator config) [8, 9, 35] (part_set BODY_LENGTH (show_nat (length rest)) (header m))
     = field_bytes (separator config) ''8'' v
       @ field_bytes (separator config) ''9'' (show_nat (length rest)) @ r"
    "rest = r @ fm_write (separator config) [] (body m)
       @ fm_write (separator config) [] (snd (part_pop CHECK_SUM (trailer m)))"
    "header (snd (encode config m)) = part_set BODY_LENGTH (show_nat (length rest)) (header m)"
    "trailer (snd (encode config m)) = part_set CHECK_SUM (show_padded 3 (unat (checksum_compute
       (field_bytes (separator config) ''8'' v
        @ field_bytes (separator config) ''9'' (show_nat (length rest)) @ rest))))
       (snd (part_pop CHECK_SUM (trailer m)))"
    "fst (encode config m)
    = field_bytes (separator config) ''8'' v
      @ field_bytes (separator config) ''9'' (show_nat (length rest)) @ rest
      @ field_bytes (separator config) ''10'' (show_padded 3 (unat (checksum_compute
          (field_bytes (separator config) ''8'' v
           @ field_bytes (separator config) ''9'' (show_nat (length rest)) @ rest))))"
proof -
  let ?sep = "separator config"
  define t where "t = snd (part_pop CHECK_SUM (trailer m))"
  define n where "n = header_calculate_length (header m) + body_calculate_length (body m)
    + trailer_calculate_length t"
  define h where "h = part_set BODY_LENGTH (show_nat n) (header m)"
  have okh: "fm_ok h" "groups_anchored h" "8 \<notin> fst ` set (fm_groups h)" "9 \<notin> fst ` set (fm_groups h)"
    "fm_get_raw h 8 = Some v" "fm_get_raw h 9 = Some (show_nat n)"
    using ok bs by (auto simp: h_def message_ok_def part_set_def part_store_field_def part_get_raw_def)
  obtain r where r: "fm_write ?sep [8, 9, 35] h
      = field_bytes ?sep ''8'' v @ field_bytes ?sep ''9'' (show_nat n) @ r"
    using write_header_fields [OF okh(1,5,6,3,4)] by blast
  have "fm_calculate_length [8, 9] h = header_calculate_length (header m)"
    using ok calculate_length_insert_skipped [of "header m" "Field 9 (show_nat n)" "[8, 9]"]
    by (simp add: h_def part_set_def part_store_field_def message_ok_def header_calculate_length_def)
  with length_fm_write [OF okh(1,2), of "[8, 9, 35]" ?sep] length_header_fields [OF okh(1,5,6), of ?sep]
  have lr: "length r = header_calculate_length (header m)" by (simp add: r)
  have okt: "fm_ok t" "groups_anchored t" "fm_get_raw t 10 = None"
    using ok by (simp_all add: t_def message_ok_def groups_anchored_pop)
  then have lt: "length (fm_write ?sep [] t) = trailer_calculate_length t"
    by (simp add: length_fm_write trailer_calculate_length_def calculate_length_skip_absent)
  have lb: "length (fm_write ?sep [] (body m)) = body_calculate_length (body m)"
    using ok by (simp add: length_fm_write body_calculate_length_def message_ok_def)
  define rest where "rest = r @ fm_write ?sep [] (body m) @ fm_write ?sep [] t"
  have n: "n = length rest" by (simp add: rest_def lr lt lb n_def)
  have prefix: "fm_write ?sep [8, 9, 35] h @ fm_write ?sep [] (body m) @ fm_write ?sep [] t
      = field_bytes ?sep ''8'' v @ field_bytes ?sep ''9'' (show_nat (length rest)) @ rest"
    by (simp only: r rest_def append_assoc flip: n [unfolded rest_def])
  have "fst (encode config m) = (let buf = fm_write ?sep [8, 9, 35] h @ fm_write ?sep [] (body m)
      @ fm_write ?sep [] t in buf @ ''10='' @ show_padded 3 (unat (checksum_compute buf)) @ [?sep])"
    and hd: "header (snd (encode config m)) = h"
    and "trailer (snd (encode config m)) = (let buf = fm_write ?sep [8, 9, 35] h @ fm_write ?sep [] (body m)
      @ fm_write ?sep [] t in part_set CHECK_SUM (show_padded 3 (unat (checksum_compute buf))) t)"
    by (simp_all add: encode_def msg_set_def str_serialize_def checksum_compute_def Let_def t_def n_def h_def)
  note buf = this(1) [unfolded prefix] and tr = this(3) [unfolded prefix]
  show ?thesis
    by (rule that [of rest r])
      (use r buf hd tr in \<open>simp_all only: h_def n Let_def append_assoc append_Cons append_Nil rest_def t_def\<close>)
qed

lemma body_encode [simp]: "body (snd (encode config m)) = body m"
  by (simp add: encode_def msg_set_def Let_def)

section \<open>Properties\<close>

text \<open>C1. Framing of outgoing messages. \<open>Message::encode\<close> of a well-formed message that has a BeginString
  puts it first, then a BodyLength that is exactly the number of bytes between the BodyLength field and
  the CheckSum field, repeating groups included, then that part, then a CheckSum field of seven bytes
  whose three digits are the sum of all preceding bytes modulo 256.\<close>

theorem encode_framing:
  assumes "message_ok m" and "part_get_raw BEGIN_STRING (header m) = Some v"
  shows "\<exists>rest. let pre = field_bytes (separator c) ''8'' v
                 @ field_bytes (separator c) ''9'' (show_nat (length rest)) @ rest;
               sum = show_padded 3 (sum_list (map of_char pre) mod 256)
    in fst (encode c m) = pre @ field_bytes (separator c) ''10'' sum \<and> length sum = 3"
proof -
  obtain rest where r: "fst (encode c m)
    = field_bytes (separator c) ''8'' v
      @ field_bytes (separator c) ''9'' (show_nat (length rest)) @ rest
      @ field_bytes (separator c) ''10'' (show_padded 3 (unat (checksum_compute
          (field_bytes (separator c) ''8'' v
           @ field_bytes (separator c) ''9'' (show_nat (length rest)) @ rest))))"
    by (rule encode_parts [OF assms, of c])
  have "length (show_padded 3 (k mod 256)) = 3" for k
  proof -
    have "k mod 256 < 256" by simp
    then have "k mod 256 < 1000" by linarith
    then show ?thesis by (rule length_show_padded3)
  qed
  with r show ?thesis
    by (intro exI [of _ rest]) (simp add: Let_def checksum_compute_def checksum_acc_sum)
qed

definition sample_group_message :: message where
  "sample_group_message =
     (let party = (\<lambda>v. rg_store_field (Field 447 ''D'') (rg_store_field (Field 448 v) (new_with_tags 453 448)));
          m = msg_set (body_field 453) ''2'' (Message_new ''FIX.4.4'' ''D'')
      in m\<lparr>body := fm_set_groups 453 [party ''A'', party ''BC''] (body m)\<rparr>)"

lemma sample_group_message_ok:
  "message_ok sample_group_message" "part_get_raw BEGIN_STRING (header sample_group_message) = Some ''FIX.4.4''"
proof -
  have "fm_ok (group_fields (rg_store_field f g)) = fm_ok (part_store_field f (group_fields g))"
    "groups_anchored (group_fields (rg_store_field f g)) = groups_anchored (part_store_field f (group_fields g))"
    for f g by (simp_all add: rg_store_field_def)
  then show "message_ok sample_group_message"
    by (simp add: sample_group_message_def message_ok_def Let_def msg_set_def Message_new_def part_set_def
        part_store_field_def fm_set_groups_def fm_insert_def fm_default_def rg_store_field_def new_with_tags_def)
  show "part_get_raw BEGIN_STRING (header sample_group_message) = Some ''FIX.4.4''"
    by (simp add: sample_group_message_def Let_def msg_set_def Message_new_def)
qed

theorem encode_framing_witness:
  "\<exists>rest. let pre = field_bytes (CHR ''|'') ''8'' ''FIX.4.4''
                 @ field_bytes (CHR ''|'') ''9'' (show_nat (length rest)) @ rest;
               sum = show_padded 3 (sum_list (map of_char pre) mod 256)
    in fst (encode \<lparr>separator = CHR ''|'', validate_user_defined_fields = True\<rparr> sample_group_message)
       = pre @ field_bytes (CHR ''|'') ''10'' sum \<and> length sum = 3"
  using encode_framing [of sample_group_message "''FIX.4.4''"
      "\<lparr>separator = CHR ''|'', validate_user_defined_fields = True\<rparr>"] sample_group_message_ok
  by (simp only: msg_config.simps)

text \<open>The invariant of field maps. Building a message with \<open>Message::new\<close> and \<open>set\<close> on any fields keeps
  every part well formed, the field just set reads back as the bytes written, and no other field of
  the same part changes.\<close>

theorem set_then_get:
  assumes "message_ok m"
  shows "message_ok (msg_set d v m)
    \<and> (let part = (case def_location d of HeaderLoc \<Rightarrow> header | BodyLoc \<Rightarrow> body | TrailerLoc \<Rightarrow> trailer)
       in \<forall>d'. part_get_raw d' (part (msg_set d v m))
             = (if def_tag d' = def_tag d then Some v else part_get_raw d' (part m)))"
  using message_ok_set [OF assms] by (simp add: msg_set_def split: field_location.split)

theorem set_then_get_witness:
  "message_ok (msg_set (body_field 58) ''hi'' (Message_new ''FIX.4.4'' ''D''))
   \<and> part_get_raw (body_field 58) (body (msg_set (body_field 58) ''hi'' (Message_new ''FIX.4.4'' ''D'')))
     = Some ''hi''"
  using set_then_get [OF message_ok_new, of "body_field 58" "''hi''" "''FIX.4.4''" "''D''"] by simp

end
