(* ===== verification/Dictionary.thy ===== *)
theory Dictionary
  imports Message
begin

text \<open>
  The dictionary of \<^verbatim>\<open>hotfix-dictionary\<close>: data types (\<^verbatim>\<open>datatype.rs\<close>), field, component and message definitions with
  their layouts (\<^verbatim>\<open>dictionary.rs\<close>, \<^verbatim>\<open>field.rs\<close>, \<^verbatim>\<open>layout.rs\<close>, \<^verbatim>\<open>component.rs\<close>, \<^verbatim>\<open>message_definition.rs\<close>), the lookups, and
  the builder that fills it (\<^verbatim>\<open>builder.rs\<close>). The hash maps are association lists, whose order stands for the
  unspecified iteration order.
\<close>

section \<open>Data types\<close>

datatype fix_datatype =
    DtChar | DtBoolean | DtFloat | DtAmt | DtPrice | DtPriceOffset | DtQty | DtPercentage | DtInt |
    DtDayOfMonth | DtLength | DtNumInGroup | DtSeqNum | DtTagNum | DtString | DtData | DtMonthYear |
    DtMultipleCharValue | DtCurrency | DtExchange | DtLanguage | DtLocalMktDate | DtMultipleStringValue |
    DtUtcDateOnly | DtUtcTimeOnly | DtUtcTimestamp | DtXmlData | DtCountry

definition to_ascii_uppercase :: "string \<Rightarrow> string" where
  "to_ascii_uppercase s = map (\<lambda>c. if 97 \<le> (of_char c :: nat) \<and> (of_char c :: nat) \<le> 122 then char_of (of_char c - 32 :: nat) else c) s"

text \<open>The match on the names QuickFIX uses.\<close>

definition quickfix_names :: "(string \<times> fix_datatype) list" where
  "quickfix_names =
    [(''AMT'', DtAmt), (''BOOLEAN'', DtBoolean), (''CHAR'', DtChar), (''COUNTRY'', DtCountry),
     (''CURRENCY'', DtCurrency), (''DATA'', DtData), (''DATE'', DtUtcDateOnly),
     (''DAYOFMONTH'', DtDayOfMonth), (''EXCHANGE'', DtExchange), (''FLOAT'', DtFloat), (''INT'', DtInt),
     (''LANGUAGE'', DtLanguage), (''LENGTH'', DtLength), (''LOCALMKTDATE'', DtLocalMktDate),
     (''MONTHYEAR'', DtMonthYear), (''MULTIPLECHARVALUE'', DtMultipleCharValue),
     (''MULTIPLEVALUESTRING'', DtMultipleCharValue), (''MULTIPLESTRINGVALUE'', DtMultipleStringValue),
     (''NUMINGROUP'', DtNumInGroup), (''PERCENTAGE'', DtPercentage), (''PRICE'', DtPrice),
     (''PRICEOFFSET'', DtPriceOffset), (''QTY'', DtQty), (''STRING'', DtString),
     (''TZTIMEONLY'', DtUtcTimeOnly), (''TZTIMESTAMP'', DtUtcTimestamp), (''UTCDATE'', DtUtcDateOnly),
     (''UTCDATEONLY'', DtUtcDateOnly), (''UTCTIMEONLY'', DtUtcTimeOnly), (''UTCTIMESTAMP'', DtUtcTimestamp),
     (''SEQNUM'', DtSeqNum), (''TIME'', DtUtcTimestamp), (''XMLDATA'', DtXmlData)]"

definition from_quickfix_name :: "string \<Rightarrow> fix_datatype option" where
  "from_quickfix_name name = map_of quickfix_names (to_ascii_uppercase name)"

fun to_quickfix_name :: "fix_datatype \<Rightarrow> string" where
  "to_quickfix_name DtInt = ''INT''"
| "to_quickfix_name DtLength = ''LENGTH''"
| "to_quickfix_name DtChar = ''CHAR''"
| "to_quickfix_name DtBoolean = ''BOOLEAN''"
| "to_quickfix_name DtFloat = ''FLOAT''"
| "to_quickfix_name DtAmt = ''AMT''"
| "to_quickfix_name DtPrice = ''PRICE''"
| "to_quickfix_name DtPriceOffset = ''PRICEOFFSET''"
| "to_quickfix_name DtQty = ''QTY''"
| "to_quickfix_name DtPercentage = ''PERCENTAGE''"
| "to_quickfix_name DtDayOfMonth = ''DAYOFMONTH''"
| "to_quickfix_name DtNumInGroup = ''NUMINGROUP''"
| "to_quickfix_name DtLanguage = ''LANGUAGE''"
| "to_quickfix_name DtSeqNum = ''SEQNUM''"
| "to_quickfix_name DtTagNum = ''TAGNUM''"
| "to_quickfix_name DtString = ''STRING''"
| "to_quickfix_name DtData = ''DATA''"
| "to_quickfix_name DtMonthYear = ''MONTHYEAR''"
| "to_quickfix_name DtCurrency = ''CURRENCY''"
| "to_quickfix_name DtExchange = ''EXCHANGE''"
| "to_quickfix_name DtLocalMktDate = ''LOCALMKTDATE''"
| "to_quickfix_name DtMultipleStringValue = ''MULTIPLESTRINGVALUE''"
| "to_quickfix_name DtUtcTimeOnly = ''UTCTIMEONLY''"
| "to_quickfix_name DtUtcTimestamp = ''UTCTIMESTAMP''"
| "to_quickfix_name DtUtcDateOnly = ''UTCDATEONLY''"
| "to_quickfix_name DtCountry = ''COUNTRY''"
| "to_quickfix_name DtMultipleCharValue = ''MULTIPLECHARVALUE''"
| "to_quickfix_name DtXmlData = ''XMLDATA''"

fun datatype_name :: "fix_datatype \<Rightarrow> string" where
  "datatype_name DtInt = ''int''"
| "datatype_name DtLength = ''Length''"
| "datatype_name DtChar = ''char''"
| "datatype_name DtBoolean = ''Boolean''"
| "datatype_name DtFloat = ''float''"
| "datatype_name DtAmt = ''Amt''"
| "datatype_name DtPrice = ''Price''"
| "datatype_name DtPriceOffset = ''PriceOffset''"
| "datatype_name DtQty = ''Qty''"
| "datatype_name DtPercentage = ''Percentage''"
| "datatype_name DtDayOfMonth = ''DayOfMonth''"
| "datatype_name DtNumInGroup = ''NumInGroup''"
| "datatype_name DtLanguage = ''Language''"
| "datatype_name DtSeqNum = ''SeqNum''"
| "datatype_name DtTagNum = ''TagNum''"
| "datatype_name DtString = ''String''"
| "datatype_name DtData = ''data''"
| "datatype_name DtMonthYear = ''MonthYear''"
| "datatype_name DtCurrency = ''Currency''"
| "datatype_name DtExchange = ''Exchange''"
| "datatype_name DtLocalMktDate = ''LocalMktDate''"
| "datatype_name DtMultipleStringValue = ''MultipleStringValue''"
| "datatype_name DtUtcTimeOnly = ''UTCTimeOnly''"
| "datatype_name DtUtcTimestamp = ''UTCTimestamp''"
| "datatype_name DtUtcDateOnly = ''UTCDateOnly''"
| "datatype_name DtCountry = ''Country''"
| "datatype_name DtMultipleCharValue = ''MultipleCharValue''"
| "datatype_name DtXmlData = ''XMLData''"

definition is_base_type :: "fix_datatype \<Rightarrow> bool" where
  "is_base_type t \<longleftrightarrow> t \<in> {DtChar, DtFloat, DtInt, DtString}"

definition base_type :: "fix_datatype \<Rightarrow> fix_datatype" where
  "base_type t = (case t of
      DtChar \<Rightarrow> DtChar | DtBoolean \<Rightarrow> DtChar
    | DtFloat \<Rightarrow> DtFloat | DtAmt \<Rightarrow> DtFloat | DtPrice \<Rightarrow> DtFloat | DtPriceOffset \<Rightarrow> DtFloat | DtQty \<Rightarrow> DtFloat
    | DtPercentage \<Rightarrow> DtFloat
    | DtInt \<Rightarrow> DtInt | DtDayOfMonth \<Rightarrow> DtInt | DtLength \<Rightarrow> DtInt | DtNumInGroup \<Rightarrow> DtInt | DtSeqNum \<Rightarrow> DtInt
    | DtTagNum \<Rightarrow> DtInt
    | _ \<Rightarrow> DtString)"

record datatype_data =
  dt_datatype :: fix_datatype
  dt_description :: string
  dt_examples :: "string list"

section \<open>Definitions\<close>

text \<open>\<open>LayoutItemData\<close> and \<open>LayoutItemKindData\<close>.\<close>

datatype layout_item = LayoutItem (required: bool) (item_kind: layout_item_kind)
and layout_item_kind =
    ComponentItem string
  | GroupItem tag "layout_item list"
  | FieldItem tag

text \<open>\<open>FieldData\<close> and its allowed values.\<close>

record field_enum_data =
  fe_value :: string
  fe_description :: string

record field_data =
  fd_name :: string
  fd_tag :: tag
  fd_data_type_name :: string
  fd_associated_data_tag :: "usize option"
  fd_value_restrictions :: "field_enum_data list option"
  fd_required :: bool
  fd_description :: "string option"

datatype fixml_component_attributes =
    FixmlXml
  | FixmlBlock (is_repeating: bool) (is_implicit: bool) (is_optimized: bool)
  | FixmlMessage

record component_data =
  cd_id :: usize
  cd_component_type :: fixml_component_attributes
  cd_layout_items :: "layout_item list"
  cd_name :: string

record message_data =
  md_component_id :: u32
  md_msg_type :: string
  md_name :: string
  md_layout_items :: "layout_item list"
  md_required :: bool
  md_description :: string

record dictionary =
  version :: string
  data_types_by_name :: "(string \<times> datatype_data) list"
  fields_by_tags :: "(tag \<times> field_data) list"
  field_tags_by_name :: "(string \<times> tag) list"
  components_by_name :: "(string \<times> component_data) list"
  messages_by_msgtype :: "(string \<times> message_data) list"
  message_msgtypes_by_name :: "(string \<times> string) list"

section \<open>Lookups\<close>

definition Dictionary_new :: "string \<Rightarrow> dictionary" where
  "Dictionary_new v = \<lparr>version = v, data_types_by_name = [], fields_by_tags = [], field_tags_by_name = [],
     components_by_name = [], messages_by_msgtype = [], message_msgtypes_by_name = []\<rparr>"

definition field_by_tag :: "dictionary \<Rightarrow> tag \<Rightarrow> field_data option" where
  "field_by_tag d t = map_of (fields_by_tags d) t"

definition field_by_name :: "dictionary \<Rightarrow> string \<Rightarrow> field_data option" where
  "field_by_name d n = (case map_of (field_tags_by_name d) n of
      None \<Rightarrow> None
    | Some t \<Rightarrow> field_by_tag d t)"

definition component_by_name :: "dictionary \<Rightarrow> string \<Rightarrow> component_data option" where
  "component_by_name d n = map_of (components_by_name d) n"

definition datatype_by_name :: "dictionary \<Rightarrow> string \<Rightarrow> datatype_data option" where
  "datatype_by_name d n = map_of (data_types_by_name d) n"

definition message_by_msgtype :: "dictionary \<Rightarrow> string \<Rightarrow> message_data option" where
  "message_by_msgtype d mt = map_of (messages_by_msgtype d) mt"

definition message_by_name :: "dictionary \<Rightarrow> string \<Rightarrow> message_data option" where
  "message_by_name d n = (case map_of (message_msgtypes_by_name d) n of
      None \<Rightarrow> None
    | Some mt \<Rightarrow> message_by_msgtype d mt)"

definition messages :: "dictionary \<Rightarrow> message_data list" where
  "messages d = map snd (messages_by_msgtype d)"

definition components :: "dictionary \<Rightarrow> component_data list" where
  "components d = map snd (components_by_name d)"

definition dict_fields :: "dictionary \<Rightarrow> field_data list" where
  "dict_fields d = map snd (fields_by_tags d)"

definition dict_datatypes :: "dictionary \<Rightarrow> datatype_data list" where
  "dict_datatypes d = map snd (data_types_by_name d)"

text \<open>\<^verbatim>\<open>TagU32::new(tag).unwrap()\<close>: there is no tag zero.\<close>

definition Field_tag :: "field_data \<Rightarrow> (tag, 'e) outcome" where
  "Field_tag f = (if fd_tag f = 0 then Panic else Ok (fd_tag f))"

definition fix_datatype_of :: "dictionary \<Rightarrow> field_data \<Rightarrow> (fix_datatype, 'e) outcome" where
  "fix_datatype_of d f = (case datatype_by_name d (fd_data_type_name f) of
      None \<Rightarrow> Panic
    | Some t \<Rightarrow> Ok (dt_datatype t))"

definition is_ascii_uppercase :: "char \<Rightarrow> bool" where
  "is_ascii_uppercase c \<longleftrightarrow> 65 \<le> (of_char c :: nat) \<and> (of_char c :: nat) \<le> 90"

text \<open>A suffix is a prefix of the reversed name; the third character is compared for ASCII names.\<close>

definition is_num_in_group :: "dictionary \<Rightarrow> field_data \<Rightarrow> (bool, 'e) outcome" where
  "is_num_in_group d f = (case fix_datatype_of d f of
      Ok t \<Rightarrow>
        (let name = fd_name f in
         Ok (base_type t = DtNumInGroup
           \<or> take 3 (rev name) = rev ''Len''
           \<or> (take 2 name = ''No'' \<and> 2 < length name \<and> is_ascii_uppercase (name ! 2))))
    | Err e \<Rightarrow> Err e
    | Panic \<Rightarrow> Panic)"

text \<open>The view \<open>LayoutItemKind\<close> with its references resolved: a component with its items, a group with its
  count field.\<close>

datatype resolved_kind =
    ResolvedComponent component_data
  | ResolvedGroup field_data "layout_item list"
  | ResolvedField field_data

text \<open>The function \<open>layout_item_kind\<close> unwraps every lookup.\<close>

definition resolve_item_kind :: "dictionary \<Rightarrow> layout_item_kind \<Rightarrow> (resolved_kind, 'e) outcome" where
  "resolve_item_kind d k = (case k of
      ComponentItem n \<Rightarrow> (case component_by_name d n of None \<Rightarrow> Panic | Some c \<Rightarrow> Ok (ResolvedComponent c))
    | GroupItem t items \<Rightarrow> (case field_by_tag d t of None \<Rightarrow> Panic | Some f \<Rightarrow> Ok (ResolvedGroup f items))
    | FieldItem t \<Rightarrow> (case field_by_tag d t of None \<Rightarrow> Panic | Some f \<Rightarrow> Ok (ResolvedField f)))"

fun contains_field :: "dictionary \<Rightarrow> layout_item list \<Rightarrow> field_data \<Rightarrow> (bool, 'e) outcome" where
  "contains_field d [] f = Ok False"
| "contains_field d (item # items) f = (case resolve_item_kind d (item_kind item) of
      Ok (ResolvedField g) \<Rightarrow> (case (Field_tag g :: (tag, 'e) outcome, Field_tag f :: (tag, 'e) outcome) of
          (Ok a, Ok b) \<Rightarrow> if a = b then Ok True else contains_field d items f
        | _ \<Rightarrow> Panic)
    | Ok _ \<Rightarrow> contains_field d items f
    | Err e \<Rightarrow> Err e
    | Panic \<Rightarrow> Panic)"

section \<open>The builder\<close>

definition add_field :: "field_data \<Rightarrow> dictionary \<Rightarrow> dictionary" where
  "add_field f d = d\<lparr>field_tags_by_name := im_insert (fd_name f) (fd_tag f) (field_tags_by_name d),
     fields_by_tags := im_insert (fd_tag f) f (fields_by_tags d)\<rparr>"

definition add_message :: "message_data \<Rightarrow> dictionary \<Rightarrow> dictionary" where
  "add_message m d = d\<lparr>message_msgtypes_by_name := im_insert (md_name m) (md_msg_type m) (message_msgtypes_by_name d),
     messages_by_msgtype := im_insert (md_msg_type m) m (messages_by_msgtype d)\<rparr>"

definition add_component :: "component_data \<Rightarrow> dictionary \<Rightarrow> dictionary" where
  "add_component c d = d\<lparr>components_by_name := im_insert (cd_name c) c (components_by_name d)\<rparr>"

definition add_datatype :: "datatype_data \<Rightarrow> dictionary \<Rightarrow> dictionary" where
  "add_datatype t d = d\<lparr>data_types_by_name := im_insert (datatype_name (dt_datatype t)) t (data_types_by_name d)\<rparr>"

section \<open>Laws of the data types\<close>

lemma base_type_laws: "is_base_type (base_type t)" "base_type t = t \<longleftrightarrow> is_base_type t" "base_type (base_type t) = base_type t"
  by (cases t; simp add: is_base_type_def base_type_def)+

lemma datatype_name_inj: "datatype_name t = datatype_name u \<Longrightarrow> t = u"
  by (cases t; cases u; simp)

lemma quickfix_name_roundtrip: "from_quickfix_name (to_quickfix_name t) = (if t = DtTagNum then None else Some t)"
  by (induct t) code_simp+

text \<open>The first disjunct of \<open>is_num_in_group\<close> compares a base type with a type that is not one, so it never holds.\<close>

lemma is_num_in_group_by_name:
  assumes "is_num_in_group d f = Ok b"
  shows "b \<longleftrightarrow> take 3 (rev (fd_name f)) = rev ''Len''
     \<or> (take 2 (fd_name f) = ''No'' \<and> 2 < length (fd_name f) \<and> is_ascii_uppercase (fd_name f ! 2))"
proof -
  have "base_type t \<noteq> DtNumInGroup" for t using base_type_laws(1) [of t] by (auto simp: is_base_type_def)
  then show ?thesis using assms by (auto simp: is_num_in_group_def Let_def split: outcome.splits)
qed

end
