(* ===== verification/Message_Builder.thy ===== *)
theory Message_Builder
  imports Dictionary
begin

text \<open>
  The parser of complete messages, \<^verbatim>\<open>hotfix-message/src/builder.rs\<close>: the field scanner \<open>Parser\<close>, the
  integrity checks, the header, body and trailer with their repeating groups, and the message
  specifications computed from a dictionary. The loops that parse groups and the body are partial
  functions into \<open>option\<close>; \<open>build_total\<close> below shows that they always return. Where the code
  unwraps or expects, the model panics.
\<close>

section \<open>Errors and results\<close>

datatype parser_error =
    IOError
  | InvalidField tag
  | InvalidGroup tag
  | InvalidGroupFieldOrder tag tag
  | InvalidComponent string
  | InvalidMsgType string
  | RequiredFieldMissing tag "tag option"
  | Malformed string

datatype message_integrity_error =
    IntegrityBeginString | IntegrityBodyLength | IntegrityMsgType | IntegrityCheckSum

datatype garbled_reason =
    GarbledMalformed | GarbledBeginString | GarbledBodyLength | GarbledMsgType | GarbledChecksum

datatype invalid_reason =
    ReasonField tag
  | ReasonGroup tag
  | ReasonOrderInGroup tag tag
  | ReasonComponent string
  | ReasonMsgType string
  | ReasonRequiredFieldMissing tag "tag option"

datatype parsed_message =
    ValidMsg message
  | InvalidMsg message invalid_reason
  | Garbled garbled_reason
  | UnexpectedError string

definition into_message :: "parsed_message \<Rightarrow> message option" where
  "into_message p = (case p of ValidMsg m \<Rightarrow> Some m | InvalidMsg m _ \<Rightarrow> Some m | _ \<Rightarrow> None)"

definition integrity_error_to_parsed_message :: "message_integrity_error \<Rightarrow> parsed_message" where
  "integrity_error_to_parsed_message e = (case e of
      IntegrityBeginString \<Rightarrow> Garbled GarbledBeginString
    | IntegrityBodyLength \<Rightarrow> Garbled GarbledBodyLength
    | IntegrityMsgType \<Rightarrow> Garbled GarbledMsgType
    | IntegrityCheckSum \<Rightarrow> Garbled GarbledChecksum)"

definition parser_error_to_parsed_message :: "parser_error \<Rightarrow> field_map \<Rightarrow> parsed_message" where
  "parser_error_to_parsed_message err h = (case err of
      IOError \<Rightarrow> Garbled GarbledMalformed
    | InvalidField t \<Rightarrow> InvalidMsg (with_header h) (ReasonField t)
    | InvalidGroup t \<Rightarrow> InvalidMsg (with_header h) (ReasonGroup t)
    | InvalidGroupFieldOrder t g \<Rightarrow> InvalidMsg (with_header h) (ReasonOrderInGroup t g)
    | InvalidComponent n \<Rightarrow> InvalidMsg (with_header h) (ReasonComponent n)
    | InvalidMsgType mt \<Rightarrow> InvalidMsg (with_header h) (ReasonMsgType mt)
    | RequiredFieldMissing t g \<Rightarrow> InvalidMsg (with_header h) (ReasonRequiredFieldMissing t g)
    | Malformed _ \<Rightarrow> Garbled GarbledMalformed)"

section \<open>Specifications\<close>

datatype field_spec = FieldSpec (spec_tag: tag) (is_required: bool)

datatype group_spec =
  GroupSpec (number_of_entries_tag: tag) (gs_fields: "field_spec list") (nested_groups: "(tag \<times> group_spec) list")

record message_spec =
  ms_fields :: "field_spec list"
  ms_groups :: "(tag \<times> group_spec) list"

text \<open>\<open>None\<close> stands for the panic of \<open>expect("groups always have at least one field")\<close>.\<close>

definition gs_delimiter_tag :: "group_spec \<Rightarrow> tag option" where
  "gs_delimiter_tag g = (case gs_fields g of [] \<Rightarrow> None | f # _ \<Rightarrow> Some (spec_tag f))"

definition gs_contains_tag :: "group_spec \<Rightarrow> tag \<Rightarrow> bool" where
  "gs_contains_tag g t \<longleftrightarrow> list_ex (\<lambda>f. spec_tag f = t) (gs_fields g)"

definition get_nested_group :: "group_spec \<Rightarrow> tag \<Rightarrow> group_spec option" where
  "get_nested_group g t = map_of (nested_groups g) t"

definition ms_contains_tag :: "message_spec \<Rightarrow> tag \<Rightarrow> bool" where
  "ms_contains_tag s t \<longleftrightarrow> list_ex (\<lambda>f. spec_tag f = t) (ms_fields s)"

definition ms_get_group :: "message_spec \<Rightarrow> tag \<Rightarrow> group_spec option" where
  "ms_get_group s t = map_of (ms_groups s) t"

record message_builder =
  dict :: dictionary
  header_tags :: "tag list"
  trailer_tags :: "tag list"
  message_specification :: "(string \<times> message_spec) list"
  config :: msg_config

section \<open>The field scanner\<close>

record parser =
  position :: nat
  raw_data :: bytes
  parser_separator :: char

fun find_index :: "('a \<Rightarrow> bool) \<Rightarrow> 'a list \<Rightarrow> nat option" where
  "find_index P [] = None"
| "find_index P (x # xs) = (if P x then Some 0 else map_option Suc (find_index P xs))"

definition tag_from_bytes :: "bytes \<Rightarrow> tag option" where
  "tag_from_bytes bs =
     (let t = foldl (\<lambda>t byte. t * 10 + (of_char byte - 48)) (0 :: u32) bs
      in if t = 0 then None else Some t)"

definition parse_field_at :: "parser \<Rightarrow> nat \<Rightarrow> (field \<times> nat) option" where
  "parse_field_at p pos =
     (let rest = drop pos (raw_data p) in
      case find_index (\<lambda>c. c = CHR ''='') rest of
        None \<Rightarrow> None
      | Some i \<Rightarrow>
          let equal_sign_position = pos + i; after = drop (Suc i) rest in
          (case find_index (\<lambda>c. c = parser_separator p) after of
             None \<Rightarrow> None
           | Some bytes_until_separator \<Rightarrow>
               let separator_position = equal_sign_position + bytes_until_separator + 1 in
               (case tag_from_bytes (take i rest) of
                  None \<Rightarrow> None
                | Some t \<Rightarrow> Some (Field t (take bytes_until_separator after), separator_position))))"

definition next_field :: "parser \<Rightarrow> (field \<times> parser) option" where
  "next_field p = (case parse_field_at p (position p) of
      None \<Rightarrow> None
    | Some (f, end_position) \<Rightarrow> Some (f, p\<lparr>position := end_position + 1\<rparr>))"

definition parse_checksum :: "parser \<Rightarrow> nat \<Rightarrow> (field, message_integrity_error) outcome" where
  "parse_checksum p checksum_start =
     (if checksum_start > length (raw_data p) then Panic
      else case parse_field_at p checksum_start of
        Some (f, _) \<Rightarrow> if field_tag f = 10 then Ok f else Err IntegrityCheckSum
      | None \<Rightarrow> Err IntegrityCheckSum)"

section \<open>Integrity\<close>

definition CHECKSUM_LENGTH :: nat where "CHECKSUM_LENGTH = 7"

definition parse_leading_field ::
    "tag \<Rightarrow> message_integrity_error \<Rightarrow> parser \<Rightarrow> (field \<times> parser, message_integrity_error) outcome" where
  "parse_leading_field t e p = (case next_field p of
      Some (f, p') \<Rightarrow> if field_tag f = t then Ok (f, p') else Err e
    | None \<Rightarrow> Err e)"

definition parse_begin_string :: "parser \<Rightarrow> (field \<times> parser, message_integrity_error) outcome" where
  "parse_begin_string = parse_leading_field 8 IntegrityBeginString"

definition parse_body_length :: "parser \<Rightarrow> (field \<times> parser, message_integrity_error) outcome" where
  "parse_body_length = parse_leading_field 9 IntegrityBodyLength"

definition parse_message_type :: "parser \<Rightarrow> (field \<times> parser, message_integrity_error) outcome" where
  "parse_message_type = parse_leading_field 35 IntegrityMsgType"

abbreviation wrap_usize :: "nat \<Rightarrow> nat" where
  "wrap_usize n \<equiv> n mod 2 ^ 64"

text \<open>\<open>verify_integrity\<close> yields the header and trailer it started and the parser after the MsgType field. The sums
  with the received BodyLength are \<open>usize\<close> sums and wrap.\<close>

definition verify_integrity ::
    "parser \<Rightarrow> (field_map \<times> field_map \<times> parser, message_integrity_error) outcome" where
  "verify_integrity p0 = (case parse_begin_string p0 of
      Err e \<Rightarrow> Err e | Panic \<Rightarrow> Panic
    | Ok (f8, p1) \<Rightarrow> (case parse_body_length p1 of
        Err e \<Rightarrow> Err e | Panic \<Rightarrow> Panic
      | Ok (f9, p2) \<Rightarrow>
          (let h = fm_insert f9 (fm_insert f8 fm_default) in
           case part_get u64_deserialize BODY_LENGTH h of
             Ok body_length \<Rightarrow>
               if length (raw_data p2) \<noteq> wrap_usize (position p2 + unat body_length + CHECKSUM_LENGTH)
               then Err IntegrityBodyLength
               else
                 let body_end = wrap_usize (position p2 + unat body_length) in
                 (case parse_checksum p2 body_end of
                    Err e \<Rightarrow> Err e | Panic \<Rightarrow> Panic
                  | Ok f10 \<Rightarrow>
                      let t = fm_insert f10 fm_default;
                          mismatch = (case part_get checksum_deserialize CHECK_SUM t of
                              Ok checksum \<Rightarrow> checksum_compute (take body_end (raw_data p2)) \<noteq> checksum
                            | _ \<Rightarrow> False)
                      in if mismatch then Err IntegrityCheckSum
                         else (case parse_message_type p2 of
                             Err e \<Rightarrow> Err e | Panic \<Rightarrow> Panic
                           | Ok (f35, p3) \<Rightarrow> Ok (fm_insert f35 h, t, p3)))
           | _ \<Rightarrow> Err IntegrityBodyLength)))"

section \<open>Progress of the scanner\<close>

abbreviation remaining :: "parser \<Rightarrow> nat" where
  "remaining p \<equiv> length (raw_data p) - position p"

lemma find_index_Some:
  "find_index P xs = Some i \<Longrightarrow> i < length xs \<and> P (xs ! i) \<and> (\<forall>j < i. \<not> P (xs ! j))"
proof (induction xs arbitrary: i)
  case (Cons x xs)
  show ?case
  proof (cases i)
    case 0
    then show ?thesis using Cons.prems by (auto split: if_splits)
  next
    case (Suc k)
    then have "\<not> P x" "find_index P xs = Some k" using Cons.prems by (auto split: if_splits)
    with Cons.IH Suc show ?thesis by (auto simp: nth_Cons split: nat.split)
  qed
qed simp

lemma parse_field_at_bounds:
  "parse_field_at p pos = Some (f, e) \<Longrightarrow> pos < e \<and> e < length (raw_data p)"
  by (auto simp: parse_field_at_def Let_def split: option.splits dest!: find_index_Some)

lemma next_field_progress:
  assumes "next_field p = Some (f, p')"
  shows "remaining p' < remaining p" "raw_data p' = raw_data p" "parser_separator p' = parser_separator p"
    "position p' \<le> length (raw_data p')" "position p < position p'"
  using assms parse_field_at_bounds [of p "position p"]
  by (auto simp: next_field_def split: option.splits)

section \<open>Header, body and trailer\<close>

definition is_header_tag :: "message_builder \<Rightarrow> tag \<Rightarrow> bool" where
  "is_header_tag b t \<longleftrightarrow> t \<in> set (header_tags b)"

definition is_trailer_tag :: "message_builder \<Rightarrow> tag \<Rightarrow> bool" where
  "is_trailer_tag b t \<longleftrightarrow> t \<in> set (trailer_tags b)"

definition is_user_defined :: "tag \<Rightarrow> bool" where
  "is_user_defined t \<longleftrightarrow> 5000 \<le> t"

definition should_accept_unknown_user_defined :: "message_builder \<Rightarrow> tag \<Rightarrow> bool" where
  "should_accept_unknown_user_defined b t \<longleftrightarrow>
     \<not> validate_user_defined_fields (config b) \<and> is_user_defined t \<and> field_by_tag (dict b) t = None"

definition get_dict_field_by_tag :: "message_builder \<Rightarrow> tag \<Rightarrow> (field_data, parser_error) outcome" where
  "get_dict_field_by_tag b t = (case field_by_tag (dict b) t of
      None \<Rightarrow> Err (InvalidField t) | Some f \<Rightarrow> Ok f)"

definition get_message_def :: "message_builder \<Rightarrow> string \<Rightarrow> (message_spec, parser_error) outcome" where
  "get_message_def b mt = (case map_of (message_specification b) mt of
      Some d \<Rightarrow> Ok d | None \<Rightarrow> Err (InvalidMsgType mt))"

text \<open>\<open>build_header\<close> returns the field after the header; the header it has built is also there on an
  error, where it goes into the rejected message.\<close>

function build_header ::
    "message_builder \<Rightarrow> field_map \<Rightarrow> parser \<Rightarrow> (field \<times> parser, parser_error) outcome \<times> field_map" where
  "build_header b h p = (case next_field p of
      None \<Rightarrow> (Err (Malformed ''message ended within header''), h)
    | Some (f, p') \<Rightarrow>
        if is_header_tag b (field_tag f) then build_header b (fm_insert f h) p'
        else (case part_get str_deserialize MSG_TYPE h of
            Ok msg_type \<Rightarrow>
              if message_by_msgtype (dict b) msg_type = None then (Err (InvalidMsgType msg_type), h)
              else (Ok (f, p'), h)
          | _ \<Rightarrow> (Panic, h)))"
  by pat_completeness auto
termination
  by (relation "measure (\<lambda>(b, h, p). remaining p)") (auto dest: next_field_progress(1))

declare build_header.simps [simp del]

text \<open>The start of \<open>parse_groups\<close>: the field after the count field must be the delimiter.\<close>

definition open_groups :: "parser \<Rightarrow> group_spec \<Rightarrow> (field \<times> parser, parser_error) outcome" where
  "open_groups p group_def = (case gs_delimiter_tag group_def of
      None \<Rightarrow> Panic
    | Some delimiter \<Rightarrow> (case next_field p of
        None \<Rightarrow> Err (Malformed ''missing delimiter field'')
      | Some (f, p') \<Rightarrow>
          if field_tag f \<noteq> delimiter
          then Err (InvalidGroupFieldOrder (field_tag f) (number_of_entries_tag group_def))
          else Ok (f, p')))"

definition push_current :: "repeating_group list \<Rightarrow> repeating_group option \<Rightarrow> repeating_group list" where
  "push_current gs current = (case current of None \<Rightarrow> gs | Some g \<Rightarrow> gs @ [g])"

text \<open>The loop of \<open>parse_groups\<close>; the nested call is the start above followed by the loop again.\<close>

partial_function (option) parse_groups_loop ::
    "message_builder \<Rightarrow> group_spec \<Rightarrow> tag \<Rightarrow> parser \<Rightarrow> repeating_group list \<Rightarrow> repeating_group option
     \<Rightarrow> nat \<Rightarrow> field \<Rightarrow> (repeating_group list \<times> field \<times> parser, parser_error) outcome option" where
  "parse_groups_loop b group_def start p gs current next_declared_idx f =
     (case gs_delimiter_tag group_def of
        None \<Rightarrow> Some Panic
      | Some delimiter \<Rightarrow>
          if field_tag f = delimiter then
            (case next_field p of
               None \<Rightarrow> Some (Err (Malformed ''incomplete group''))
             | Some (f', p') \<Rightarrow>
                 parse_groups_loop b group_def start p' (push_current gs current)
                   (Some (rg_store_field f (new_with_tags start delimiter))) 1 f')
          else if gs_contains_tag group_def (field_tag f) then
            (case find_index (\<lambda>s. spec_tag s = field_tag f) (gs_fields group_def) of
               None \<Rightarrow> Some Panic
             | Some pos \<Rightarrow>
                 if pos < next_declared_idx
                 then Some (Err (InvalidGroupFieldOrder (field_tag f) (number_of_entries_tag group_def)))
                 else (case current of
                     None \<Rightarrow> Some Panic
                   | Some g \<Rightarrow>
                       (case get_nested_group group_def (field_tag f) of
                          Some nested_def \<Rightarrow>
                            (case open_groups p nested_def of
                               Err e \<Rightarrow> Some (Err e)
                             | Panic \<Rightarrow> Some Panic
                             | Ok (f0, p0) \<Rightarrow>
                                 Option.bind (parse_groups_loop b nested_def (field_tag f) p0 [] None 0 f0)
                                   (\<lambda>r. case r of
                                      Err e \<Rightarrow> Some (Err e)
                                    | Panic \<Rightarrow> Some Panic
                                    | Ok (nested, f', p') \<Rightarrow>
                                        (case part_set_groups nested (group_fields (rg_store_field f g)) of
                                           Ok m \<Rightarrow> parse_groups_loop b group_def start p' gs
                                             (Some (RepeatingGroup (start_tag g) (delimiter_tag g) m))
                                             (pos + 1) f'
                                         | _ \<Rightarrow> Some Panic)))
                        | None \<Rightarrow>
                            (case next_field p of
                               None \<Rightarrow> Some (Err (Malformed ''incomplete group''))
                             | Some (f', p') \<Rightarrow>
                                 parse_groups_loop b group_def start p' gs (Some (rg_store_field f g))
                                   (pos + 1) f'))))
          else if should_accept_unknown_user_defined b (field_tag f) then
            (case current of
               None \<Rightarrow> Some Panic
             | Some g \<Rightarrow>
                 (case next_field p of
                    None \<Rightarrow> Some (Err (Malformed ''incomplete group''))
                  | Some (f', p') \<Rightarrow>
                      parse_groups_loop b group_def start p' gs (Some (rg_store_field f g)) next_declared_idx f'))
          else Some (Ok (push_current gs current, f, p)))"

definition parse_groups ::
    "message_builder \<Rightarrow> parser \<Rightarrow> group_spec \<Rightarrow> tag
     \<Rightarrow> (repeating_group list \<times> field \<times> parser, parser_error) outcome option" where
  "parse_groups b p group_def start = (case open_groups p group_def of
      Err e \<Rightarrow> Some (Err e)
    | Panic \<Rightarrow> Some Panic
    | Ok (f, p') \<Rightarrow> parse_groups_loop b group_def start p' [] None 0 f)"

fun sequence_outcomes :: "(unit, 'e) outcome list \<Rightarrow> (unit, 'e) outcome" where
  "sequence_outcomes [] = Ok ()"
| "sequence_outcomes (r # rs) = (case r of Ok _ \<Rightarrow> sequence_outcomes rs | Err e \<Rightarrow> Err e | Panic \<Rightarrow> Panic)"

text \<open>The checks of \<open>check_required_fields_in_groups\<close> in the order of its loops, the first failure wins.\<close>

fun check_required_fields_in_groups :: "group_spec \<Rightarrow> repeating_group list \<Rightarrow> (unit, parser_error) outcome" where
  "check_required_fields_in_groups (GroupSpec group_tag fds nested) gs =
     sequence_outcomes (concat (map (\<lambda>entry.
       map (\<lambda>fd. if is_required fd \<and> map_of (fm_fields (group_fields entry)) (spec_tag fd) = None
                 then Err (RequiredFieldMissing (spec_tag fd) (Some group_tag)) else Ok ()) fds
       @ map (\<lambda>(nested_tag, nested_spec). case map_of (fm_groups (group_fields entry)) nested_tag of
                 Some nested_entries \<Rightarrow> check_required_fields_in_groups nested_spec nested_entries
               | None \<Rightarrow> Ok ()) nested) gs))"

partial_function (option) build_body_loop ::
    "message_builder \<Rightarrow> message_spec \<Rightarrow> field_map \<Rightarrow> parser \<Rightarrow> field
     \<Rightarrow> (field_map \<times> field \<times> parser, parser_error) outcome option" where
  "build_body_loop b message_def bd p f =
     (if ms_contains_tag message_def (field_tag f) then
        (case get_dict_field_by_tag b (field_tag f) of
           Err e \<Rightarrow> Some (Err e)
         | Panic \<Rightarrow> Some Panic
         | Ok dict_field \<Rightarrow>
             (case ms_get_group message_def (field_tag f) of
                Some group_def \<Rightarrow>
                  (case parse_groups b p group_def (fd_tag dict_field) of
                     None \<Rightarrow> None
                   | Some (Err e) \<Rightarrow> Some (Err e)
                   | Some Panic \<Rightarrow> Some Panic
                   | Some (Ok (gs, f', p')) \<Rightarrow>
                       (case check_required_fields_in_groups group_def gs of
                          Err e \<Rightarrow> Some (Err e)
                        | Panic \<Rightarrow> Some Panic
                        | Ok _ \<Rightarrow>
                            (case part_set_groups gs (part_store_field f bd) of
                               Ok bd' \<Rightarrow> build_body_loop b message_def bd' p' f'
                             | Err _ \<Rightarrow> Some (Err (Malformed ''failed to set groups''))
                             | Panic \<Rightarrow> Some Panic)))
              | None \<Rightarrow>
                  (case next_field p of
                     None \<Rightarrow> Some (Err (Malformed ''message ended within the body''))
                   | Some (f', p') \<Rightarrow> build_body_loop b message_def (part_store_field f bd) p' f')))
      else if should_accept_unknown_user_defined b (field_tag f) then
        (case next_field p of
           None \<Rightarrow> Some (Err (Malformed ''message ended within the body''))
         | Some (f', p') \<Rightarrow> build_body_loop b message_def (part_store_field f bd) p' f')
      else if is_trailer_tag b (field_tag f) then Some (Ok (bd, f, p))
      else Some (Err (InvalidField (field_tag f))))"

definition build_body ::
    "message_builder \<Rightarrow> string \<Rightarrow> parser \<Rightarrow> field
     \<Rightarrow> (field_map \<times> field \<times> parser, parser_error) outcome option" where
  "build_body b msg_type p f = (case get_message_def b msg_type of
      Err e \<Rightarrow> Some (Err e)
    | Panic \<Rightarrow> Some Panic
    | Ok message_def \<Rightarrow> build_body_loop b message_def fm_default p f)"

function build_trailer :: "field_map \<Rightarrow> parser \<Rightarrow> field \<Rightarrow> field_map" where
  "build_trailer t p f =
     (if field_tag f = 10 then t
      else case next_field p of
          None \<Rightarrow> part_store_field f t
        | Some (f', p') \<Rightarrow> build_trailer (part_store_field f t) p' f')"
  by pat_completeness auto
termination
  by (relation "measure (\<lambda>(t, p, f). remaining p)") (auto dest: next_field_progress(1))

declare build_trailer.simps [simp del]

definition build :: "message_builder \<Rightarrow> bytes \<Rightarrow> (parsed_message, unit) outcome option" where
  "build b data =
     (let p0 = \<lparr>position = 0, raw_data = data, parser_separator = separator (config b)\<rparr> in
      case verify_integrity p0 of
        Err e \<Rightarrow> Some (Ok (integrity_error_to_parsed_message e))
      | Panic \<Rightarrow> Some Panic
      | Ok (h0, t0, p1) \<Rightarrow>
          (case build_header b h0 p1 of
             (Err e, h) \<Rightarrow> Some (Ok (parser_error_to_parsed_message e h))
           | (Panic, h) \<Rightarrow> Some Panic
           | (Ok (f, p2), h) \<Rightarrow>
               (case part_get str_deserialize MSG_TYPE h of
                  Ok msg_type \<Rightarrow>
                    (case build_body b msg_type p2 f of
                       None \<Rightarrow> None
                     | Some (Err e) \<Rightarrow> Some (Ok (parser_error_to_parsed_message e h))
                     | Some Panic \<Rightarrow> Some Panic
                     | Some (Ok (bd, f', p3)) \<Rightarrow>
                         Some (Ok (ValidMsg \<lparr>header = h, body = bd, trailer = build_trailer t0 p3 f'\<rparr>)))
                | _ \<Rightarrow> Some Panic)))"

section \<open>The loops return\<close>

lemma open_groups_progress:
  "open_groups p d = Ok (f, p') \<Longrightarrow> next_field p = Some (f, p')"
  by (auto simp: open_groups_def split: option.splits if_splits)

lemma parse_groups_loop_total:
  "\<exists>r. parse_groups_loop b group_def start p gs current idx f = Some r
     \<and> (\<forall>gs' f' p'. r = Ok (gs', f', p') \<longrightarrow> remaining p' \<le> remaining p)"
proof (induction "remaining p" arbitrary: group_def start p gs current idx f rule: less_induct)
  case less
  have step: "\<exists>r. parse_groups_loop b d st p' gs' c' i' g' = Some r
      \<and> (\<forall>gs'' f'' p''. r = Ok (gs'', f'', p'') \<longrightarrow> remaining p'' \<le> remaining p)"
    if "next_field p = Some (g, p1)" "remaining p' \<le> remaining p1" for d st p' gs' c' i' g' g p1
  proof -
    have "remaining p' < remaining p" using that next_field_progress(1) [OF that(1)] by simp
    with less [of p' d st gs' c' i' g'] show ?thesis by (meson less_imp_le order_trans)
  qed
  have field_step: "\<exists>r. parse_groups_loop b d st p1 gs' c' i' g = Some r
      \<and> (\<forall>gs'' f'' p''. r = Ok (gs'', f'', p'') \<longrightarrow> remaining p'' \<le> remaining p)"
    if "next_field p = Some (g, p1)" for d st gs' c' i' g p1
    using step [OF that] by simp
  have nested: "\<exists>r. parse_groups_loop b nd nt p0 [] None 0 f0 = Some r
      \<and> (\<forall>gs'' f'' p''. r = Ok (gs'', f'', p'') \<longrightarrow> remaining p'' \<le> remaining p0)"
    if "open_groups p nd = Ok (f0, p0)" for nd nt f0 p0
    using less [of p0] next_field_progress(1) [OF open_groups_progress [OF that]] by simp
  have nested_step: "\<exists>r. Option.bind (parse_groups_loop b nd nt p0 [] None 0 f0)
       (\<lambda>r. case r of Err e \<Rightarrow> Some (Err e) | Panic \<Rightarrow> Some Panic
          | Ok (nested, f', p') \<Rightarrow> (case part_set_groups nested m0 of
              Ok m \<Rightarrow> parse_groups_loop b group_def start p' gs (Some (RepeatingGroup s0 d0 m)) i' f'
            | _ \<Rightarrow> Some Panic)) = Some r
      \<and> (\<forall>gs'' f'' p''. r = Ok (gs'', f'', p'') \<longrightarrow> remaining p'' \<le> remaining p)"
    if o: "open_groups p nd = Ok (f0, p0)" for nd nt f0 p0 m0 s0 d0 i'
  proof -
    obtain r where r: "parse_groups_loop b nd nt p0 [] None 0 f0 = Some r"
      "\<forall>gs'' f'' p''. r = Ok (gs'', f'', p'') \<longrightarrow> remaining p'' \<le> remaining p0"
      using nested [OF o] by blast
    then show ?thesis
      by (cases r) (auto split: outcome.split intro!: step [OF open_groups_progress [OF o]])
  qed
  show ?case
    by (subst parse_groups_loop.simps)
      (auto split: option.split outcome.split intro!: field_step nested_step)
qed

lemma parse_groups_total:
  "\<exists>r. parse_groups b p group_def start = Some r
     \<and> (\<forall>gs' f' p'. r = Ok (gs', f', p') \<longrightarrow> remaining p' < remaining p)"
proof (cases "open_groups p group_def")
  case (Ok x)
  obtain f p' where x: "x = (f, p')" by (cases x)
  then have "remaining p' < remaining p"
    using Ok open_groups_progress next_field_progress(1) by blast
  with parse_groups_loop_total [of b group_def start p' "[]" None 0 f] show ?thesis
    by (simp add: parse_groups_def Ok x) (meson le_less_trans)
qed (simp_all add: parse_groups_def)

lemma parse_groups_not_None [simp]: "parse_groups b p g st \<noteq> None"
  using parse_groups_total [of b p g st] by auto

lemma parse_groups_progress: "parse_groups b p g st = Some (Ok (gs, f, p')) \<Longrightarrow> remaining p' < remaining p"
  using parse_groups_total [of b p g st] by auto

lemma build_body_loop_total: "\<exists>r. build_body_loop b d bd p f = Some r"
proof (induction "remaining p" arbitrary: bd p f rule: less_induct)
  case less
  have groups: "parse_groups b p g st = Some (Ok (gs', f', p')) \<Longrightarrow> \<exists>r'. build_body_loop b d bd p' f'' = Some r'"
    for g st gs' f' p' bd f''
    using parse_groups_progress less by blast
  have field: "next_field p = Some (f', p') \<Longrightarrow> \<exists>r'. build_body_loop b d bd p' f'' = Some r'" for f' p' bd f''
    using less next_field_progress(1) by blast
  show ?case
    by (subst build_body_loop.simps) (auto split: option.split outcome.split intro: field groups)
qed

lemma build_body_total: "\<exists>r. build_body b mt p f = Some r"
  by (auto simp: build_body_def build_body_loop_total split: outcome.split)

lemma build_body_not_None [simp]: "build_body b mt p f \<noteq> None"
  using build_body_total [of b mt p f] by auto

lemma build_Some: "\<exists>r. build b data = Some r"
  by (auto simp: build_def Let_def split: outcome.split option.split prod.split)

section \<open>Scanning what the encoder writes\<close>

lemma find_index_first: "(\<And>x. x \<in> set xs \<Longrightarrow> \<not> P x) \<Longrightarrow> P c \<Longrightarrow> find_index P (xs @ c # ys) = Some (length xs)"
  by (induction xs) auto

lemma foldl_show_nat:
  "foldl (\<lambda>t byte. t * 10 + (of_char byte - 48)) (0 :: u32) (show_nat n) = of_nat n"
proof (induction n rule: show_nat.induct)
  case (1 n)
  show ?case
  proof (cases "n < 10")
    case True
    then show ?thesis by (subst show_nat.simps) (simp add: of_char_digit)
  next
    case False
    have "of_nat (n div 10) * 10 + of_nat (n mod 10) = (of_nat n :: u32)" by (rule of_nat_digits(1))
    with False 1 show ?thesis by (subst show_nat.simps) (simp add: of_char_digit)
  qed
qed

lemma tag_from_bytes_show [simp]: "t \<noteq> 0 \<Longrightarrow> tag_from_bytes (show_u32 t) = Some t"
  by (simp add: tag_from_bytes_def foldl_show_nat)

abbreviation rest_of :: "parser \<Rightarrow> bytes" where
  "rest_of p \<equiv> drop (position p) (raw_data p)"

definition field_wf :: "char \<Rightarrow> field \<Rightarrow> bool" where
  "field_wf sep f \<longleftrightarrow> field_tag f \<noteq> 0 \<and> sep \<notin> set (field_data f)"

definition field_text :: "char \<Rightarrow> field \<Rightarrow> bytes" where
  "field_text sep f = field_bytes sep (show_u32 (field_tag f)) (field_data f)"

lemma parse_field_at_text:
  assumes "drop pos (raw_data p) = field_text (parser_separator p) f @ post" "field_wf (parser_separator p) f"
  shows "parse_field_at p pos = Some (f, pos + length (field_text (parser_separator p) f) - 1)"
proof -
  let ?d = "show_u32 (field_tag f)"
  have rest: "drop pos (raw_data p) = ?d @ CHR ''='' # field_data f @ parser_separator p # post"
    using assms(1) by (simp add: field_text_def)
  have i: "find_index (\<lambda>c. c = CHR ''='') (drop pos (raw_data p)) = Some (length ?d)"
    unfolding rest by (rule find_index_first) (auto dest!: show_nat_digits digit_not_special(2))
  have "drop (Suc (length ?d)) (drop pos (raw_data p)) = field_data f @ parser_separator p # post"
    unfolding rest by simp
  moreover have "find_index (\<lambda>c. c = parser_separator p) (field_data f @ parser_separator p # post)
      = Some (length (field_data f))"
    using assms(2) by (intro find_index_first) (auto simp: field_wf_def)
  moreover have "take (length ?d) (drop pos (raw_data p)) = ?d" unfolding rest by simp
  ultimately show ?thesis using i assms(2)
    by (simp add: parse_field_at_def field_wf_def field_text_def del: drop_drop)
qed

lemma next_field_text:
  assumes "rest_of p = field_text (parser_separator p) f @ post" "field_wf (parser_separator p) f"
  shows "next_field p = Some (f, p\<lparr>position := position p + length (field_text (parser_separator p) f)\<rparr>)"
  using parse_field_at_text [OF assms] by (simp add: next_field_def field_text_def)

lemma rest_of_advance:
  "rest_of p = xs @ post \<Longrightarrow> rest_of (p\<lparr>position := position p + length xs\<rparr>) = post"
  by (simp flip: drop_drop) (metis add.commute append_eq_conv_conj drop_drop)

abbreviation texts :: "char \<Rightarrow> field list \<Rightarrow> bytes" where
  "texts sep fs \<equiv> concat (map (field_text sep) fs)"

abbreviation inserts :: "field_map \<Rightarrow> field list \<Rightarrow> field_map" where
  "inserts \<equiv> foldl (\<lambda>m f. fm_insert f m)"

abbreviation advance :: "parser \<Rightarrow> bytes \<Rightarrow> parser" where
  "advance p xs \<equiv> p\<lparr>position := position p + length xs\<rparr>"

lemma build_header_texts:
  assumes "rest_of p = texts (parser_separator p) (fs @ [g]) @ post"
    and "list_all (field_wf (parser_separator p)) (fs @ [g])"
    and "list_all (\<lambda>f. is_header_tag b (field_tag f)) fs" "\<not> is_header_tag b (field_tag g)"
    and "part_get str_deserialize MSG_TYPE (inserts h fs) = Ok mt" "message_by_msgtype (dict b) mt \<noteq> None"
  shows "build_header b h p = (Ok (g, advance p (texts (parser_separator p) (fs @ [g]))), inserts h fs)"
  using assms
proof (induction fs arbitrary: h p)
  case Nil
  then show ?case
    using next_field_text [of p g post]
    by (subst build_header.simps) (auto simp: message_by_msgtype_def)
next
  case (Cons f fs)
  let ?p = "advance p (field_text (parser_separator p) f)"
  have n: "next_field p = Some (f, ?p)"
    using Cons.prems next_field_text [of p f "texts (parser_separator p) (fs @ [g]) @ post"] by simp
  have "rest_of ?p = texts (parser_separator ?p) (fs @ [g]) @ post"
    using Cons.prems rest_of_advance [of p "field_text (parser_separator p) f"] by simp
  then have "build_header b (fm_insert f h) ?p
      = (Ok (g, advance ?p (texts (parser_separator p) (fs @ [g]))), inserts (fm_insert f h) fs)"
    using Cons.IH [of ?p "fm_insert f h"] Cons.prems by simp
  with n Cons.prems show ?case by (subst build_header.simps) (simp add: add.assoc)
qed

lemma texts_hd: "fs \<noteq> [] \<Longrightarrow> texts sep fs = field_text sep (hd fs) @ texts sep (tl fs)"
  by (cases fs) auto

lemma next_field_hd:
  assumes "fs \<noteq> []" "rest_of p = texts (parser_separator p) fs @ post"
    and "list_all (field_wf (parser_separator p)) fs"
  shows "next_field p = Some (hd fs, advance p (field_text (parser_separator p) (hd fs)))"
    "rest_of (advance p (field_text (parser_separator p) (hd fs))) = texts (parser_separator p) (tl fs) @ post"
proof -
  have r: "rest_of p = field_text (parser_separator p) (hd fs) @ texts (parser_separator p) (tl fs) @ post"
    using assms texts_hd by simp
  have "field_wf (parser_separator p) (hd fs)" using assms by (cases fs) auto
  then show "next_field p = Some (hd fs, advance p (field_text (parser_separator p) (hd fs)))"
    using next_field_text r by blast
  show "rest_of (advance p (field_text (parser_separator p) (hd fs))) = texts (parser_separator p) (tl fs) @ post"
    using rest_of_advance r by blast
qed

lemma build_body_loop_texts:
  assumes "rest_of p = texts (parser_separator p) (tl (fs @ [g])) @ post"
    and "list_all (field_wf (parser_separator p)) (fs @ [g])"
    and "list_all (\<lambda>f. ms_contains_tag d (field_tag f) \<and> field_by_tag (dict b) (field_tag f) \<noteq> None
           \<and> ms_get_group d (field_tag f) = None) fs"
    and "\<not> ms_contains_tag d (field_tag g)" "\<not> should_accept_unknown_user_defined b (field_tag g)"
      "is_trailer_tag b (field_tag g)"
  shows "build_body_loop b d bd p (hd (fs @ [g]))
    = Some (Ok (inserts bd fs, g, advance p (texts (parser_separator p) (tl (fs @ [g])))))"
  using assms
proof (induction fs arbitrary: bd p)
  case Nil
  then show ?case by (subst build_body_loop.simps) simp
next
  case (Cons f fs)
  let ?f = "hd (fs @ [g])"
  let ?p = "advance p (field_text (parser_separator p) ?f)"
  note hd = next_field_hd [of "fs @ [g]" p post] and split = texts_hd [of "fs @ [g]" "parser_separator p"]
  have "rest_of ?p = texts (parser_separator ?p) (tl (fs @ [g])) @ post"
    using hd Cons.prems by simp
  then have "build_body_loop b d (part_store_field f bd) ?p ?f
      = Some (Ok (inserts (fm_insert f bd) fs, g, advance ?p (texts (parser_separator p) (tl (fs @ [g])))))"
    using Cons.IH [of ?p "part_store_field f bd"] Cons.prems by (simp add: part_store_field_def)
  then show ?case
    using hd Cons.prems split
    by (subst build_body_loop.simps) (auto simp: get_dict_field_by_tag_def add.assoc simp flip: length_append)
qed

lemma build_trailer_texts:
  assumes "rest_of p = texts (parser_separator p) (tl (fs @ [g])) @ post"
    and "list_all (field_wf (parser_separator p)) (fs @ [g])"
    and "list_all (\<lambda>f. field_tag f \<noteq> 10) fs" "field_tag g = 10"
  shows "build_trailer t p (hd (fs @ [g])) = inserts t fs"
  using assms
proof (induction fs arbitrary: t p)
  case Nil
  then show ?case by (subst build_trailer.simps) simp
next
  case (Cons f fs)
  let ?f = "hd (fs @ [g])"
  let ?p = "advance p (field_text (parser_separator p) ?f)"
  note hd = next_field_hd [of "fs @ [g]" p post] and split = texts_hd [of "fs @ [g]" "parser_separator p"]
  have "rest_of ?p = texts (parser_separator ?p) (tl (fs @ [g])) @ post"
    using hd Cons.prems by simp
  then have "build_trailer (part_store_field f t) ?p ?f = inserts (fm_insert f t) fs"
    using Cons.IH [of ?p "part_store_field f t"] Cons.prems by (simp add: part_store_field_def)
  then show ?case using hd Cons.prems by (subst build_trailer.simps) simp
qed

end
