(* ===== verification/Message_Roundtrip.thy ===== *)
theory Message_Roundtrip
  imports Message_Builder
begin

text \<open>
  Encoding followed by parsing: \<^verbatim>\<open>Message::encode\<close> against \<^verbatim>\<open>MessageBuilder::build\<close> for messages without
  repeating groups that conform to the builder's dictionary.
\<close>

section \<open>Check sums\<close>

lemma checksum_serialize_padded: "checksum_serialize v = show_padded 3 (unat v)"
proof -
  define k where "k = unat v"
  have k: "k < 256" "v = of_nat k" using unsigned_less [of v, where ?'a = nat] by (simp_all add: k_def)
  consider "k < 10" | "10 \<le> k" "k < 100" | "100 \<le> k" by linarith
  then have "show_padded 3 k = [digit_char (k div 100), digit_char (k div 10 mod 10), digit_char (k mod 10)]"
  proof cases
    case 1
    then have "show_nat k = [digit_char k]" by (simp add: show_nat.simps)
    with 1 show ?thesis by (simp add: show_padded_def digit_char_simps numeral_2_eq_2)
  next
    case 2
    then have "k div 10 < 10" by auto
    with 2 have "show_nat k = [digit_char (k div 10), digit_char (k mod 10)]"
      by (subst show_nat.simps, subst show_nat.simps) simp
    with 2 \<open>k div 10 < 10\<close> show ?thesis by (simp add: show_padded_def digit_char_simps)
  next
    case 3
    have "k div 10 div 10 = k div 100" by (simp flip: div_mult2_eq)
    moreover have "\<not> k div 10 < 10" "k div 100 < 10" using 3 k by auto
    ultimately have "show_nat k = [digit_char (k div 100), digit_char (k div 10 mod 10), digit_char (k mod 10)]"
      using 3 by (subst show_nat.simps, subst show_nat.simps, subst show_nat.simps) simp
    then show ?thesis by (simp add: show_padded_def)
  qed
  with k show ?thesis by (simp add: checksum_serialize_digits unat_of_nat)
qed

lemma checksum_deserialize_padded [simp]: "checksum_deserialize (show_padded 3 (unat v)) = Ok v"
  using checksum_roundtrip_aux [of v] by (simp add: checksum_serialize_padded)

lemma u64_deserialize_show [simp]: "n < 2 ^ 64 \<Longrightarrow> u64_deserialize (show_nat n) = Ok (of_nat n)"
proof -
  assume "n < 2 ^ 64"
  then have "unat (of_nat n :: u64) = n" by (simp add: unat_of_nat)
  then show ?thesis using u64_field.roundtrip [of "of_nat n"] by (simp add: u64_serialize_def)
qed

section \<open>Integrity of an encoded message\<close>

lemma field_text_tags:
  "field_text sep (Field 8 v) = field_bytes sep ''8'' v" "field_text sep (Field 9 v) = field_bytes sep ''9'' v"
  "field_text sep (Field 10 v) = field_bytes sep ''10'' v" "field_text sep (Field 35 v) = field_bytes sep ''35'' v"
  by (simp_all add: field_text_def)

lemma verify_integrity_encoded:
  fixes v mt rest' sep cs
  defines "f35 \<equiv> Field 35 mt"
  defines "rest \<equiv> field_text sep f35 @ rest'"
  defines "f8 \<equiv> Field 8 v" and "f9 \<equiv> Field 9 (show_nat (length rest))"
  defines "pre \<equiv> field_text sep f8 @ field_text sep f9 @ rest"
  defines "f10 \<equiv> Field 10 cs"
  assumes cs: "length cs = 3" "\<And>c. checksum_deserialize cs = Ok c \<Longrightarrow> c = checksum_compute pre"
    and wf: "field_wf sep f8" "field_wf sep f9" "field_wf sep f35" "field_wf sep f10"
    and len: "length (pre @ field_text sep f10) < 2 ^ 64"
  defines "p0 \<equiv> \<lparr>position = 0, raw_data = pre @ field_text sep f10, parser_separator = sep\<rparr>"
  shows "verify_integrity p0
    = Ok (inserts fm_default [f8, f9, f35], fm_insert f10 fm_default, advance p0 (texts sep [f8, f9, f35]))"
proof -
  define p1 where "p1 = advance p0 (field_text sep f8)"
  define p2 where "p2 = advance p1 (field_text sep f9)"
  define p3 where "p3 = advance p2 (field_text sep f35)"
  have r0: "rest_of p0 = field_text (parser_separator p0) f8 @ field_text sep f9 @ rest @ field_text sep f10"
    by (simp add: p0_def pre_def)
  have s: "parser_separator p0 = sep" "parser_separator p1 = sep" "parser_separator p2 = sep"
    "raw_data p2 = pre @ field_text sep f10" "position p2 = length (field_text sep f8) + length (field_text sep f9)"
    by (simp_all add: p0_def p1_def p2_def)
  have n0: "next_field p0 = Some (f8, p1)" using next_field_text [OF r0] wf by (simp add: s p1_def)
  have r1: "rest_of p1 = field_text (parser_separator p1) f9 @ rest @ field_text sep f10"
    using rest_of_advance [OF r0] by (simp add: p1_def s)
  have n1: "next_field p1 = Some (f9, p2)" using next_field_text [OF r1] wf by (simp add: s p2_def)
  have r2: "rest_of p2 = field_text (parser_separator p2) f35 @ rest' @ field_text sep f10"
    using rest_of_advance [OF r1] by (simp add: p2_def s rest_def)
  have n2: "next_field p2 = Some (f35, p3)" using next_field_text [OF r2] wf by (simp add: s p3_def)
  have l10: "length (field_text sep f10) = 7" using cs by (simp add: f10_def field_text_tags)
  have bl: "length rest < 2 ^ 64" "u64_deserialize (show_nat (length rest)) = Ok (of_nat (length rest))"
    "unat (of_nat (length rest) :: u64) = length rest"
    using len by (simp_all add: pre_def unat_of_nat)
  have e1: "wrap_usize (position p2 + length rest) = length pre"
    using len by (simp add: s pre_def)
  have e2: "length (raw_data p2) = wrap_usize (position p2 + length rest + CHECKSUM_LENGTH)"
    using len l10 by (simp add: s pre_def CHECKSUM_LENGTH_def)
  have c: "parse_checksum p2 (length pre) = Ok f10"
    using parse_field_at_text [of "length pre" p2 f10 "[]"] wf by (simp add: parse_checksum_def s f10_def)
  have "part_get u64_deserialize BODY_LENGTH (fm_insert f9 (fm_insert f8 fm_default)) = Ok (of_nat (length rest))"
    by (simp add: part_get_def part_get_raw_def f9_def bl)
  moreover have "part_get checksum_deserialize CHECK_SUM (fm_insert f10 fm_default) = Ok k \<Longrightarrow> k = checksum_compute pre" for k
    using cs(2) by (auto simp: part_get_def part_get_raw_def f10_def split: outcome.splits)
  moreover have "p3 = advance p0 (texts sep [f8, f9, f35])" by (simp add: p3_def p2_def p1_def add.assoc)
  ultimately show ?thesis
    using e1 e2 c n0 n1 n2
    by (simp add: verify_integrity_def parse_begin_string_def parse_body_length_def parse_message_type_def
        parse_leading_field_def Let_def bl s split: outcome.split)
      (simp add: f8_def f9_def f35_def)
qed

section \<open>The fields in the order they are written\<close>

definition written_fields :: "tag list \<Rightarrow> field_map \<Rightarrow> field list" where
  "written_fields pre m = List.map_filter (map_of (fm_fields m)) pre
     @ map snd (filter (\<lambda>(t, _). t \<notin> set pre) (fm_fields m))"

abbreviation by_tag :: "field list \<Rightarrow> tag \<Rightarrow> field option" where
  "by_tag fs \<equiv> map_of (map (\<lambda>f. (field_tag f, f)) fs)"

lemma fm_write_group_free:
  assumes "fm_groups m = []"
  shows "fm_write sep pre m = texts sep (written_fields pre m)"
proof (cases m)
  case (FieldMap fs gm)
  have W: "write_field sep [] f = field_text sep f" for f by (simp add: write_field_def field_text_def)
  have pre: "concat (map (\<lambda>t. case map_of fs t of None \<Rightarrow> [] | Some f \<Rightarrow> write_field sep [] f) ts)
      = texts sep (List.map_filter (map_of fs) ts)" for ts
    by (induction ts) (auto simp: W map_filter_simps split: option.split)
  have rest: "concat (map (\<lambda>(t, f). if t \<in> set pre then [] else write_field sep [] f) es)
      = texts sep (map snd (filter (\<lambda>(t, _). t \<notin> set pre) es))" for es
    by (induction es) (auto simp: W)
  from assms show ?thesis
    by (simp add: FieldMap fm_write_fields written_fields_def pre rest del: map_map)
qed

lemma set_written_fields: "fm_ok m \<Longrightarrow> set (written_fields pre m) = snd ` set (fm_fields m)"
proof (intro set_eqI iffI)
  fix f
  assume ok: "fm_ok m"
  show "f \<in> set (written_fields pre m) \<Longrightarrow> f \<in> snd ` set (fm_fields m)"
    by (force simp: written_fields_def map_filter_def dest: map_of_SomeD)
  assume "f \<in> snd ` set (fm_fields m)"
  then obtain t where t: "(t, f) \<in> set (fm_fields m)" by auto
  then have "map_of (fm_fields m) t = Some f" using fm_okD(1) [OF ok] by simp
  with t show "f \<in> set (written_fields pre m)"
    by (cases "t \<in> set pre") (force simp: written_fields_def map_filter_def)+
qed

lemma distinct_written_fields:
  assumes "fm_ok m" "distinct pre"
  shows "distinct (map field_tag (written_fields pre m))"
proof -
  have tag: "map_of (fm_fields m) t = Some f \<Longrightarrow> field_tag f = t" for t f
    using fm_okD(2) [OF assms(1)] map_of_SomeD by (force simp: list_all_iff)
  have pre: "map field_tag (List.map_filter (map_of (fm_fields m)) ts)
      = filter (\<lambda>t. map_of (fm_fields m) t \<noteq> None) ts" for ts
    by (induction ts) (auto simp: map_filter_simps tag split: option.split)
  have "map field_tag (map snd (filter Q (fm_fields m))) = map fst (filter Q (fm_fields m))" for Q
    using fm_okD(2) [OF assms(1)] by (auto simp: list_all_iff)
  then show ?thesis
    using assms fm_okD(1) [OF assms(1)]
    by (auto simp: written_fields_def pre distinct_map_filter simp del: map_map)
qed

lemma by_tag_written_fields:
  assumes "fm_ok m" "distinct pre"
  shows "by_tag (written_fields pre m) = map_of (fm_fields m)"
proof -
  have "set (map (\<lambda>f. (field_tag f, f)) (written_fields pre m)) = set (fm_fields m)"
    using fm_okD(2) [OF assms(1)] by (force simp: set_written_fields [OF assms(1)] list_all_iff image_iff)
  then show ?thesis
    using distinct_written_fields [OF assms] fm_okD(1) [OF assms(1)]
    by (intro map_of_inject_set [THEN iffD2]) (simp_all add: comp_def)
qed

lemma get_raw_inserts:
  "distinct (map field_tag fs) \<Longrightarrow>
   fm_get_raw (inserts m fs) t = (case by_tag fs t of None \<Rightarrow> fm_get_raw m t | Some f \<Rightarrow> Some (field_data f))"
proof (induction fs arbitrary: m)
  case (Cons f fs)
  have "by_tag fs (field_tag f) = None" using Cons.prems by (auto simp: map_of_eq_None_iff)
  with Cons show ?case by (auto split: option.split)
qed simp

section \<open>Conforming messages\<close>

text \<open>
  A message the builder's dictionary admits: no repeating groups, the header fields are header tags,
  the body fields belong to the message type, the trailer fields are trailer tags, and no value
  contains the separator.
\<close>

definition conforms :: "message_builder \<Rightarrow> message_spec \<Rightarrow> message \<Rightarrow> bool" where
  "conforms b spec m \<longleftrightarrow> message_ok m
     \<and> fm_groups (header m) = [] \<and> fm_groups (body m) = [] \<and> fm_groups (trailer m) = []
     \<and> list_all (\<lambda>(t, f). field_wf (separator (config b)) f) (fm_fields (header m) @ fm_fields (body m) @ fm_fields (trailer m))
     \<and> list_all (\<lambda>(t, _). is_header_tag b t) (fm_fields (header m))
     \<and> list_all (\<lambda>(t, _). \<not> is_header_tag b t \<and> ms_contains_tag spec t \<and> field_by_tag (dict b) t \<noteq> None
          \<and> ms_get_group spec t = None) (fm_fields (body m))
     \<and> list_all (\<lambda>t. \<not> is_header_tag b t \<and> is_trailer_tag b t \<and> \<not> ms_contains_tag spec t
          \<and> \<not> should_accept_unknown_user_defined b t) (10 # map fst (fm_fields (trailer m)))
     \<and> separator (config b) \<noteq> CHR ''='' \<and> \<not> is_ascii_digit (separator (config b))
     \<and> fm_get_raw (header m) 8 \<noteq> None
     \<and> (case fm_get_raw (header m) 35 of
          None \<Rightarrow> False
        | Some mt \<Rightarrow> from_utf8 mt \<noteq> None \<and> message_by_msgtype (dict b) mt \<noteq> None
            \<and> map_of (message_specification b) mt = Some spec)"

lemma written_fields_header:
  assumes "fm_ok h" "fm_get_raw h 8 = Some v" "fm_get_raw h 9 = Some n" "fm_get_raw h 35 = Some mt"
  obtains hs where "written_fields [8, 9, 35] h = Field 8 v # Field 9 n # Field 35 mt # hs"
  using assms by (simp add: written_fields_def map_filter_simps get_raw_lookup)

lemma get_raw_by_tag:
  assumes "fm_ok m" "distinct pre"
  shows "fm_get_raw m t = map_option field_data (by_tag (written_fields pre m) t)"
  by (simp add: fm_get_raw_def by_tag_written_fields [OF assms])

lemma list_all_written_fields:
  "fm_ok m \<Longrightarrow> list_all (\<lambda>(t, f). P t f) (fm_fields m) \<Longrightarrow> list_all (\<lambda>f. P (field_tag f) f) (written_fields pre m)"
  using fm_okD(2) by (fastforce simp: list_all_iff set_written_fields)

lemma list_all_part_set:
  "list_all Q (fm_fields m) \<Longrightarrow> Q (def_tag d, Field (def_tag d) v) \<Longrightarrow> list_all Q (fm_fields (part_set d v m))"
  by (simp add: part_set_def part_store_field_def fm_insert_def list_all_im_insert)

lemma list_all_part_pop: "list_all Q (fm_fields m) \<Longrightarrow> list_all Q (fm_fields (snd (part_pop d m)))"
  by (simp add: part_pop_def list_all_im_remove)

text \<open>Parsing the concatenation of a header, a body and a trailer that the dictionary admits.\<close>

definition admitted ::
    "message_builder \<Rightarrow> message_spec \<Rightarrow> bytes \<Rightarrow> field list \<Rightarrow> field list \<Rightarrow> field list \<Rightarrow> field list \<Rightarrow> field \<Rightarrow> bool" where
  "admitted b spec mt h3 hs bs ts f10 \<longleftrightarrow>
     list_all (field_wf (separator (config b))) (h3 @ hs @ bs @ ts @ [f10])
     \<and> list_all (\<lambda>f. is_header_tag b (field_tag f)) hs \<and> distinct (map field_tag (h3 @ hs))
     \<and> list_all (\<lambda>f. \<not> is_header_tag b (field_tag f) \<and> ms_contains_tag spec (field_tag f)
          \<and> field_by_tag (dict b) (field_tag f) \<noteq> None \<and> ms_get_group spec (field_tag f) = None) bs
     \<and> list_all (\<lambda>f. \<not> is_header_tag b (field_tag f) \<and> is_trailer_tag b (field_tag f)
          \<and> \<not> ms_contains_tag spec (field_tag f) \<and> \<not> should_accept_unknown_user_defined b (field_tag f)) (ts @ [f10])
     \<and> field_tag f10 = 10 \<and> list_all (\<lambda>f. field_tag f \<noteq> 10) ts
     \<and> distinct (map field_tag bs) \<and> distinct (map field_tag ts)
     \<and> from_utf8 mt \<noteq> None \<and> message_by_msgtype (dict b) mt \<noteq> None
     \<and> map_of (message_specification b) mt = Some spec"

lemma build_texts:
  fixes b hs bs ts v n mt
  defines "sep \<equiv> separator (config b)"
  defines "h3 \<equiv> [Field 8 v, Field 9 n, Field 35 mt]"
  assumes integrity: "verify_integrity \<lparr>position = 0, raw_data = texts sep (h3 @ hs @ bs @ ts @ [f10]), parser_separator = sep\<rparr>
      = Ok (inserts fm_default h3, fm_insert f10 fm_default,
            advance \<lparr>position = 0, raw_data = texts sep (h3 @ hs @ bs @ ts @ [f10]), parser_separator = sep\<rparr> (texts sep h3))"
    and adm: "admitted b spec mt h3 hs bs ts f10"
  shows "build b (texts sep (h3 @ hs @ bs @ ts @ [f10]))
    = Some (Ok (ValidMsg \<lparr>header = inserts fm_default (h3 @ hs), body = inserts fm_default bs,
        trailer = inserts (fm_insert f10 fm_default) ts\<rparr>))"
proof -
  have wf: "list_all (field_wf sep) (h3 @ hs @ bs @ ts @ [f10])"
    and hs: "list_all (\<lambda>f. is_header_tag b (field_tag f)) hs" "distinct (map field_tag (h3 @ hs))"
    and bs: "list_all (\<lambda>f. \<not> is_header_tag b (field_tag f) \<and> ms_contains_tag spec (field_tag f)
       \<and> field_by_tag (dict b) (field_tag f) \<noteq> None \<and> ms_get_group spec (field_tag f) = None) bs"
    and ts: "list_all (\<lambda>f. \<not> is_header_tag b (field_tag f) \<and> is_trailer_tag b (field_tag f)
       \<and> \<not> ms_contains_tag spec (field_tag f) \<and> \<not> should_accept_unknown_user_defined b (field_tag f)) (ts @ [f10])"
    and ten: "field_tag f10 = 10" "list_all (\<lambda>f. field_tag f \<noteq> 10) ts"
    and mt: "from_utf8 mt \<noteq> None" "message_by_msgtype (dict b) mt \<noteq> None" "map_of (message_specification b) mt = Some spec"
    using adm unfolding admitted_def sep_def by blast+
  define p0 where "p0 = \<lparr>position = 0, raw_data = texts sep (h3 @ hs @ bs @ ts @ [f10]), parser_separator = sep\<rparr>"
  define p1 where "p1 = advance p0 (texts sep h3)"
  define g where "g = hd (bs @ ts @ [f10])"
  define g' where "g' = hd (ts @ [f10])"
  have sep: "parser_separator p0 = sep" "parser_separator p1 = sep" by (simp_all add: p0_def p1_def)
  have split: "bs @ ts @ [f10] = g # tl (bs @ ts @ [f10])" "ts @ [f10] = g' # tl (ts @ [f10])"
    by (simp_all add: g_def g'_def)
  have "rest_of p0 = texts sep h3 @ texts sep (hs @ [g]) @ texts sep (tl (bs @ ts @ [f10]))"
    using arg_cong [OF split(1), of "texts sep"] by (simp add: p0_def)
  then have r1: "rest_of p1 = texts sep (hs @ [g]) @ texts sep (tl (bs @ ts @ [f10]))"
    unfolding p1_def by (rule rest_of_advance)
  define p2 where "p2 = advance p1 (texts sep (hs @ [g]))"
  have sep2: "parser_separator p2 = sep" by (simp add: p2_def sep)
  have r2: "rest_of p2 = texts sep (tl (bs @ ts @ [f10]))"
    unfolding p2_def using r1 by (rule rest_of_advance)
  have "set (bs @ ts @ [f10]) = set (g # tl (bs @ ts @ [f10]))" using split(1) by simp
  then have g: "g \<in> set (bs @ ts @ [f10])" by auto
  have "part_get str_deserialize MSG_TYPE (inserts (inserts fm_default h3) hs) = Ok mt"
  proof -
    have "by_tag hs 35 = None" using hs(2) by (auto simp: h3_def map_of_eq_None_iff)
    then have "fm_get_raw (inserts (inserts fm_default h3) hs) 35 = Some mt"
      using hs(2) by (simp add: get_raw_inserts h3_def)
    then show ?thesis using mt by (auto simp: part_get_def part_get_raw_def str_deserialize_def dest: from_utf8_SomeD)
  qed
  then have msg_type: "part_get str_deserialize MSG_TYPE (inserts fm_default (h3 @ hs)) = Ok mt" by simp
  have header: "build_header b (inserts fm_default h3) p1 = (Ok (g, p2), inserts fm_default (h3 @ hs))"
    using build_header_texts [of p1 hs g "texts sep (tl (bs @ ts @ [f10]))" b "inserts fm_default h3" mt]
      r1 wf hs g bs ts msg_type mt by (auto simp: sep p2_def list_all_iff)
  have "texts sep (tl (bs @ ts @ [f10])) = texts sep (tl (bs @ [g'])) @ texts sep (tl (ts @ [f10]))"
    using arg_cong [OF split(2), of "texts sep"] by (cases bs) auto
  then have r2': "rest_of p2 = texts sep (tl (bs @ [g'])) @ texts sep (tl (ts @ [f10]))" using r2 by simp
  define p3 where "p3 = advance p2 (texts sep (tl (bs @ [g'])))"
  have g': "g' \<in> set (ts @ [f10])" by (cases ts) (simp_all add: g'_def)
  have hd: "g = hd (bs @ [g'])" by (cases bs) (simp_all add: g_def g'_def)
  have body: "build_body_loop b spec fm_default p2 g = Some (Ok (inserts fm_default bs, g', p3))"
    using build_body_loop_texts [of p2 bs g' "texts sep (tl (ts @ [f10]))" spec b fm_default]
      r2' wf bs g' ts by (auto simp: sep2 hd p3_def list_all_iff)
  have "rest_of p3 = texts sep (tl (ts @ [f10]))" unfolding p3_def using r2' by (rule rest_of_advance)
  then have "build_trailer (fm_insert f10 fm_default) p3 g' = inserts (fm_insert f10 fm_default) ts"
    using build_trailer_texts [of p3 ts f10 "[]" "fm_insert f10 fm_default"] wf ten
    by (simp add: p3_def sep2 g'_def list_all_iff)
  moreover have "verify_integrity p0 = Ok (inserts fm_default h3, fm_insert f10 fm_default, p1)"
    using integrity by (simp only: p0_def p1_def)
  ultimately show ?thesis
    unfolding build_def Let_def sep_def [symmetric] p0_def [symmetric]
    using header body msg_type mt
    by (simp add: build_body_def get_message_def_def del: foldl_append field_defs)
qed

lemma show_padded_no_sep: "\<not> is_ascii_digit sep \<Longrightarrow> sep \<notin> set (show_padded w n)"
  using show_padded_digits by blast

lemma show_nat_no_sep: "\<not> is_ascii_digit sep \<Longrightarrow> sep \<notin> set (show_nat n)"
  using show_nat_digits by blast

lemma admitted_written:
  fixes m rest mt v f10 b
  defines "h \<equiv> part_set BODY_LENGTH (show_nat rest) (header m)"
    and "t \<equiv> snd (part_pop CHECK_SUM (trailer m))"
  assumes conf: "conforms b spec m" and mt: "fm_get_raw (header m) 35 = Some mt"
    and hs: "written_fields [8, 9, 35] h = Field 8 v # Field 9 (show_nat rest) # Field 35 mt # hs"
    and f10: "f10 = Field 10 (show_padded 3 k)"
  shows "admitted b spec mt [Field 8 v, Field 9 (show_nat rest), Field 35 mt] hs
    (written_fields [] (body m)) (written_fields [] t) f10"
proof -
  let ?s = "separator (config b)"
  have ok: "fm_ok h" "fm_ok (body m)" "fm_ok t" "fm_ok (trailer m)" and digit: "\<not> is_ascii_digit ?s"
    using conf by (auto simp: conforms_def message_ok_def h_def t_def)
  have dh: "distinct (map field_tag (written_fields [8, 9, 35] h))"
    using ok by (simp add: distinct_written_fields)
  have "list_all (\<lambda>(t, f). field_wf ?s f \<and> (t \<in> {8, 9, 35} \<or> is_header_tag b t)) (fm_fields h)"
    unfolding h_def by (rule list_all_part_set)
      (use conf digit in \<open>auto simp: conforms_def list_all_iff field_wf_def dest!: show_nat_no_sep\<close>)
  from list_all_written_fields [OF ok(1) this, of "[8, 9, 35]"]
  have h: "list_all (\<lambda>f. field_wf ?s f \<and> (field_tag f \<in> {8, 9, 35} \<or> is_header_tag b (field_tag f)))
      (Field 8 v # Field 9 (show_nat rest) # Field 35 mt # hs)"
    by (simp only: hs)
  have "list_all (\<lambda>(t, f). field_wf ?s f \<and> \<not> is_header_tag b t \<and> ms_contains_tag spec t
      \<and> field_by_tag (dict b) t \<noteq> None \<and> ms_get_group spec t = None) (fm_fields (body m))"
    using conf by (auto simp: conforms_def list_all_iff)
  note bd = list_all_written_fields [OF ok(2) this, of "[]"]
  have "list_all (\<lambda>(t, f). field_wf ?s f \<and> \<not> is_header_tag b t \<and> is_trailer_tag b t \<and> \<not> ms_contains_tag spec t
       \<and> \<not> should_accept_unknown_user_defined b t \<and> t \<noteq> 10) (fm_fields t)"
    using conf keys_im_remove [OF fm_okD(1) [OF ok(4)], of 10]
    by (force simp: t_def part_pop_def conforms_def list_all_iff im_remove_filter fm_okD(1) [OF ok(4)])
  note tr = list_all_written_fields [OF ok(3) this, of "[]"]
  show ?thesis
    using conf mt h bd tr dh distinct_written_fields [OF ok(2), of "[]"] distinct_written_fields [OF ok(3), of "[]"] digit
    by (auto simp: admitted_def hs f10 conforms_def list_all_iff field_wf_def dest!: show_padded_no_sep)
qed

lemma get_raw_rebuilt:
  assumes "fm_ok h" "fm_groups h = []" "distinct pre"
  shows "fm_get_raw (inserts fm_default (written_fields pre h)) t = fm_get_raw h t"
  using assms distinct_written_fields [OF assms(1,3)]
  by (auto simp: get_raw_inserts get_raw_by_tag [OF assms(1,3)] split: option.split)

lemma get_raw_rebuilt_trailer:
  assumes "fm_ok t" "fm_get_raw t 10 = None"
  shows "fm_get_raw (inserts (fm_insert (Field 10 s) fm_default) (written_fields [] t)) k
    = fm_get_raw (part_set CHECK_SUM s t) k"
  using assms distinct_written_fields [OF assms(1), of "[]"]
  by (auto simp: get_raw_inserts get_raw_by_tag [OF assms(1), of "[]"] part_set_def part_store_field_def
      split: option.split)

lemma build_encode_aux:
  assumes conf: "conforms b spec m" and sep: "separator c = separator (config b)"
    and len: "length (fst (encode c m)) < 2 ^ 64"
  shows "\<exists>m'. build b (fst (encode c m)) = Some (Ok (ValidMsg m'))
    \<and> (\<forall>t. fm_get_raw (header m') t = fm_get_raw (header (snd (encode c m))) t)
    \<and> (\<forall>t. fm_get_raw (body m') t = fm_get_raw (body (snd (encode c m))) t)
    \<and> (\<forall>t. fm_get_raw (trailer m') t = fm_get_raw (trailer (snd (encode c m))) t)"
proof -
  let ?s = "separator (config b)"
  obtain v mt where v: "fm_get_raw (header m) 8 = Some v" and mt: "fm_get_raw (header m) 35 = Some mt"
    using conf by (auto simp: conforms_def split: option.splits)
  have ok: "message_ok m" "fm_ok (header m)" "fm_ok (body m)" "fm_ok (trailer m)"
    using conf by (auto simp: conforms_def message_ok_def)
  have "part_get_raw BEGIN_STRING (header m) = Some v" by (simp add: part_get_raw_def v)
  from encode_parts [OF ok(1) this, of c] obtain r rest where
    hw: "fm_write ?s [8, 9, 35] (part_set BODY_LENGTH (show_nat (length rest)) (header m))
      = field_bytes ?s ''8'' v @ field_bytes ?s ''9'' (show_nat (length rest)) @ r"
    and rest: "rest = r @ fm_write ?s [] (body m) @ fm_write ?s [] (snd (part_pop CHECK_SUM (trailer m)))"
    and he: "header (snd (encode c m)) = part_set BODY_LENGTH (show_nat (length rest)) (header m)"
    and te: "trailer (snd (encode c m)) = part_set CHECK_SUM (show_padded 3 (unat (checksum_compute
       (field_bytes ?s ''8'' v @ field_bytes ?s ''9'' (show_nat (length rest)) @ rest)))) (snd (part_pop CHECK_SUM (trailer m)))"
    and out: "fst (encode c m) = field_bytes ?s ''8'' v @ field_bytes ?s ''9'' (show_nat (length rest)) @ rest
      @ field_bytes ?s ''10'' (show_padded 3 (unat (checksum_compute
       (field_bytes ?s ''8'' v @ field_bytes ?s ''9'' (show_nat (length rest)) @ rest))))"
    unfolding sep by metis
  define h where "h = part_set BODY_LENGTH (show_nat (length rest)) (header m)"
  define t where "t = snd (part_pop CHECK_SUM (trailer m))"
  define pre where "pre = field_bytes ?s ''8'' v @ field_bytes ?s ''9'' (show_nat (length rest)) @ rest"
  define f10 where "f10 = Field 10 (show_padded 3 (unat (checksum_compute pre)))"
  have okh: "fm_ok h" "fm_groups h = []" "fm_ok t" "fm_groups t = []" "fm_groups (body m) = []" "fm_get_raw t 10 = None"
    using ok conf by (simp_all add: h_def t_def conforms_def)
  have "fm_get_raw h 8 = Some v" "fm_get_raw h 9 = Some (show_nat (length rest))" "fm_get_raw h 35 = Some mt"
    using v mt by (simp_all add: h_def part_set_def part_store_field_def)
  with okh(1) obtain hs where hs: "written_fields [8, 9, 35] h
      = Field 8 v # Field 9 (show_nat (length rest)) # Field 35 mt # hs"
    by (rule written_fields_header)
  let ?bs = "written_fields [] (body m)" and ?ts = "written_fields [] t"
  let ?h3 = "[Field 8 v, Field 9 (show_nat (length rest)), Field 35 mt]"
  have r: "r = field_text ?s (Field 35 mt) @ texts ?s hs"
    using hw [folded h_def] by (simp add: fm_write_group_free okh hs field_text_tags)
  have rest': "rest = field_text ?s (Field 35 mt) @ texts ?s (hs @ ?bs @ ?ts)"
    unfolding rest t_def [symmetric] by (simp add: r fm_write_group_free okh)
  have pre: "pre = field_text ?s (Field 8 v) @ field_text ?s (Field 9 (show_nat (length rest))) @ rest"
    by (simp add: pre_def field_text_tags)
  have out': "fst (encode c m) = pre @ field_text ?s f10"
    by (simp add: out f10_def pre_def field_text_tags)
  then have out'': "fst (encode c m) = texts ?s (?h3 @ hs @ ?bs @ ?ts @ [f10])"
    by (simp add: pre) (simp add: rest')
  have adm: "admitted b spec mt ?h3 hs ?bs ?ts f10"
    unfolding t_def using conf mt hs [unfolded h_def] f10_def by (rule admitted_written)
  then have wf: "field_wf ?s (Field 8 v)" "field_wf ?s (Field 9 (show_nat (length rest)))" "field_wf ?s (Field 35 mt)"
    "field_wf ?s f10" by (simp_all add: admitted_def)
  have cs: "length (show_padded 3 (unat (checksum_compute pre))) = 3"
    "\<And>k. checksum_deserialize (show_padded 3 (unat (checksum_compute pre))) = Ok k \<Longrightarrow> k = checksum_compute pre"
    using length_show_padded3 [of "unat (checksum_compute pre)"] unsigned_less [of "checksum_compute pre", where ?'a = nat]
    by simp_all
  note vi = verify_integrity_encoded [where sep = ?s and v = v and mt = mt and rest' = "texts ?s (hs @ ?bs @ ?ts)",
      folded rest', folded pre, OF cs wf [unfolded f10_def] len [unfolded out' f10_def],
      folded f10_def, folded out']
  have h3: "?h3 @ hs = written_fields [8, 9, 35] h" by (simp add: hs)
  have "build b (fst (encode c m))
    = Some (Ok (ValidMsg \<lparr>header = inserts fm_default (written_fields [8, 9, 35] h),
        body = inserts fm_default ?bs, trailer = inserts (fm_insert f10 fm_default) ?ts\<rparr>))"
    unfolding out'' h3 [symmetric] by (rule build_texts [OF vi [unfolded out''] adm])
  moreover have "trailer (snd (encode c m)) = part_set CHECK_SUM (show_padded 3 (unat (checksum_compute pre))) t"
    by (simp only: te t_def pre_def)
  moreover note get_raw_rebuilt [OF okh(1,2), of "[8, 9, 35]"] get_raw_rebuilt [OF ok(3) okh(5), of "[]"]
    get_raw_rebuilt_trailer [OF okh(3,6)]
  ultimately show ?thesis
    by (simp add: he f10_def del: foldl_append field_defs flip: h_def)
qed

section \<open>Properties\<close>

definition sample_builder :: message_builder where
  "sample_builder = \<lparr>
     dict = \<lparr>version = ''FIX.4.4'', data_types_by_name = [],
       fields_by_tags = map (\<lambda>t. (t, \<lparr>fd_name = show_u32 t, fd_tag = t, fd_data_type_name = ''String'',
         fd_associated_data_tag = None, fd_value_restrictions = None, fd_required = True, fd_description = None\<rparr>))
         [8, 9, 35, 34, 49, 56, 10, 112],
       field_tags_by_name = map (\<lambda>t. (show_u32 t, t)) [8, 9, 35, 34, 49, 56, 10, 112],
       components_by_name = [],
       messages_by_msgtype = [(''0'', \<lparr>md_component_id = 0, md_msg_type = ''0'', md_name = ''Heartbeat'',
         md_layout_items = [LayoutItem False (FieldItem 112)], md_required = True, md_description = []\<rparr>)],
       message_msgtypes_by_name = [(''Heartbeat'', ''0'')]\<rparr>,
     header_tags = [8, 9, 35, 34, 49, 56],
     trailer_tags = [10],
     message_specification = [(''0'', \<lparr>ms_fields = [FieldSpec 112 False], ms_groups = []\<rparr>)],
     config = \<lparr>separator = CHR ''|'', validate_user_defined_fields = True\<rparr>\<rparr>"

definition sample_heartbeat :: message where
  "sample_heartbeat = msg_set (body_field 112) ''X1'' (msg_set (header_field 34) ''7''
     (msg_set (header_field 49) ''A'' (Message_new ''FIX.4.4'' ''0'')))"

text \<open>C2. What is sent can be read. Encoding a message that conforms to the dictionary (no repeating groups)
  and parsing the bytes yields a valid message in which every field of header, body and trailer,
  the computed BodyLength and CheckSum included, has the value it has in the encoded message, and no
  other field is set.\<close>

theorem build_encode_roundtrip:
  assumes "conforms b spec m" and "separator c = separator (config b)"
    and "length (fst (encode c m)) < 2 ^ 64"
  shows "\<exists>m'. build b (fst (encode c m)) = Some (Ok (ValidMsg m'))
    \<and> (\<forall>t. fm_get_raw (header m') t = fm_get_raw (header (snd (encode c m))) t)
    \<and> (\<forall>t. fm_get_raw (body m') t = fm_get_raw (body (snd (encode c m))) t)
    \<and> (\<forall>t. fm_get_raw (trailer m') t = fm_get_raw (trailer (snd (encode c m))) t)"
  using assms by (rule build_encode_aux)

lemma sample_heartbeat_conforms:
  "conforms sample_builder \<lparr>ms_fields = [FieldSpec 112 False], ms_groups = []\<rparr> sample_heartbeat"
  "fst (encode (config sample_builder) sample_heartbeat) = ''8=FIX.4.4|9=22|35=0|49=A|34=7|112=X1|10=215|''"
  by code_simp+

theorem build_encode_roundtrip_witness:
  "\<exists>m'. build sample_builder ''8=FIX.4.4|9=22|35=0|49=A|34=7|112=X1|10=215|'' = Some (Ok (ValidMsg m'))
    \<and> fm_get_raw (body m') 112 = Some ''X1''"
  using build_encode_roundtrip [OF sample_heartbeat_conforms(1) refl] sample_heartbeat_conforms(2)
  by (auto simp: sample_heartbeat_def msg_set_def part_set_def part_store_field_def)

text \<open>C27. The parser is total and its three kinds of answer are exclusive: on every byte string \<open>build\<close> returns,
  whatever the dictionary.\<close>

theorem build_total: "\<exists>!r. build b data = Some r"
  using build_Some by auto


text \<open>A frame as a peer may build it: BeginString, a right BodyLength, MsgType, more bytes and a CheckSum field
  with a value of the peer's choice.\<close>

definition frame_fields :: "bytes \<Rightarrow> bytes \<Rightarrow> char \<Rightarrow> bytes \<Rightarrow> field list" where
  "frame_fields v mt sep rest' =
     [Field 8 v, Field 9 (show_nat (length (field_text sep (Field 35 mt) @ rest'))), Field 35 mt]"

lemma build_frame_panic:
  assumes int: "verify_integrity \<lparr>position = 0, raw_data = data, parser_separator = separator (config b)\<rparr>
      = Ok (h, t, p)"
    and head: "build_header b h p = (Panic, h')"
  shows "build b data = Some Panic"
  using assms by (simp add: build_def)

text \<open>A crash from the wire. Take any frame with a right BodyLength and CheckSum whose MsgType is not valid
  UTF-8 and is followed by a field that is not a header field: it passes \<open>verify_integrity\<close>, and
  \<open>build\<close> panics at the \<open>expect\<close> on the message type (its message says this cannot happen).\<close>

theorem build_panics_on_msg_type:
  fixes b v mt g
  defines "sep \<equiv> separator (config b)"
  defines "pre \<equiv> texts sep (frame_fields v mt sep (field_text sep g)) @ field_text sep g"
  defines "data \<equiv> pre @ field_text sep (Field 10 (checksum_serialize (checksum_compute pre)))"
  assumes mt: "from_utf8 mt = None" and g: "\<not> is_header_tag b (field_tag g)"
    and fields: "list_all (field_wf sep) [Field 8 v, Field 35 mt, g]" and digit: "\<not> is_ascii_digit sep"
    and len: "length data < 2 ^ 64"
  shows "build b data = Some Panic"
proof -
  let ?f9 = "Field 9 (show_nat (length (field_text sep (Field 35 mt) @ field_text sep g)))"
  let ?cs = "checksum_serialize (checksum_compute pre)"
  have pre: "pre = field_text sep (Field 8 v) @ field_text sep ?f9 @ field_text sep (Field 35 mt) @ field_text sep g"
    by (simp add: pre_def frame_fields_def)
  have cs: "length ?cs = 3" "\<And>k. checksum_deserialize ?cs = Ok k \<Longrightarrow> k = checksum_compute pre"
    by (simp_all add: checksum_roundtrip_aux) (simp add: checksum_serialize_def)
  have wf: "field_wf sep (Field 8 v)" "field_wf sep ?f9" "field_wf sep (Field 35 mt)" "field_wf sep (Field 10 ?cs)"
    using fields digit by (simp_all add: field_wf_def show_nat_no_sep show_padded_no_sep checksum_serialize_padded)
  let ?q = "\<lparr>position = 0, raw_data = data, parser_separator = sep\<rparr>"
  let ?p = "advance ?q (texts sep [Field 8 v, ?f9, Field 35 mt])"
  have "verify_integrity ?q
      = Ok (inserts fm_default [Field 8 v, ?f9, Field 35 mt], fm_insert (Field 10 ?cs) fm_default, ?p)"
    using verify_integrity_encoded [where sep = sep and v = v and mt = mt and rest' = "field_text sep g",
        folded pre, OF cs wf len [unfolded data_def]] by (simp only: data_def)
  moreover have "rest_of ?p = field_text sep g @ field_text sep (Field 10 ?cs)"
    by (rule rest_of_advance) (simp add: data_def pre)
  then have "next_field ?p = Some (g, advance ?p (field_text sep g))"
    using next_field_text [of ?p g] fields by simp
  then have "build_header b (inserts fm_default [Field 8 v, ?f9, Field 35 mt]) ?p
      = (Panic, inserts fm_default [Field 8 v, ?f9, Field 35 mt])"
    using mt g by (subst build_header.simps) (simp add: part_get_def part_get_raw_def str_deserialize_def)
  ultimately show ?thesis by (intro build_frame_panic) (simp_all add: sep_def)
qed

theorem build_panics_on_msg_type_witness:
  "build sample_builder (''8=FIX.4.4|9=11|35='' @ [CHR 0xFF] @ ''|112=X|10=181|'') = Some Panic"
proof -
  have sep: "separator (config sample_builder) = CHR ''|''" by code_simp
  have hyps: "from_utf8 [CHR 0xFF] = None" "\<not> is_header_tag sample_builder (field_tag (Field 112 ''X''))"
    "list_all (field_wf (CHR ''|'')) [Field 8 ''FIX.4.4'', Field 35 [CHR 0xFF], Field 112 ''X'']"
    "\<not> is_ascii_digit (CHR ''|'')"
    by code_simp+
  have pre: "texts (CHR ''|'') (frame_fields ''FIX.4.4'' [CHR 0xFF] (CHR ''|'') (field_text (CHR ''|'') (Field 112 ''X'')))
      @ field_text (CHR ''|'') (Field 112 ''X'') = ''8=FIX.4.4|9=11|35='' @ [CHR 0xFF] @ ''|112=X|''"
    "field_text (CHR ''|'') (Field 10 (checksum_serialize (checksum_compute
      (''8=FIX.4.4|9=11|35='' @ [CHR 0xFF] @ ''|112=X|'')))) = ''10=181|''"
    by code_simp+
  show ?thesis
    using build_panics_on_msg_type [of "[CHR 0xFF]" sample_builder "Field 112 ''X''" "''FIX.4.4''",
        unfolded sep pre, OF hyps] by simp
qed

lemma verify_integrity_OkD:
  assumes "verify_integrity p = Ok (h, t, p3)"
  obtains f8 p1 f9 p2 n f10 where
    "next_field p = Some (f8, p1)" "field_tag f8 = 8" "next_field p1 = Some (f9, p2)" "field_tag f9 = 9"
    "u64_deserialize (field_data f9) = Ok n"
    "length (raw_data p2) = wrap_usize (position p2 + unat n + CHECKSUM_LENGTH)"
    "parse_checksum p2 (wrap_usize (position p2 + unat n)) = Ok f10"
    "\<forall>c. checksum_deserialize (field_data f10) = Ok c
       \<longrightarrow> checksum_compute (take (wrap_usize (position p2 + unat n)) (raw_data p2)) = c"
proof -
  obtain f8 p1 where 1: "parse_begin_string p = Ok (f8, p1)"
    using assms by (auto simp: verify_integrity_def split: outcome.splits)
  then obtain f9 p2 where 2: "parse_body_length p1 = Ok (f9, p2)"
    using assms by (auto simp: verify_integrity_def split: outcome.splits)
  have n: "next_field p = Some (f8, p1)" "field_tag f8 = 8" "next_field p1 = Some (f9, p2)" "field_tag f9 = 9"
    using 1 2 by (auto simp: parse_begin_string_def parse_body_length_def parse_leading_field_def
        split: option.splits if_splits)
  then have g: "part_get u64_deserialize BODY_LENGTH (fm_insert f9 (fm_insert f8 fm_default))
      = (case u64_deserialize (field_data f9) of Ok v \<Rightarrow> Ok v | Err e \<Rightarrow> Err (Invalid e) | Panic \<Rightarrow> Panic)"
    by (simp add: part_get_def part_get_raw_def)
  obtain k where k: "u64_deserialize (field_data f9) = Ok k"
    "length (raw_data p2) = wrap_usize (position p2 + unat k + CHECKSUM_LENGTH)"
    using assms 1 2 g by (auto simp: verify_integrity_def Let_def split: outcome.splits if_splits)
  obtain f10 where c: "parse_checksum p2 (wrap_usize (position p2 + unat k)) = Ok f10"
    using assms 1 2 g k by (auto simp: verify_integrity_def Let_def split: outcome.splits if_splits)
  then have "field_tag f10 = 10" by (auto simp: parse_checksum_def split: option.splits if_splits)
  then have "part_get checksum_deserialize CHECK_SUM (fm_insert f10 fm_default)
      = (case checksum_deserialize (field_data f10) of Ok v \<Rightarrow> Ok v | Err e \<Rightarrow> Err (Invalid e) | Panic \<Rightarrow> Panic)"
    by (simp add: part_get_def part_get_raw_def)
  then have "checksum_compute (take (wrap_usize (position p2 + unat k)) (raw_data p2)) = v"
    if "checksum_deserialize (field_data f10) = Ok v" for v
    using assms 1 2 g k c that by (auto simp: verify_integrity_def Let_def split: outcome.splits if_splits)
  with n k c show ?thesis using that by blast
qed

text \<open>C15. Soundness of the integrity checks. When \<open>build\<close> answers \<open>Valid\<close> or \<open>Invalid\<close>, the data starts with
  BeginString and BodyLength, has the length that BodyLength announces, ends with a CheckSum
  field, and the sum of the bytes before that field is the one announced, provided its value reads as
  three digits. A CheckSum value that does not read as one is not compared at all.\<close>

theorem build_integrity:
  assumes "build b data = Some (Ok r)" and "into_message r = Some m"
  shows "\<exists>f8 p1 f9 p2 n f10.
    next_field \<lparr>position = 0, raw_data = data, parser_separator = separator (config b)\<rparr> = Some (f8, p1)
    \<and> field_tag f8 = 8 \<and> next_field p1 = Some (f9, p2) \<and> field_tag f9 = 9
    \<and> u64_deserialize (field_data f9) = Ok n
    \<and> length data = wrap_usize (position p2 + unat n + CHECKSUM_LENGTH)
    \<and> parse_checksum p2 (wrap_usize (position p2 + unat n)) = Ok f10
    \<and> (\<forall>c. checksum_deserialize (field_data f10) = Ok c
          \<longrightarrow> checksum_compute (take (wrap_usize (position p2 + unat n)) data) = c)"
proof -
  let ?q = "\<lparr>position = 0, raw_data = data, parser_separator = separator (config b)\<rparr>"
  obtain h t p3 where v: "verify_integrity ?q = Ok (h, t, p3)"
  proof (cases "verify_integrity ?q")
    case (Ok x)
    with that show ?thesis by (cases x) auto
  next
    case (Err e)
    with assms show ?thesis
      by (cases e) (auto simp: build_def into_message_def integrity_error_to_parsed_message_def)
  next
    case Panic
    with assms show ?thesis by (simp add: build_def)
  qed
  obtain f8 p1 f9 p2 n f10 where
    f: "next_field ?q = Some (f8, p1)" "field_tag f8 = 8" "next_field p1 = Some (f9, p2)" "field_tag f9 = 9"
    "u64_deserialize (field_data f9) = Ok n"
    "length (raw_data p2) = wrap_usize (position p2 + unat n + CHECKSUM_LENGTH)"
    "parse_checksum p2 (wrap_usize (position p2 + unat n)) = Ok f10"
    "\<forall>c. checksum_deserialize (field_data f10) = Ok c
       \<longrightarrow> checksum_compute (take (wrap_usize (position p2 + unat n)) (raw_data p2)) = c"
    by (rule verify_integrity_OkD [OF v])
  have "raw_data p2 = data" using next_field_progress(2) [OF f(1)] next_field_progress(2) [OF f(3)] by simp
  with f show ?thesis by metis
qed

theorem build_integrity_witness:
  "\<exists>f8 p1 f9 p2 n f10.
    next_field \<lparr>position = 0, raw_data = ''8=FIX.4.4|9=22|35=0|49=A|34=7|112=X1|10=215|'',
      parser_separator = separator (config sample_builder)\<rparr> = Some (f8, p1)
    \<and> field_tag f8 = 8 \<and> next_field p1 = Some (f9, p2) \<and> field_tag f9 = 9
    \<and> u64_deserialize (field_data f9) = Ok n
    \<and> length ''8=FIX.4.4|9=22|35=0|49=A|34=7|112=X1|10=215|'' = wrap_usize (position p2 + unat n + CHECKSUM_LENGTH)
    \<and> parse_checksum p2 (wrap_usize (position p2 + unat n)) = Ok f10
    \<and> (\<forall>c. checksum_deserialize (field_data f10) = Ok c
          \<longrightarrow> checksum_compute (take (wrap_usize (position p2 + unat n))
                ''8=FIX.4.4|9=22|35=0|49=A|34=7|112=X1|10=215|'') = c)"
proof -
  obtain m' where "build sample_builder ''8=FIX.4.4|9=22|35=0|49=A|34=7|112=X1|10=215|'' = Some (Ok (ValidMsg m'))"
    using build_encode_aux [OF sample_heartbeat_conforms(1) refl] sample_heartbeat_conforms(2) by auto
  then show ?thesis by (rule build_integrity) (simp add: into_message_def)
qed

text \<open>The gap in those checks. A frame with a right BodyLength whose CheckSum value is three bytes
  that do not read as a check sum (letters, say) passes \<open>verify_integrity\<close> whatever its content.\<close>

theorem unreadable_checksum_accepted:
  fixes v mt rest sep cs
  defines "pre \<equiv> texts sep (frame_fields v mt sep rest) @ rest"
  assumes "length cs = 3" and "\<And>c. checksum_deserialize cs \<noteq> Ok c"
    and "list_all (field_wf sep) [Field 8 v, Field 35 mt, Field 10 cs]" and "\<not> is_ascii_digit sep"
    and "length (pre @ field_text sep (Field 10 cs)) < 2 ^ 64"
  shows "\<exists>h t p. verify_integrity
      \<lparr>position = 0, raw_data = pre @ field_text sep (Field 10 cs), parser_separator = sep\<rparr> = Ok (h, t, p)"
proof -
  have pre: "pre = field_text sep (Field 8 v)
      @ field_text sep (Field 9 (show_nat (length (field_text sep (Field 35 mt) @ rest))))
      @ field_text sep (Field 35 mt) @ rest"
    by (simp add: pre_def frame_fields_def)
  show ?thesis
    using verify_integrity_encoded [where sep = sep and v = v and mt = mt and rest' = rest and cs = cs, folded pre] assms
    by (auto simp: field_wf_def show_nat_no_sep)
qed

theorem unreadable_checksum_accepted_witness:
  "\<exists>h t p. verify_integrity \<lparr>position = 0, raw_data = ''8=FIX.4.4|9=11|35=D|112=X|10=abc|'',
     parser_separator = CHR ''|''\<rparr> = Ok (h, t, p)"
proof -
  have hyps: "length ''abc'' = 3" "\<And>c. checksum_deserialize ''abc'' \<noteq> Ok c"
    "list_all (field_wf (CHR ''|'')) [Field 8 ''FIX.4.4'', Field 35 ''D'', Field 10 ''abc'']"
    "\<not> is_ascii_digit (CHR ''|'')"
    by (simp_all add: checksum_deserialize_def field_wf_def is_ascii_digit_def)
  have data: "(texts (CHR ''|'') (frame_fields ''FIX.4.4'' ''D'' (CHR ''|'') ''112=X|'') @ ''112=X|'')
      @ field_text (CHR ''|'') (Field 10 ''abc'') = ''8=FIX.4.4|9=11|35=D|112=X|10=abc|''"
    by code_simp
  show ?thesis
    using unreadable_checksum_accepted [OF hyps, of "''112=X|''", unfolded data] by simp
qed

end
