(* ===== verification/Store.thy ===== *)
theory Store
  imports Prelude
begin

text \<open>
  The message store interface of \<^verbatim>\<open>hotfix-store/src/lib.rs\<close> and its in-memory implementation. The trait
  \<open>MessageStore\<close> is the record \<open>message_store\<close> of its operations on a state type; what the session relies
  on is the locale \<open>store_spec\<close>, stated over an abstract store: two counters, a finite map from sequence
  numbers to messages and a creation time. The file store of the next theory implements the same locale.
\<close>

section \<open>Interface\<close>

text \<open>A point in time, as \<open>DateTime<Utc>\<close>.\<close>

type_synonym utc = int

datatype store_error =
    PersistMessage u64
  | RetrieveMessages usize usize
  | UpdateSequenceNumber
  | Reset
  | Initialization
  | Cleanup

record 's message_store =
  store_add :: "u64 \<Rightarrow> bytes \<Rightarrow> ('s, unit, store_error) comp"
  store_get_slice :: "usize \<Rightarrow> usize \<Rightarrow> 's \<Rightarrow> (bytes list, store_error) outcome"
  next_sender_seq_number :: "'s \<Rightarrow> u64"
  next_target_seq_number :: "'s \<Rightarrow> u64"
  increment_sender_seq_number :: "('s, unit, store_error) comp"
  increment_target_seq_number :: "('s, unit, store_error) comp"
  set_target_seq_number :: "u64 \<Rightarrow> ('s, unit, store_error) comp"
  store_reset :: "utc \<Rightarrow> ('s, unit, store_error) comp"
  creation_time :: "'s \<Rightarrow> utc"

text \<open>The abstract store.\<close>

record abs_store =
  abs_sender :: u64
  abs_target :: u64
  abs_created :: utc
  abs_messages :: "u64 \<rightharpoonup> bytes"

text \<open>\<^verbatim>\<open>Vec::with_capacity(n)\<close> for a vector of \<open>Vec<u8>\<close> (24 bytes each) panics when the bytes exceed \<open>isize::MAX\<close>.\<close>

definition capacity_ok :: "usize \<Rightarrow> bool" where
  "capacity_ok n \<longleftrightarrow> unat n * 24 \<le> 2 ^ 63 - 1"

text \<open>The sequence numbers \<^verbatim>\<open>begin..=end\<close>.\<close>

definition seq_range :: "usize \<Rightarrow> usize \<Rightarrow> u64 list" where
  "seq_range b e = map of_nat [unat b..<Suc (unat e)]"

definition slice_of :: "(u64 \<rightharpoonup> bytes) \<Rightarrow> usize \<Rightarrow> usize \<Rightarrow> bytes list" where
  "slice_of ms b e = List.map_filter ms (seq_range b e)"

section \<open>The contract\<close>

locale store_spec =
  fixes ops :: "'s message_store"
    and abs :: "'s \<Rightarrow> abs_store"
    and invar :: "'s \<Rightarrow> bool"
    and room :: "bytes \<Rightarrow> 's \<Rightarrow> bool"
  assumes add_spec: "invar s \<Longrightarrow> room m s \<Longrightarrow> \<exists>s'. store_add ops n m s = (Ok (), s') \<and> invar s'
      \<and> abs s' = (abs s)\<lparr>abs_messages := (abs_messages (abs s))(n \<mapsto> m)\<rparr>"
    and get_slice_spec: "invar s \<Longrightarrow> capacity_ok (e - b + 1) \<Longrightarrow>
      store_get_slice ops b e s = Ok (slice_of (abs_messages (abs s)) b e)"
    and next_sender_spec: "invar s \<Longrightarrow> next_sender_seq_number ops s = abs_sender (abs s) + 1"
    and next_target_spec: "invar s \<Longrightarrow> next_target_seq_number ops s = abs_target (abs s) + 1"
    and inc_sender_spec: "invar s \<Longrightarrow> \<exists>s'. increment_sender_seq_number ops s = (Ok (), s') \<and> invar s'
      \<and> abs s' = (abs s)\<lparr>abs_sender := abs_sender (abs s) + 1\<rparr>"
    and inc_target_spec: "invar s \<Longrightarrow> \<exists>s'. increment_target_seq_number ops s = (Ok (), s') \<and> invar s'
      \<and> abs s' = (abs s)\<lparr>abs_target := abs_target (abs s) + 1\<rparr>"
    and set_target_spec: "invar s \<Longrightarrow> \<exists>s'. set_target_seq_number ops n s = (Ok (), s') \<and> invar s'
      \<and> abs s' = (abs s)\<lparr>abs_target := n\<rparr>"
    and reset_spec: "invar s \<Longrightarrow> \<exists>s'. store_reset ops now s = (Ok (), s') \<and> invar s'
      \<and> abs s' = \<lparr>abs_sender = 0, abs_target = 0, abs_created = now, abs_messages = Map.empty\<rparr>"
    and creation_spec: "invar s \<Longrightarrow> creation_time ops s = abs_created (abs s)"
begin

text \<open>A message that has been added is found again by its number, and only the last one is.\<close>

lemma add_then_slice:
  assumes "invar s" "room m s" "store_add ops n m s = (Ok (), s')"
  shows "store_get_slice ops n n s' = Ok [m]"
proof -
  have "invar s'" "abs s' = (abs s)\<lparr>abs_messages := (abs_messages (abs s))(n \<mapsto> m)\<rparr>"
    using add_spec [OF assms(1,2), of n] assms(3) by auto
  moreover have "capacity_ok (n - n + 1)" by (simp add: capacity_ok_def)
  ultimately show ?thesis
    using get_slice_spec [of s' n n] by (simp add: slice_of_def seq_range_def map_filter_def)
qed

text \<open>The sender counter names the next message to be sent: storing a message under it and
  incrementing leaves every number below it as it was.\<close>

lemma persist_next:
  assumes "invar s" "room m s"
    and "store_add ops (next_sender_seq_number ops s) m s = (Ok (), s1)"
    and "increment_sender_seq_number ops s1 = (Ok (), s2)"
  shows "invar s2" "next_sender_seq_number ops s2 = next_sender_seq_number ops s + 1"
    "next_target_seq_number ops s2 = next_target_seq_number ops s"
    "abs_messages (abs s2) = (abs_messages (abs s))(next_sender_seq_number ops s \<mapsto> m)"
  using add_spec [OF assms(1,2), of "next_sender_seq_number ops s"] inc_sender_spec [of s1] assms
  by (auto simp: next_sender_spec next_target_spec)

end

section \<open>Sequences of operations\<close>

text \<open>The calls a session makes that change a store, and their effect on the abstract store.\<close>

datatype store_op =
    Add u64 bytes
  | IncrementSender
  | IncrementTarget
  | SetTarget u64
  | ResetAt utc

definition apply_op :: "'s message_store \<Rightarrow> store_op \<Rightarrow> ('s, unit, store_error) comp" where
  "apply_op ops c = (case c of
      Add n m \<Rightarrow> store_add ops n m
    | IncrementSender \<Rightarrow> increment_sender_seq_number ops
    | IncrementTarget \<Rightarrow> increment_target_seq_number ops
    | SetTarget n \<Rightarrow> set_target_seq_number ops n
    | ResetAt now \<Rightarrow> store_reset ops now)"

fun run_ops :: "'s message_store \<Rightarrow> store_op list \<Rightarrow> ('s, unit, store_error) comp" where
  "run_ops ops [] = ret ()"
| "run_ops ops (c # cs) = bind_comp (apply_op ops c) (\<lambda>_. run_ops ops cs)"

definition abs_op :: "store_op \<Rightarrow> abs_store \<Rightarrow> abs_store" where
  "abs_op c a = (case c of
      Add n m \<Rightarrow> a\<lparr>abs_messages := (abs_messages a)(n \<mapsto> m)\<rparr>
    | IncrementSender \<Rightarrow> a\<lparr>abs_sender := abs_sender a + 1\<rparr>
    | IncrementTarget \<Rightarrow> a\<lparr>abs_target := abs_target a + 1\<rparr>
    | SetTarget n \<Rightarrow> a\<lparr>abs_target := n\<rparr>
    | ResetAt now \<Rightarrow> \<lparr>abs_sender = 0, abs_target = 0, abs_created = now, abs_messages = Map.empty\<rparr>)"

context store_spec
begin

lemma apply_op_spec:
  assumes "invar s" and "\<And>n m. c = Add n m \<Longrightarrow> room m s"
  shows "\<exists>s'. apply_op ops c s = (Ok (), s') \<and> invar s' \<and> abs s' = abs_op c (abs s)"
  using assms add_spec inc_sender_spec inc_target_spec set_target_spec reset_spec
  by (cases c) (simp_all add: apply_op_def abs_op_def)

end

section \<open>The in-memory store\<close>

record memory_store =
  mem_sender_seq_number :: u64
  mem_target_seq_number :: u64
  mem_creation_time :: utc
  mem_messages :: "u64 \<rightharpoonup> bytes"

definition mem_default :: "utc \<Rightarrow> memory_store" where
  "mem_default now = \<lparr>mem_sender_seq_number = 0, mem_target_seq_number = 0, mem_creation_time = now,
     mem_messages = Map.empty\<rparr>"

definition mem_add :: "u64 \<Rightarrow> bytes \<Rightarrow> (memory_store, unit, store_error) comp" where
  "mem_add n m s = (Ok (), s\<lparr>mem_messages := (mem_messages s)(n \<mapsto> m)\<rparr>)"

definition mem_get_slice :: "usize \<Rightarrow> usize \<Rightarrow> memory_store \<Rightarrow> (bytes list, store_error) outcome" where
  "mem_get_slice b e s =
     (if \<not> capacity_ok (e - b + 1) then Panic else Ok (slice_of (mem_messages s) b e))"

definition mem_next_sender_seq_number :: "memory_store \<Rightarrow> u64" where
  "mem_next_sender_seq_number s = mem_sender_seq_number s + 1"

definition mem_next_target_seq_number :: "memory_store \<Rightarrow> u64" where
  "mem_next_target_seq_number s = mem_target_seq_number s + 1"

definition mem_increment_sender_seq_number :: "(memory_store, unit, store_error) comp" where
  "mem_increment_sender_seq_number s = (Ok (), s\<lparr>mem_sender_seq_number := mem_sender_seq_number s + 1\<rparr>)"

definition mem_increment_target_seq_number :: "(memory_store, unit, store_error) comp" where
  "mem_increment_target_seq_number s = (Ok (), s\<lparr>mem_target_seq_number := mem_target_seq_number s + 1\<rparr>)"

definition mem_set_target_seq_number :: "u64 \<Rightarrow> (memory_store, unit, store_error) comp" where
  "mem_set_target_seq_number n s = (Ok (), s\<lparr>mem_target_seq_number := n\<rparr>)"

definition mem_reset :: "utc \<Rightarrow> (memory_store, unit, store_error) comp" where
  "mem_reset now s = (Ok (), s\<lparr>mem_sender_seq_number := 0, mem_target_seq_number := 0,
     mem_messages := Map.empty, mem_creation_time := now\<rparr>)"

definition InMemoryMessageStore :: "memory_store message_store" where
  "InMemoryMessageStore = \<lparr>store_add = mem_add, store_get_slice = mem_get_slice,
     next_sender_seq_number = mem_next_sender_seq_number, next_target_seq_number = mem_next_target_seq_number,
     increment_sender_seq_number = mem_increment_sender_seq_number,
     increment_target_seq_number = mem_increment_target_seq_number,
     set_target_seq_number = mem_set_target_seq_number, store_reset = mem_reset,
     creation_time = mem_creation_time\<rparr>"

lemmas mem_defs = InMemoryMessageStore_def mem_add_def mem_get_slice_def mem_next_sender_seq_number_def
  mem_next_target_seq_number_def mem_increment_sender_seq_number_def mem_increment_target_seq_number_def
  mem_set_target_seq_number_def mem_reset_def

definition mem_abs :: "memory_store \<Rightarrow> abs_store" where
  "mem_abs s = \<lparr>abs_sender = mem_sender_seq_number s, abs_target = mem_target_seq_number s,
     abs_created = mem_creation_time s, abs_messages = mem_messages s\<rparr>"

interpretation mem: store_spec InMemoryMessageStore mem_abs "\<lambda>_. True" "\<lambda>_ _. True"
  by standard (simp_all add: mem_defs mem_abs_def)

section \<open>Properties\<close>

lemma len64: "LENGTH(64) = 64"
  by simp

lemma backwards_capacity:
  assumes "unat e + 1 < unat b" "unat b - unat e < 2 ^ 63"
  shows "\<not> capacity_ok (e - b + 1)"
proof -
  define d where "d = unat b - unat e - 1"
  have d: "d < 2 ^ 63" "0 < d" using assms by (auto simp: d_def)
  have "unat e + 1 + d = unat b" using assms by (simp add: d_def)
  then have "(of_nat (unat e + 1 + d) :: usize) = of_nat (unat b)" by simp
  then have b: "b = e + 1 + of_nat d" by (simp add: algebra_simps)
  have "(of_nat (2 ^ 64 - d) :: usize) = of_nat (2 ^ 64) - of_nat d" using d by (intro of_nat_diff) simp
  then have "e - b + 1 = of_nat (2 ^ 64 - d)" by (simp add: b)
  then have "unat (e - b + 1) = (2 ^ 64 - d) mod 2 ^ 64" by (simp only: unat_of_nat len64)
  then have "unat (e - b + 1) = 2 ^ 64 - d" using d by simp
  with d show ?thesis by (simp add: capacity_ok_def)
qed

text \<open>Asking for a range of messages that begins more than one past its end is not answered with an empty
  list: the capacity computation \<^verbatim>\<open>end - begin + 1\<close> wraps and the store panics, in every state.\<close>

theorem get_slice_backwards_panics:
  assumes "unat e + 1 < unat b" and "unat b - unat e < 2 ^ 63"
  shows "mem_get_slice b e s = Panic"
  using backwards_capacity [OF assms] by (simp add: mem_get_slice_def)

theorem get_slice_backwards_panics_witness: "mem_get_slice 5 3 (mem_default 0) = Panic"
  using get_slice_backwards_panics [of 3 5] by simp

text \<open>The in-memory store keeps what it is given: a message added under the next sender number, followed by
  the increment, can be read back under that number, moves the sender counter by one, and changes no other
  message and not the target counter.\<close>

theorem memory_store_persists:
  assumes "n = next_sender_seq_number InMemoryMessageStore s"
    and "store_add InMemoryMessageStore n m s = (Ok (), s1)"
    and "increment_sender_seq_number InMemoryMessageStore s1 = (Ok (), s2)"
  shows "next_sender_seq_number InMemoryMessageStore s2 = n + 1
    \<and> next_target_seq_number InMemoryMessageStore s2 = next_target_seq_number InMemoryMessageStore s
    \<and> store_get_slice InMemoryMessageStore n n s2 = Ok [m]
    \<and> (\<forall>k. k \<noteq> n \<longrightarrow> mem_messages s2 k = mem_messages s k)"
proof -
  note p = mem.persist_next [OF TrueI TrueI assms(2) [unfolded assms(1)] assms(3)]
  have "mem_messages s2 = (mem_messages s)(n \<mapsto> m)" using p assms by (simp add: mem_abs_def)
  moreover have "store_get_slice InMemoryMessageStore n n s2 = store_get_slice InMemoryMessageStore n n s1"
    using assms(3) by (auto simp: mem_defs)
  ultimately show ?thesis using p assms mem.add_then_slice [OF TrueI TrueI assms(2)] by simp
qed

theorem memory_store_persists_witness:
  "store_get_slice InMemoryMessageStore 1 1
     (snd (increment_sender_seq_number InMemoryMessageStore
        (snd (store_add InMemoryMessageStore 1 ''hello'' (mem_default 0))))) = Ok [''hello'']"
proof -
  have s1: "store_add InMemoryMessageStore 1 ''hello'' (mem_default 0)
      = (Ok (), snd (store_add InMemoryMessageStore 1 ''hello'' (mem_default 0)))"
    by (simp add: InMemoryMessageStore_def mem_add_def)
  have s2: "increment_sender_seq_number InMemoryMessageStore s
      = (Ok (), snd (increment_sender_seq_number InMemoryMessageStore s))" for s
    by (simp add: InMemoryMessageStore_def mem_increment_sender_seq_number_def)
  have n: "1 = next_sender_seq_number InMemoryMessageStore (mem_default 0)"
    by (simp add: InMemoryMessageStore_def mem_next_sender_seq_number_def mem_default_def)
  show ?thesis using memory_store_persists [OF n s1 s2] by (simp only:)
qed

end
