(* ===== verification/File_Store.thy ===== *)
theory File_Store
  imports Store
begin

text \<open>
  The file store, \<^verbatim>\<open>hotfix-store/src/file.rs\<close>. Its directory is the record \<open>disk\<close> of the contents of its four
  files (\<open>None\<close>: the file does not exist); reads and writes of existing files succeed, and the errors
  modelled are those the code itself raises on what it reads. Every buffered write of the code is flushed
  before the operation returns, so the model writes through. How \<open>chrono\<close> prints and reads a time is the
  parameter \<open>chrono\<close>.
\<close>

section \<open>Text\<close>

text \<open>Length in bytes of the white space character at the front, or 0 (\<open>char::is_whitespace\<close> on UTF-8).\<close>

fun whitespace_front :: "nat list \<Rightarrow> nat" where
  "whitespace_front [] = 0"
| "whitespace_front (a # r) =
     (if a = 32 \<or> 9 \<le> a \<and> a \<le> 13 then 1
      else case r of
        [] \<Rightarrow> 0
      | b # r1 \<Rightarrow>
          if a = 0xC2 \<and> (b = 0x85 \<or> b = 0xA0) then 2
          else case r1 of
            [] \<Rightarrow> 0
          | c # _ \<Rightarrow>
              if a = 0xE1 \<and> b = 0x9A \<and> c = 0x80
                \<or> a = 0xE2 \<and> b = 0x80 \<and> (0x80 \<le> c \<and> c \<le> 0x8A \<or> c = 0xA8 \<or> c = 0xA9 \<or> c = 0xAF)
                \<or> a = 0xE2 \<and> b = 0x81 \<and> c = 0x9F
                \<or> a = 0xE3 \<and> b = 0x80 \<and> c = 0x80 then 3 else 0)"

text \<open>The same at the back, on the reversed bytes.\<close>

fun whitespace_back :: "nat list \<Rightarrow> nat" where
  "whitespace_back [] = 0"
| "whitespace_back (c # r) =
     (if whitespace_front [c] = 1 then 1
      else case r of
        [] \<Rightarrow> 0
      | b # r1 \<Rightarrow>
          if whitespace_front [b, c] = 2 then 2
          else case r1 of
            [] \<Rightarrow> 0
          | a # _ \<Rightarrow> if whitespace_front [a, b, c] = 3 then 3 else 0)"

function trim_with :: "(nat list \<Rightarrow> nat) \<Rightarrow> bytes \<Rightarrow> bytes" where
  "trim_with ws s = (if s \<noteq> [] \<and> 0 < ws (map of_char s) then trim_with ws (drop (ws (map of_char s)) s) else s)"
  by pat_completeness auto
termination
  by (relation "measure (\<lambda>(ws, s). length s)") auto

declare trim_with.simps [simp del]

definition str_trim :: "bytes \<Rightarrow> bytes" where
  "str_trim s = rev (trim_with whitespace_back (rev (trim_with whitespace_front s)))"

fun split_on :: "char \<Rightarrow> bytes \<Rightarrow> bytes list" where
  "split_on c [] = [[]]"
| "split_on c (b # bs) = (case split_on c bs of
      [] \<Rightarrow> [[b]]
    | p # ps \<Rightarrow> if b = c then [] # p # ps else (b # p) # ps)"

text \<open>\<open>BufRead::lines\<close>: lines end with a line feed, which is dropped with a carriage return before it.\<close>

definition strip_cr :: "bytes \<Rightarrow> bytes" where
  "strip_cr l = (if l \<noteq> [] \<and> last l = CHR 0x0D then butlast l else l)"

function lines :: "bytes \<Rightarrow> bytes list" where
  "lines s = (if s = [] then []
     else (if CHR 0x0A \<in> set s then strip_cr (takeWhile (\<lambda>c. c \<noteq> CHR 0x0A) s) else s)
       # lines (drop 1 (dropWhile (\<lambda>c. c \<noteq> CHR 0x0A) s)))"
  by pat_completeness auto
termination
proof (relation "measure length")
  fix s :: bytes assume "s \<noteq> []"
  then show "(drop 1 (dropWhile (\<lambda>c. c \<noteq> CHR 0x0A) s), s) \<in> measure length"
    using length_dropWhile_le [of "\<lambda>c. c \<noteq> CHR 0x0A" s] by (cases s) (auto simp: less_Suc_eq_le)
qed simp

declare lines.simps [simp del]

section \<open>State\<close>

record disk =
  body_file :: "bytes option"
  header_file :: "bytes option"
  seqnums_file :: "bytes option"
  session_file :: "bytes option"

datatype message_def = MessageDef (offset: u64) (msg_size: usize)

record file_store =
  fs_disk :: disk
  sender_seq_number :: u64
  target_seq_number :: u64
  fs_creation_time :: utc
  message_index :: "u64 \<rightharpoonup> message_def"
  current_body_offset :: u64

text \<open>\<open>DateTime::to_rfc3339\<close> and \<open>str::parse::<DateTime<Utc>>\<close>.\<close>

record chrono =
  to_rfc3339 :: "utc \<Rightarrow> bytes"
  parse_utc :: "bytes \<Rightarrow> utc option"

datatype io_error = InvalidData string | UnexpectedEof | NotFound

section \<open>Opening\<close>

definition get_or_create_session_time :: "chrono \<Rightarrow> utc \<Rightarrow> (disk, utc, io_error) comp" where
  "get_or_create_session_time ch now d = (case session_file d of
      Some content \<Rightarrow>
        (case from_utf8 content of
           None \<Rightarrow> (Err (InvalidData ''stream did not contain valid UTF-8''), d)
         | Some text \<Rightarrow> (case parse_utc ch (str_trim text) of
             None \<Rightarrow> (Err (InvalidData ''failed to parse session time''), d)
           | Some t \<Rightarrow> (Ok t, d)))
    | None \<Rightarrow> (Ok now, d\<lparr>session_file := Some (to_rfc3339 ch now)\<rparr>))"

definition parse_seqnums :: "bytes \<Rightarrow> (u64 \<times> u64, io_error) outcome" where
  "parse_seqnums content =
     (let parts = map str_trim (split_on (CHR '':'') (str_trim content)) in
      if length parts \<noteq> 2 then Err (InvalidData ''invalid seqnums format'')
      else case parse_u64 (parts ! 0) of
          None \<Rightarrow> Err (InvalidData ''failed to parse sender sequence number'')
        | Some sender \<Rightarrow> (case parse_u64 (parts ! 1) of
            None \<Rightarrow> Err (InvalidData ''failed to parse target sequence number'')
          | Some target \<Rightarrow> Ok (sender, target)))"

definition read_initial_seqnums :: "disk \<Rightarrow> (u64 \<times> u64, io_error) outcome" where
  "read_initial_seqnums d = (case seqnums_file d of
      None \<Rightarrow> Ok (0, 0)
    | Some content \<Rightarrow> (case from_utf8 content of
        None \<Rightarrow> Err (InvalidData ''failed to read seqnums file'')
      | Some text \<Rightarrow> if str_trim text = [] then Ok (0, 0) else parse_seqnums text))"

text \<open>One line of the header file; a line that does not read as three numbers is skipped.\<close>

definition index_line :: "bytes \<Rightarrow> (u64 \<times> message_def) option" where
  "index_line line =
     (case split_on (CHR '','') (str_trim line) of
        [p0, p1, p2] \<Rightarrow>
          (case (parse_u64 p0, parse_u64 p1, parse_u64 p2) of
             (Some seq_num, Some off, Some sz) \<Rightarrow> Some (seq_num, MessageDef off sz)
           | _ \<Rightarrow> None)
      | _ \<Rightarrow> None)"

fun load_lines :: "(u64 \<rightharpoonup> message_def) \<Rightarrow> bytes list \<Rightarrow> (u64 \<rightharpoonup> message_def, io_error) outcome" where
  "load_lines index [] = Ok index"
| "load_lines index (l # ls) = (case from_utf8 l of
      None \<Rightarrow> Err (InvalidData ''stream did not contain valid UTF-8'')
    | Some line \<Rightarrow> (case index_line line of
        None \<Rightarrow> load_lines index ls
      | Some (n, def) \<Rightarrow> load_lines (index(n \<mapsto> def)) ls))"

definition load_message_index :: "disk \<Rightarrow> (u64 \<rightharpoonup> message_def, io_error) outcome" where
  "load_message_index d = (case header_file d of
      None \<Rightarrow> Ok Map.empty
    | Some content \<Rightarrow> load_lines Map.empty (lines content))"

definition create_if_missing :: "bytes option \<Rightarrow> bytes option" where
  "create_if_missing f = (case f of None \<Rightarrow> Some [] | Some c \<Rightarrow> Some c)"

text \<open>\<open>new_inner\<close>: the disk comes back also when opening fails. Opening the sequence number file truncates it.\<close>

definition new_inner :: "chrono \<Rightarrow> utc \<Rightarrow> (disk, file_store, io_error) comp" where
  "new_inner ch now d0 = (case get_or_create_session_time ch now d0 of
      (Err e, d1) \<Rightarrow> (Err e, d1)
    | (Panic, d1) \<Rightarrow> (Panic, d1)
    | (Ok created, d1) \<Rightarrow> (case read_initial_seqnums d1 of
        Err e \<Rightarrow> (Err e, d1)
      | Panic \<Rightarrow> (Panic, d1)
      | Ok (sender, target) \<Rightarrow>
          (let body = create_if_missing (body_file d1);
               d2 = d1\<lparr>body_file := body, header_file := create_if_missing (header_file d1),
                      seqnums_file := Some []\<rparr> in
           case load_message_index d2 of
             Err e \<Rightarrow> (Err e, d2)
           | Panic \<Rightarrow> (Panic, d2)
           | Ok index \<Rightarrow>
               (Ok \<lparr>fs_disk = d2, sender_seq_number = sender, target_seq_number = target,
                    fs_creation_time = created, message_index = index,
                    current_body_offset = of_nat (length (the body))\<rparr>, d2))))"

definition FileStore_new :: "chrono \<Rightarrow> utc \<Rightarrow> (disk, file_store, store_error) comp" where
  "FileStore_new ch now = map_err (\<lambda>_. Initialization) (new_inner ch now)"

section \<open>Operations\<close>

definition seqnums_text :: "u64 \<Rightarrow> u64 \<Rightarrow> bytes" where
  "seqnums_text sender target = show_padded 20 (unat sender) @ '' : '' @ show_padded 20 (unat target)"

definition write_seqnums_with :: "u64 \<Rightarrow> u64 \<Rightarrow> file_store \<Rightarrow> file_store" where
  "write_seqnums_with sender target s =
     s\<lparr>fs_disk := (fs_disk s)\<lparr>seqnums_file := Some (seqnums_text sender target)\<rparr>\<rparr>"

definition header_line :: "u64 \<Rightarrow> u64 \<Rightarrow> usize \<Rightarrow> bytes" where
  "header_line n off sz = show_u64 n @ '','' @ show_u64 off @ '','' @ show_u64 sz @ [CHR 0x0A]"

abbreviation file_append :: "bytes option \<Rightarrow> bytes \<Rightarrow> bytes option" where
  "file_append f bs \<equiv> map_option (\<lambda>c. c @ bs) f"

definition write_message :: "u64 \<Rightarrow> bytes \<Rightarrow> file_store \<Rightarrow> file_store" where
  "write_message n m s =
     (let sz = of_nat (length m); off = current_body_offset s; d = fs_disk s in
      s\<lparr>fs_disk := d\<lparr>body_file := file_append (body_file d) m,
                   header_file := file_append (header_file d) (header_line n off sz)\<rparr>,
        message_index := (message_index s)(n \<mapsto> MessageDef off sz),
        current_body_offset := off + sz\<rparr>)"

definition fs_add :: "u64 \<Rightarrow> bytes \<Rightarrow> (file_store, unit, store_error) comp" where
  "fs_add n m s = (Ok (), write_message n m s)"

text \<open>Reading one message: seek to its offset and \<open>read_exact\<close> its size.\<close>

definition read_at :: "bytes \<Rightarrow> message_def \<Rightarrow> (bytes, io_error) outcome" where
  "read_at body def =
     (let rest = drop (unat (offset def)) body in
      if length rest < unat (msg_size def) then Err UnexpectedEof else Ok (take (unat (msg_size def)) rest))"

fun read_each :: "bytes \<Rightarrow> (u64 \<rightharpoonup> message_def) \<Rightarrow> u64 list \<Rightarrow> (bytes list, io_error) outcome" where
  "read_each body index [] = Ok []"
| "read_each body index (n # ns) = (case index n of
      None \<Rightarrow> read_each body index ns
    | Some def \<Rightarrow> (case read_at body def of
        Err e \<Rightarrow> Err e
      | Panic \<Rightarrow> Panic
      | Ok m \<Rightarrow> (case read_each body index ns of Ok ms \<Rightarrow> Ok (m # ms) | Err e \<Rightarrow> Err e | Panic \<Rightarrow> Panic)))"

definition read_messages :: "usize \<Rightarrow> usize \<Rightarrow> file_store \<Rightarrow> (bytes list, io_error) outcome" where
  "read_messages b e s =
     (if \<not> capacity_ok (e - b + 1) then Panic
      else case body_file (fs_disk s) of
          None \<Rightarrow> Err NotFound
        | Some body \<Rightarrow> read_each body (message_index s) (seq_range b e))"

definition fs_get_slice :: "usize \<Rightarrow> usize \<Rightarrow> file_store \<Rightarrow> (bytes list, store_error) outcome" where
  "fs_get_slice b e s = (case read_messages b e s of
      Ok ms \<Rightarrow> Ok ms
    | Err _ \<Rightarrow> Err (RetrieveMessages b e)
    | Panic \<Rightarrow> Panic)"

definition fs_next_sender_seq_number :: "file_store \<Rightarrow> u64" where
  "fs_next_sender_seq_number s = sender_seq_number s + 1"

definition fs_next_target_seq_number :: "file_store \<Rightarrow> u64" where
  "fs_next_target_seq_number s = target_seq_number s + 1"

definition fs_increment_sender_seq_number :: "(file_store, unit, store_error) comp" where
  "fs_increment_sender_seq_number s =
     (let new_value = sender_seq_number s + 1 in
      (Ok (), (write_seqnums_with new_value (target_seq_number s) s)\<lparr>sender_seq_number := new_value\<rparr>))"

definition fs_increment_target_seq_number :: "(file_store, unit, store_error) comp" where
  "fs_increment_target_seq_number s =
     (let new_value = target_seq_number s + 1 in
      (Ok (), (write_seqnums_with (sender_seq_number s) new_value s)\<lparr>target_seq_number := new_value\<rparr>))"

definition fs_set_target_seq_number :: "u64 \<Rightarrow> (file_store, unit, store_error) comp" where
  "fs_set_target_seq_number n s =
     (Ok (), (write_seqnums_with (sender_seq_number s) n s)\<lparr>target_seq_number := n\<rparr>)"

text \<open>\<open>perform_reset\<close> removes the four files and creates them again; \<open>now\<close> is the second reading of the clock,
  which is what remains.\<close>

definition perform_reset :: "chrono \<Rightarrow> utc \<Rightarrow> file_store \<Rightarrow> file_store" where
  "perform_reset ch now s =
     s\<lparr>fs_disk := \<lparr>body_file = Some [], header_file = Some [], seqnums_file = Some [],
          session_file = Some (to_rfc3339 ch now)\<rparr>,
       sender_seq_number := 0, target_seq_number := 0, fs_creation_time := now,
       message_index := Map.empty, current_body_offset := 0\<rparr>"

definition fs_reset :: "chrono \<Rightarrow> utc \<Rightarrow> (file_store, unit, store_error) comp" where
  "fs_reset ch now s = (Ok (), perform_reset ch now s)"

definition FileStore :: "chrono \<Rightarrow> file_store message_store" where
  "FileStore ch = \<lparr>store_add = fs_add, store_get_slice = fs_get_slice,
     next_sender_seq_number = fs_next_sender_seq_number, next_target_seq_number = fs_next_target_seq_number,
     increment_sender_seq_number = fs_increment_sender_seq_number,
     increment_target_seq_number = fs_increment_target_seq_number,
     set_target_seq_number = fs_set_target_seq_number, store_reset = fs_reset ch,
     creation_time = fs_creation_time\<rparr>"

lemmas fs_defs = FileStore_def fs_add_def fs_get_slice_def fs_next_sender_seq_number_def
  fs_next_target_seq_number_def fs_increment_sender_seq_number_def fs_increment_target_seq_number_def
  fs_set_target_seq_number_def fs_reset_def

section \<open>The file store implements the contract\<close>

definition stored :: "bytes \<Rightarrow> message_def \<Rightarrow> bytes" where
  "stored body def = take (unat (msg_size def)) (drop (unat (offset def)) body)"

definition fs_body :: "file_store \<Rightarrow> bytes" where
  "fs_body s = (case body_file (fs_disk s) of None \<Rightarrow> [] | Some c \<Rightarrow> c)"

definition fs_abs :: "file_store \<Rightarrow> abs_store" where
  "fs_abs s = \<lparr>abs_sender = sender_seq_number s, abs_target = target_seq_number s,
     abs_created = fs_creation_time s,
     abs_messages = (\<lambda>n. map_option (stored (fs_body s)) (message_index s n))\<rparr>"

definition entry_line :: "u64 \<times> message_def \<Rightarrow> bytes" where
  "entry_line e = header_line (fst e) (offset (snd e)) (msg_size (snd e))"

definition index_of :: "(u64 \<times> message_def) list \<Rightarrow> u64 \<rightharpoonup> message_def" where
  "index_of es = foldl (\<lambda>m (n, def). m(n \<mapsto> def)) Map.empty es"

text \<open>The invariant: the header file is the log of the index, every entry lies inside the body file, and the
  offset is the length of the body file.\<close>

definition fs_invar :: "file_store \<Rightarrow> bool" where
  "fs_invar s \<longleftrightarrow> body_file (fs_disk s) \<noteq> None
     \<and> length (fs_body s) = unat (current_body_offset s)
     \<and> (\<exists>es. header_file (fs_disk s) = Some (concat (map entry_line es)) \<and> message_index s = index_of es)
     \<and> (\<forall>n def. message_index s n = Some def \<longrightarrow> unat (offset def) + unat (msg_size def) \<le> length (fs_body s))"

definition fs_room :: "bytes \<Rightarrow> file_store \<Rightarrow> bool" where
  "fs_room m s \<longleftrightarrow> unat (current_body_offset s) + length m < 2 ^ 64"

lemma index_of_snoc [simp]: "index_of (es @ [(n, def)]) = (index_of es)(n \<mapsto> def)"
  by (simp add: index_of_def)

lemma stored_append: "unat (offset def) + unat (msg_size def) \<le> length body \<Longrightarrow> stored (body @ m) def = stored body def"
  by (simp add: stored_def)

lemma stored_new:
  assumes "length m < 2 ^ 64" "length body = unat off"
  shows "stored (body @ m) (MessageDef off (of_nat (length m))) = m"
  using assms by (simp add: stored_def unat_of_nat)

lemma fs_add_invar:
  assumes inv: "fs_invar s" and room: "fs_room m s"
  shows "fs_invar (write_message n m s)
    \<and> fs_abs (write_message n m s) = (fs_abs s)\<lparr>abs_messages := (abs_messages (fs_abs s))(n \<mapsto> m)\<rparr>"
proof -
  let ?s = "write_message n m s" and ?off = "current_body_offset s"
  let ?def = "MessageDef ?off (of_nat (length m))"
  obtain es where es: "header_file (fs_disk s) = Some (concat (map entry_line es))" "message_index s = index_of es"
    using inv by (auto simp: fs_invar_def)
  have len: "length m < 2 ^ 64" "length (fs_body s) = unat ?off" using room inv by (auto simp: fs_room_def fs_invar_def)
  have bounds: "message_index s k = Some def \<Longrightarrow> unat (offset def) + unat (msg_size def) \<le> length (fs_body s)" for k def
    using inv by (auto simp: fs_invar_def)
  have body: "fs_body ?s = fs_body s @ m" "body_file (fs_disk ?s) \<noteq> None"
    using inv by (auto simp: fs_body_def write_message_def fs_invar_def Let_def)
  have index: "message_index ?s = (message_index s)(n \<mapsto> ?def)" by (simp add: write_message_def Let_def)
  have "unat (current_body_offset ?s) = unat ?off + length m"
    using room by (simp add: write_message_def Let_def fs_room_def unat_word_ariths unat_of_nat)
  moreover have "header_file (fs_disk ?s) = Some (concat (map entry_line (es @ [(n, ?def)])))"
    using es by (simp add: write_message_def Let_def entry_line_def)
  moreover have "message_index ?s = index_of (es @ [(n, ?def)])" by (simp add: index es)
  moreover have "message_index ?s k = Some def \<Longrightarrow> unat (offset def) + unat (msg_size def) \<le> length (fs_body ?s)" for k def
    using bounds [of k def] len by (auto simp: index body unat_of_nat split: if_splits)
  ultimately have "fs_invar ?s"
    unfolding fs_invar_def using body len by (intro conjI exI [of _ "es @ [(n, ?def)]"]) auto
  moreover have "map_option (stored (fs_body ?s)) (message_index ?s k)
      = ((\<lambda>k. map_option (stored (fs_body s)) (message_index s k))(n \<mapsto> m)) k" for k
    using bounds [of k] stored_new [OF len] by (cases "message_index s k") (auto simp: index body stored_append)
  then have "fs_abs ?s = (fs_abs s)\<lparr>abs_messages := (abs_messages (fs_abs s))(n \<mapsto> m)\<rparr>"
    by (auto simp: fs_abs_def) (simp_all add: write_message_def Let_def)
  ultimately show ?thesis ..
qed

lemma read_each_stored:
  assumes "\<And>n def. index n = Some def \<Longrightarrow> unat (offset def) + unat (msg_size def) \<le> length body"
  shows "read_each body index ns = Ok (List.map_filter (\<lambda>n. map_option (stored body) (index n)) ns)"
proof (induction ns)
  case (Cons n ns)
  then show ?case
    using assms [of n] by (cases "index n") (auto simp: map_filter_simps read_at_def stored_def Let_def)
qed (simp add: map_filter_simps)

lemma fs_invar_seqnums:
  assumes "fs_invar s" "body_file (fs_disk t) = body_file (fs_disk s)" "header_file (fs_disk t) = header_file (fs_disk s)"
    "message_index t = message_index s" "current_body_offset t = current_body_offset s"
  shows "fs_invar t"
  using assms unfolding fs_invar_def fs_body_def by auto

interpretation fs: store_spec "FileStore ch" fs_abs fs_invar fs_room for ch
proof
  fix s m n now and b e :: usize
  show "fs_invar s \<Longrightarrow> fs_room m s \<Longrightarrow> \<exists>s'. store_add (FileStore ch) n m s = (Ok (), s') \<and> fs_invar s'
      \<and> fs_abs s' = (fs_abs s)\<lparr>abs_messages := (abs_messages (fs_abs s))(n \<mapsto> m)\<rparr>"
    using fs_add_invar by (simp add: fs_defs)
  show "fs_invar s \<Longrightarrow> capacity_ok (e - b + 1) \<Longrightarrow>
      store_get_slice (FileStore ch) b e s = Ok (slice_of (abs_messages (fs_abs s)) b e)"
    using read_each_stored [of "message_index s" "fs_body s"]
    by (auto simp: fs_defs read_messages_def slice_of_def fs_abs_def fs_invar_def fs_body_def)
  show "fs_invar s \<Longrightarrow> \<exists>s'. store_reset (FileStore ch) now s = (Ok (), s') \<and> fs_invar s'
      \<and> fs_abs s' = \<lparr>abs_sender = 0, abs_target = 0, abs_created = now, abs_messages = Map.empty\<rparr>"
    by (auto simp: fs_defs perform_reset_def fs_abs_def fs_invar_def fs_body_def index_of_def intro!: exI [of _ "[]"])
qed (auto simp: fs_defs fs_abs_def write_seqnums_with_def fs_body_def Let_def elim!: fs_invar_seqnums)

section \<open>Reading back what was written\<close>

lemma digit_code: "is_ascii_digit c \<Longrightarrow> 48 \<le> (of_char c :: nat) \<and> (of_char c :: nat) \<le> 57"
  by (simp add: is_ascii_digit_def)

lemma whitespace_front_digit: "is_ascii_digit c \<Longrightarrow> whitespace_front (of_char c # r) = 0"
  by (drule digit_code) (simp split: list.split)

lemma whitespace_back_digit: "is_ascii_digit c \<Longrightarrow> whitespace_back (of_char c # r) = 0"
  by (drule digit_code) (simp split: list.split)

lemma str_trim_digits:
  assumes "s \<noteq> []" "is_ascii_digit (hd s)" "is_ascii_digit (last s)"
  shows "str_trim s = s"
proof -
  have "trim_with whitespace_front s = s"
    using assms whitespace_front_digit by (cases s) (auto simp: trim_with.simps [of _ "_ # _"])
  moreover have "trim_with whitespace_back (rev s) = rev s"
    using assms whitespace_back_digit
    by (cases s rule: rev_cases) (auto simp: trim_with.simps [of _ "_ # _"])
  ultimately show ?thesis by (simp add: str_trim_def)
qed

lemma trim_with_space: "trim_with whitespace_front (CHR '' '' # s) = trim_with whitespace_front s"
  "trim_with whitespace_back (CHR '' '' # s) = trim_with whitespace_back s"
  by (subst trim_with.simps; simp)+

lemma str_trim_space_digits:
  assumes "s \<noteq> []" "is_ascii_digit (hd s)" "is_ascii_digit (last s)"
  shows "str_trim (s @ '' '') = s" "str_trim ('' '' @ s) = s"
proof -
  have "trim_with whitespace_front (s @ t) = s @ t" for t
    using assms whitespace_front_digit by (cases s) (auto simp: trim_with.simps [of _ "_ # _"])
  moreover have "trim_with whitespace_back (rev s) = rev s"
    using assms whitespace_back_digit
    by (cases s rule: rev_cases) (auto simp: trim_with.simps [of _ "_ # _"])
  ultimately show "str_trim (s @ '' '') = s" "str_trim ('' '' @ s) = s"
    using \<open>\<And>t. trim_with whitespace_front (s @ t) = s @ t\<close> [of "[]"]
    by (simp_all add: str_trim_def trim_with_space)
qed

lemma split_on_none: "c \<notin> set xs \<Longrightarrow> split_on c xs = [xs]"
  by (induction xs) auto

lemma split_on_not_Nil [simp]: "split_on c xs \<noteq> []"
  by (induction xs) (auto split: list.splits)

lemma split_on_first: "c \<notin> set xs \<Longrightarrow> split_on c (xs @ c # ys) = xs # split_on c ys"
  by (induction xs) (auto split: list.split)

lemma no_char_in_digits:
  assumes "\<forall>d \<in> set ds. is_ascii_digit d" "\<not> is_ascii_digit c"
  shows "c \<notin> set ds"
  using assms by blast

lemma not_digit [simp]: "\<not> is_ascii_digit (CHR '','')" "\<not> is_ascii_digit (CHR '':'')"
  "\<not> is_ascii_digit (CHR '' '')" "\<not> is_ascii_digit (CHR 0x0A)" "\<not> is_ascii_digit (CHR 0x0D)"
  by (simp_all add: is_ascii_digit_def)

lemma show_nat_hd_last [simp]: "is_ascii_digit (hd (show_nat n))" "is_ascii_digit (last (show_nat n))"
  by (rule show_nat_digits, rule hd_in_set, simp) (rule show_nat_digits, rule last_in_set, simp)

lemma index_line_text:
  "index_line (show_u64 n @ '','' @ show_u64 off @ '','' @ show_u64 sz) = Some (n, MessageDef off sz)"
proof -
  have c: "CHR '','' \<notin> set (show_nat k)" for k using show_nat_digits by (intro no_char_in_digits) auto
  have "str_trim (show_u64 n @ '','' @ show_u64 off @ '','' @ show_u64 sz)
      = show_u64 n @ '','' @ show_u64 off @ '','' @ show_u64 sz"
    by (rule str_trim_digits) (simp_all add: hd_append)
  then show ?thesis
    by (simp add: index_line_def split_on_first [OF c] split_on_none [OF c])
qed

lemma entry_line_text:
  "entry_line (n, MessageDef off sz) = (show_u64 n @ '','' @ show_u64 off @ '','' @ show_u64 sz) @ [CHR 0x0A]"
  by (simp add: entry_line_def header_line_def)

lemma lines_first:
  assumes "CHR 0x0A \<notin> set l" "l \<noteq> []" "last l \<noteq> CHR 0x0D"
  shows "lines (l @ CHR 0x0A # s) = l # lines s"
proof -
  have "takeWhile (\<lambda>c. c \<noteq> CHR 0x0A) (l @ CHR 0x0A # s) = l"
    using assms by (subst takeWhile_append2) auto
  moreover have "dropWhile (\<lambda>c. c \<noteq> CHR 0x0A) (l @ CHR 0x0A # s) = CHR 0x0A # s"
    using assms by (subst dropWhile_append2) auto
  ultimately show ?thesis using assms by (subst lines.simps) (simp add: strip_cr_def)
qed

lemma load_lines_entries: "load_lines index (lines (concat (map entry_line es)))
  = Ok (foldl (\<lambda>m (n, def). m(n \<mapsto> def)) index es)"
proof (induction es arbitrary: index)
  case Nil
  show ?case by (simp add: lines.simps)
next
  case (Cons e es)
  obtain n off sz where e: "e = (n, MessageDef off sz)" by (cases e) (metis message_def.exhaust)
  let ?l = "show_u64 n @ '','' @ show_u64 off @ '','' @ show_u64 sz"
  have d: "CHR 0x0A \<notin> set (show_nat k)" for k using show_nat_digits by (intro no_char_in_digits) auto
  have "last ?l = last (show_u64 sz)" by simp
  then have "last ?l \<noteq> CHR 0x0D" using show_nat_hd_last(2) [of "unat sz"] not_digit(5) by metis
  then have "lines (concat (map entry_line (e # es))) = ?l # lines (concat (map entry_line es))"
    using lines_first [of ?l "concat (map entry_line es)"] d by (simp add: e entry_line_text)
  moreover have "from_utf8 ?l = Some ?l" by (rule from_utf8_ascii) simp
  ultimately show ?case using Cons.IH index_line_text [of n off sz] by (simp add: e)
qed

lemma parse_seqnums_text: "parse_seqnums (seqnums_text a b) = Ok (a, b)"
proof -
  let ?a = "show_padded 20 (unat a)" and ?b = "show_padded 20 (unat b)"
  have d: "\<forall>c \<in> set (show_padded 20 k). is_ascii_digit c" and ne: "show_padded 20 k \<noteq> []" for k
    by (simp_all add: show_padded_digits) (simp add: show_padded_def)
  then have e: "is_ascii_digit (hd (show_padded 20 k))" "is_ascii_digit (last (show_padded 20 k))" for k
    by (meson hd_in_set last_in_set)+
  have c: "CHR '':'' \<notin> set (show_padded 20 k)" for k using d by (intro no_char_in_digits) auto
  have t: "str_trim (seqnums_text a b) = seqnums_text a b"
    unfolding seqnums_text_def by (rule str_trim_digits) (simp_all add: ne e hd_append)
  have "split_on (CHR '':'') (seqnums_text a b) = [?a @ '' '', '' '' @ ?b]"
    using split_on_first [of "CHR '':''" "?a @ '' ''" "'' '' @ ?b"] c
    by (simp add: seqnums_text_def split_on_none)
  moreover have "str_trim (?a @ '' '') = ?a" "str_trim ('' '' @ ?b) = ?b"
    using str_trim_space_digits ne e by auto
  moreover have "parse_u64 (show_padded 20 (unat w)) = Some w" for w :: u64
  proof -
    have "unat w \<le> 2 ^ 64 - 1" using unsigned_less [of w, where ?'a = nat] by simp
    then show ?thesis by (simp only: parse_u64_def parse_unsigned_show_padded) simp
  qed
  ultimately show ?thesis by (simp add: parse_seqnums_def t)
qed

section \<open>Properties\<close>

fun bytes_added :: "store_op list \<Rightarrow> nat" where
  "bytes_added [] = 0"
| "bytes_added (Add n m # cs) = length m + bytes_added cs"
| "bytes_added (_ # cs) = bytes_added cs"

lemma apply_op_offset:
  assumes "fs_invar s" "unat (current_body_offset s) + bytes_added (c # cs) < 2 ^ 64"
    and "apply_op (FileStore ch) c s = (r, s')"
  shows "unat (current_body_offset s') + bytes_added cs < 2 ^ 64"
  using assms
  by (cases c) (auto simp: apply_op_def fs_defs write_message_def write_seqnums_with_def perform_reset_def Let_def
      unat_word_ariths unat_of_nat)

lemma run_ops_file:
  assumes "fs_invar s" "unat (current_body_offset s) + bytes_added cs < 2 ^ 64"
  shows "\<exists>s'. run_ops (FileStore ch) cs s = (Ok (), s') \<and> fs_invar s' \<and> fs_abs s' = fold abs_op cs (fs_abs s)"
  using assms
proof (induction cs arbitrary: s)
  case (Cons c cs)
  have "fs_room m s" if "c = Add n m" for n m using Cons.prems(2) by (simp add: that fs_room_def)
  then obtain s1 where s1: "apply_op (FileStore ch) c s = (Ok (), s1)" "fs_invar s1" "fs_abs s1 = abs_op c (fs_abs s)"
    using fs.apply_op_spec [OF Cons.prems(1), of c ch] by auto
  with Cons.IH [OF s1(2) apply_op_offset [OF Cons.prems s1(1)]] show ?case by (auto simp: bind_comp_def)
qed (simp add: ret_def)

lemma run_ops_memory:
  "\<exists>t'. run_ops InMemoryMessageStore cs t = (Ok (), t') \<and> mem_abs t' = fold abs_op cs (mem_abs t)"
proof (induction cs arbitrary: t)
  case (Cons c cs)
  obtain t1 where "apply_op InMemoryMessageStore c t = (Ok (), t1)" "mem_abs t1 = abs_op c (mem_abs t)"
    using mem.apply_op_spec [OF TrueI TrueI, of c t] by auto
  with Cons [of t1] show ?case by (auto simp: bind_comp_def)
qed (simp add: ret_def)

text \<open>C17. The file store refines the in-memory store. From states with the same abstract content, any sequence of
  store operations succeeds on both (while the body file stays below \<open>2^64\<close> bytes) and leaves the same
  counters, creation time and messages; every later range query has the same answer.\<close>

theorem file_store_refines_memory:
  assumes "fs_invar s" and "fs_abs s = mem_abs t"
    and "unat (current_body_offset s) + bytes_added cs < 2 ^ 64"
  shows "\<exists>s' t'. run_ops (FileStore ch) cs s = (Ok (), s') \<and> run_ops InMemoryMessageStore cs t = (Ok (), t')
    \<and> fs_abs s' = mem_abs t'
    \<and> (\<forall>b e. store_get_slice (FileStore ch) b e s' = store_get_slice InMemoryMessageStore b e t')"
proof -
  obtain s' where s: "run_ops (FileStore ch) cs s = (Ok (), s')" "fs_invar s'" "fs_abs s' = fold abs_op cs (fs_abs s)"
    using run_ops_file [OF assms(1,3)] by blast
  obtain t' where t: "run_ops InMemoryMessageStore cs t = (Ok (), t')" "mem_abs t' = fold abs_op cs (mem_abs t)"
    using run_ops_memory by blast
  have eq: "fs_abs s' = mem_abs t'" using s t assms(2) by simp
  have "store_get_slice (FileStore ch) b e s' = store_get_slice InMemoryMessageStore b e t'" for b e
  proof (cases "capacity_ok (e - b + 1)")
    case True
    then show ?thesis using fs.get_slice_spec [OF s(2) True, of ch] mem.get_slice_spec [OF TrueI True, of t'] eq by simp
  next
    case False
    then show ?thesis by (simp add: fs_defs mem_defs read_messages_def)
  qed
  with s t eq show ?thesis by blast
qed

definition fresh_file_store :: "bytes \<Rightarrow> utc \<Rightarrow> file_store" where
  "fresh_file_store session_text now =
     \<lparr>fs_disk = \<lparr>body_file = Some [], header_file = Some [], seqnums_file = Some [], session_file = Some session_text\<rparr>,
      sender_seq_number = 0, target_seq_number = 0, fs_creation_time = now, message_index = Map.empty,
      current_body_offset = 0\<rparr>"

lemma fresh_file_store_ok:
  "fs_invar (fresh_file_store st now)" "fs_abs (fresh_file_store st now) = mem_abs (mem_default now)"
  by (auto simp: fresh_file_store_def fs_invar_def fs_body_def index_of_def fs_abs_def mem_abs_def mem_default_def
      intro!: exI [of _ "[]"])

theorem file_store_refines_memory_witness:
  "\<exists>s' t'. run_ops (FileStore \<lparr>to_rfc3339 = \<lambda>_. [], parse_utc = \<lambda>_. None\<rparr>) [Add 1 ''ab'', IncrementSender] (fresh_file_store [] 7) = (Ok (), s')
    \<and> run_ops InMemoryMessageStore [Add 1 ''ab'', IncrementSender] (mem_default 7) = (Ok (), t')
    \<and> fs_abs s' = mem_abs t'"
proof -
  have "unat (current_body_offset (fresh_file_store [] 7)) + bytes_added [Add 1 ''ab'', IncrementSender] < 2 ^ 64"
    by (simp add: fresh_file_store_def)
  from file_store_refines_memory [OF fresh_file_store_ok this] show ?thesis by blast
qed

text \<open>The sequence number file and the session file hold the store's counters and creation time.\<close>

definition synced :: "chrono \<Rightarrow> file_store \<Rightarrow> bool" where
  "synced ch s \<longleftrightarrow> seqnums_file (fs_disk s) = Some (seqnums_text (sender_seq_number s) (target_seq_number s))
     \<and> (\<exists>text. session_file (fs_disk s) = Some text \<and> from_utf8 text = Some text
          \<and> parse_utc ch (str_trim text) = Some (fs_creation_time s))"

lemma read_seqnums_text:
  assumes "seqnums_file d = Some (seqnums_text a b)"
  shows "read_initial_seqnums d = Ok (a, b)"
proof -
  have "is_ascii (show_padded 20 k)" for k by (rule is_ascii_digits) (simp add: show_padded_digits)
  then have "from_utf8 (seqnums_text a b) = Some (seqnums_text a b)"
    by (intro from_utf8_ascii) (simp add: seqnums_text_def)
  moreover have "str_trim (seqnums_text a b) \<noteq> []"
  proof
    assume "str_trim (seqnums_text a b) = []"
    then have "parse_seqnums (seqnums_text a b) = Err (InvalidData ''invalid seqnums format'')"
      by (simp add: parse_seqnums_def)
    then show False by (simp add: parse_seqnums_text)
  qed
  ultimately show ?thesis using assms by (simp add: read_initial_seqnums_def parse_seqnums_text)
qed

lemma fs_invar_index: "fs_invar s \<Longrightarrow> load_message_index (fs_disk s) = Ok (message_index s)"
  by (auto simp: fs_invar_def load_message_index_def load_lines_entries index_of_def)

lemma new_inner_invar:
  assumes inv: "fs_invar s" and nums: "read_initial_seqnums (fs_disk s) = Ok (a, b)"
    and st: "session_file (fs_disk s) = Some st" "from_utf8 st = Some st"
      "parse_utc ch (str_trim st) = Some (fs_creation_time s)"
  defines "d \<equiv> (fs_disk s)\<lparr>seqnums_file := Some []\<rparr>"
  shows "new_inner ch now (fs_disk s) = (Ok (s\<lparr>fs_disk := d, sender_seq_number := a, target_seq_number := b\<rparr>), d)"
proof -
  obtain body h where f: "body_file (fs_disk s) = Some body" "header_file (fs_disk s) = Some h"
    using inv by (auto simp: fs_invar_def)
  then have off: "of_nat (length body) = current_body_offset s" using inv by (simp add: fs_invar_def fs_body_def)
  have "(fs_disk s)\<lparr>body_file := Some body, header_file := Some h, seqnums_file := Some []\<rparr> = d"
    using f by (simp add: d_def)
  moreover have "load_message_index d = Ok (message_index s)"
    using fs_invar_index [OF inv] by (simp add: d_def load_message_index_def)
  moreover have "get_or_create_session_time ch now (fs_disk s) = (Ok (fs_creation_time s), fs_disk s)"
    using st by (simp add: get_or_create_session_time_def)
  ultimately show ?thesis using nums f off by (simp add: new_inner_def create_if_missing_def Let_def)
qed

lemma read_synced: "synced ch s \<Longrightarrow> read_initial_seqnums (fs_disk s) = Ok (sender_seq_number s, target_seq_number s)"
  by (rule read_seqnums_text) (simp add: synced_def)

lemma fs_invar_update:
  "fs_invar s \<Longrightarrow> fs_invar (s\<lparr>fs_disk := (fs_disk s)\<lparr>seqnums_file := x\<rparr>, sender_seq_number := a, target_seq_number := b\<rparr>)"
  by (erule fs_invar_seqnums) simp_all

text \<open>C34. Restarting does not lose the session. When the sequence number and session files are up to date, which
  every change of a counter makes true of the former, opening a new file store on the files of a
  store gives the same counters, creation time and messages.\<close>

theorem file_store_reopen:
  assumes "fs_invar s" and "synced ch s"
  shows "\<exists>s' d. new_inner ch now (fs_disk s) = (Ok s', d) \<and> fs_abs s' = fs_abs s \<and> fs_invar s'"
proof -
  obtain st where "session_file (fs_disk s) = Some st" "from_utf8 st = Some st"
      "parse_utc ch (str_trim st) = Some (fs_creation_time s)" using assms(2) by (auto simp: synced_def)
  note n = new_inner_invar [OF assms(1) read_synced [OF assms(2)] this, of now]
  have "fs_abs (s\<lparr>fs_disk := (fs_disk s)\<lparr>seqnums_file := x\<rparr>\<rparr>) = fs_abs s" for x
    by (simp add: fs_abs_def fs_body_def)
  with n fs_invar_update [OF assms(1)] show ?thesis by fastforce
qed

definition sample_chrono :: chrono where
  "sample_chrono = \<lparr>to_rfc3339 = (\<lambda>t. show_nat (nat t)), parse_utc = (\<lambda>s. map_option int (digits_value 0 s))\<rparr>"

abbreviation sample_file_store :: file_store where
  "sample_file_store \<equiv> snd (fs_increment_sender_seq_number (fresh_file_store ''7'' 7))"

lemma str_trim_7: "str_trim ''7'' = ''7''"
  by (rule str_trim_digits) (simp_all add: is_ascii_digit_def)

lemma sample_file_store_ok: "fs_invar sample_file_store" "synced sample_chrono sample_file_store"
proof -
  show "fs_invar sample_file_store"
    by (rule fs_invar_seqnums [OF fresh_file_store_ok(1) [of "''7''" 7]])
      (simp_all add: fs_increment_sender_seq_number_def write_seqnums_with_def Let_def)
  show "synced sample_chrono sample_file_store"
    by (simp add: synced_def fs_increment_sender_seq_number_def write_seqnums_with_def Let_def fresh_file_store_def
        from_utf8_def sample_chrono_def is_ascii_digit_def digit_val_def str_trim_7)
qed

theorem file_store_reopen_witness:
  "\<exists>s' d. new_inner sample_chrono 9 (fs_disk sample_file_store) = (Ok s', d) \<and> sender_seq_number s' = 1"
proof -
  obtain s' d where s': "new_inner sample_chrono 9 (fs_disk sample_file_store) = (Ok s', d)"
    "fs_abs s' = fs_abs sample_file_store"
    using file_store_reopen [OF sample_file_store_ok] by blast
  then have "sender_seq_number s' = sender_seq_number sample_file_store" by (simp add: fs_abs_def)
  with s' show ?thesis
    by (auto simp: fs_increment_sender_seq_number_def fresh_file_store_def Let_def)
qed

text \<open>C35. Opening twice loses the sequence numbers. Opening a store truncates the sequence number file before anything
  is written to it, so that a second start without a change of a counter in between begins at zero again,
  whatever the first one had read.\<close>

lemma read_truncated: "seqnums_file d = Some [] \<Longrightarrow> read_initial_seqnums d = Ok (0, 0)"
  by (simp add: read_initial_seqnums_def from_utf8_def str_trim_def trim_with.simps)

theorem reopen_twice_forgets_seqnums:
  assumes "new_inner ch now d = (Ok s, d1)" and "new_inner ch now' d1 = (Ok s', d2)"
  shows "fs_next_sender_seq_number s' = 1 \<and> fs_next_target_seq_number s' = 1"
proof -
  have "seqnums_file d1 = Some []"
    using assms(1) by (auto simp: new_inner_def Let_def split: prod.splits outcome.splits)
  moreover have "get_or_create_session_time ch now' d1 = (r, d1') \<Longrightarrow> seqnums_file d1' = seqnums_file d1" for r d1'
    by (auto simp: get_or_create_session_time_def split: option.splits)
  ultimately have "read_initial_seqnums d1' = Ok (0, 0)" if "get_or_create_session_time ch now' d1 = (r, d1')" for r d1'
    using that read_truncated by simp
  then show ?thesis
    using assms(2) by (auto simp: new_inner_def Let_def fs_next_sender_seq_number_def fs_next_target_seq_number_def
        split: prod.splits outcome.splits)
qed

theorem reopen_twice_forgets_seqnums_witness:
  "\<exists>s d s' d'. new_inner sample_chrono 9 (fs_disk sample_file_store) = (Ok s, d)
     \<and> sender_seq_number s = 1 \<and> new_inner sample_chrono 9 d = (Ok s', d') \<and> fs_next_sender_seq_number s' = 1"
proof -
  let ?s = "sample_file_store"
  obtain st where t: "session_file (fs_disk ?s) = Some st" "from_utf8 st = Some st"
      "parse_utc sample_chrono (str_trim st) = Some (fs_creation_time ?s)"
    using sample_file_store_ok(2) by (auto simp: synced_def)
  let ?d = "(fs_disk ?s)\<lparr>seqnums_file := Some []\<rparr>"
  define s1 where "s1 = ?s\<lparr>fs_disk := ?d, sender_seq_number := sender_seq_number ?s, target_seq_number := target_seq_number ?s\<rparr>"
  have o1: "new_inner sample_chrono 9 (fs_disk ?s) = (Ok s1, ?d)"
    unfolding s1_def by (rule new_inner_invar [OF sample_file_store_ok(1) read_synced [OF sample_file_store_ok(2)] t])
  have i: "fs_invar s1" unfolding s1_def by (rule fs_invar_update [OF sample_file_store_ok(1)])
  have d: "fs_disk s1 = ?d" "fs_creation_time s1 = fs_creation_time ?s" by (simp_all add: s1_def)
  obtain s' d' where o2: "new_inner sample_chrono 9 ?d = (Ok s', d')"
    using new_inner_invar [OF i read_truncated, of st sample_chrono 9] t by (simp add: d)
  have "sender_seq_number s1 = 1"
    by (simp add: s1_def fs_increment_sender_seq_number_def fresh_file_store_def Let_def)
  with o1 o2 reopen_twice_forgets_seqnums [OF o1 o2] show ?thesis by blast
qed

end
