(* ===== verification/Mongo_Store.thy ===== *)
theory Mongo_Store
  imports Store "HOL-Library.Multiset"
begin

text \<open>
  The MongoDB store of \<^verbatim>\<open>hotfix-store-mongodb/src/lib.rs\<close>. The driver and the database are the record \<open>mongo\<close>, an argument of every
  operation; \<open>mongo_documented\<close> states the documented behaviour of a reachable database the store relies on. Both collection handles of the
  source are views of one collection, whose documents are the set \<open>docs d\<close>. The \<open>_id\<close> of a message document, which the
  server chooses and nobody reads, is left out, and so is the choice of the collection by its name. Times are in nanoseconds, as
  elsewhere; BSON dates have milliseconds.
\<close>

section \<open>Documents, filters and the driver\<close>

type_synonym object_id = nat

record sequence_meta =
  object_id :: object_id
  is_meta :: bool
  bson_creation_time :: int
  meta_sender_seq_number :: u64
  meta_target_seq_number :: u64

record message_doc =
  sequence_id :: object_id
  msg_seq_number :: u64
  doc_data :: bytes

datatype document = MetaDoc sequence_meta | MessageDoc message_doc

text \<open>The filters and updates the source builds with \<^verbatim>\<open>doc!\<close>.\<close>

datatype doc_filter =
    MetaIsTrue
  | OlderMeta int "object_id option"
  | IdIs object_id
  | IdIn "object_id list"
  | MessageIs object_id int
  | MessageBetween object_id int int
  | SequenceIn "object_id list"

datatype seq_field = SenderField | TargetField

datatype doc_update = Inc seq_field int | SetTo seq_field int

record 'd mongo =
  object_id_new :: "'d \<Rightarrow> object_id \<times> 'd"
  insert_one :: "document \<Rightarrow> ('d, unit, string) comp"
  replace_one_upsert :: "doc_filter \<Rightarrow> document \<Rightarrow> ('d, unit, string) comp"
  update_one :: "doc_filter \<Rightarrow> doc_update \<Rightarrow> ('d, unit, string) comp"
  delete_many :: "doc_filter \<Rightarrow> ('d, nat, string) comp"
  find_latest_meta :: "doc_filter \<Rightarrow> 'd \<Rightarrow> (sequence_meta option, string) outcome"
  find_metas :: "doc_filter \<Rightarrow> 'd \<Rightarrow> (sequence_meta list, string) outcome"
  find_messages :: "doc_filter \<Rightarrow> 'd \<Rightarrow> (message_doc list, string) outcome"
  create_indexes :: "('d, unit, string) comp"

section \<open>The store\<close>

record 'd mongo_store =
  mongo_db :: 'd
  current_sequence :: sequence_meta

definition reads :: "('st \<Rightarrow> ('a, 'e) outcome) \<Rightarrow> ('st, 'a, 'e) comp" where
  "reads f = (\<lambda>d. (f d, d))"

definition in_db :: "('d, 'a, 'e) comp \<Rightarrow> ('d mongo_store, 'a, 'e) comp" where
  "in_db m = (\<lambda>s. case m (mongo_db s) of (r, d) \<Rightarrow> (r, s\<lparr>mongo_db := d\<rparr>))"

definition bson_now :: "utc \<Rightarrow> int" where
  "bson_now now = now div 1000000"

definition new_sequence :: "'d mongo \<Rightarrow> utc \<Rightarrow> ('d, sequence_meta, string) comp" where
  "new_sequence svc now = (\<lambda>d. case object_id_new svc d of (i, d') \<Rightarrow>
     let initial_meta = \<lparr>object_id = i, is_meta = True, bson_creation_time = bson_now now,
           meta_sender_seq_number = 0, meta_target_seq_number = 0\<rparr>
     in bind_comp (insert_one svc (MetaDoc initial_meta)) (\<lambda>_. ret initial_meta) d')"

definition get_or_default_sequence :: "'d mongo \<Rightarrow> utc \<Rightarrow> ('d, sequence_meta, string) comp" where
  "get_or_default_sequence svc now = bind_comp (reads (find_latest_meta svc MetaIsTrue)) (\<lambda>res. case res of
      None \<Rightarrow> new_sequence svc now
    | Some m \<Rightarrow> ret m)"

definition mongo_new_inner :: "'d mongo \<Rightarrow> utc \<Rightarrow> ('d, 'd mongo_store, string) comp" where
  "mongo_new_inner svc now =
     bind_comp (get_or_default_sequence svc now) (\<lambda>current.
     bind_comp (create_indexes svc) (\<lambda>_.
     gets (\<lambda>d. \<lparr>mongo_db = d, current_sequence = current\<rparr>)))"

definition MongoDbMessageStore_new :: "'d mongo \<Rightarrow> utc \<Rightarrow> ('d, 'd mongo_store, store_error) comp" where
  "MongoDbMessageStore_new svc now = map_err (\<lambda>_. Initialization) (mongo_new_inner svc now)"

definition cleanup_older_than_inner ::
    "'d mongo \<Rightarrow> utc \<Rightarrow> int \<Rightarrow> object_id option \<Rightarrow> ('d, nat, store_error) comp" where
  "cleanup_older_than_inner svc now age exclude_id =
     map_err (\<lambda>_. Cleanup)
       (let cutoff = (now - age) div 1000000 in
        bind_comp (reads (find_metas svc (OlderMeta cutoff exclude_id))) (\<lambda>metas.
        let old_sequence_ids = map object_id metas in
        if old_sequence_ids = [] then ret 0
        else
          bind_comp (delete_many svc (SequenceIn old_sequence_ids)) (\<lambda>_.
          delete_many svc (IdIn old_sequence_ids))))"

text \<open>\<open>MongoDbMessageStore::cleanup_older_than\<close> spares the sequence in use; the free function spares the latest one.\<close>

definition store_cleanup_older_than :: "'d mongo \<Rightarrow> utc \<Rightarrow> int \<Rightarrow> ('d mongo_store, nat, store_error) comp" where
  "store_cleanup_older_than svc now age =
     bind_comp (gets (\<lambda>s. object_id (current_sequence s))) (\<lambda>i. in_db (cleanup_older_than_inner svc now age (Some i)))"

definition cleanup_older_than :: "'d mongo \<Rightarrow> utc \<Rightarrow> int \<Rightarrow> ('d, nat, store_error) comp" where
  "cleanup_older_than svc now age =
     bind_comp (map_err (\<lambda>_. Cleanup) (reads (find_latest_meta svc MetaIsTrue))) (\<lambda>latest.
     cleanup_older_than_inner svc now age (map_option object_id latest))"

definition mongo_add :: "'d mongo \<Rightarrow> u64 \<Rightarrow> bytes \<Rightarrow> ('d mongo_store, unit, store_error) comp" where
  "mongo_add svc sequence_number message =
     bind_comp (gets (\<lambda>s. object_id (current_sequence s))) (\<lambda>i.
     map_err (\<lambda>_. PersistMessage sequence_number)
       (in_db (replace_one_upsert svc (MessageIs i (sint sequence_number))
         (MessageDoc \<lparr>sequence_id = i, msg_seq_number = sequence_number, doc_data = message\<rparr>))))"

definition mongo_get_slice :: "'d mongo \<Rightarrow> usize \<Rightarrow> usize \<Rightarrow> 'd mongo_store \<Rightarrow> (bytes list, store_error) outcome" where
  "mongo_get_slice svc b e s =
     (case find_messages svc (MessageBetween (object_id (current_sequence s)) (sint b) (sint e)) (mongo_db s) of
        Ok ms \<Rightarrow> Ok (map doc_data ms)
      | Err _ \<Rightarrow> Err (RetrieveMessages b e)
      | Panic \<Rightarrow> Panic)"

definition mongo_update :: "'d mongo \<Rightarrow> doc_update \<Rightarrow> ('d mongo_store, unit, store_error) comp" where
  "mongo_update svc u =
     bind_comp (gets (\<lambda>s. object_id (current_sequence s))) (\<lambda>i.
     map_err (\<lambda>_. UpdateSequenceNumber) (in_db (update_one svc (IdIs i) u)))"

definition set_current :: "(sequence_meta \<Rightarrow> sequence_meta) \<Rightarrow> ('d mongo_store, unit, 'e) comp" where
  "set_current f = modify (\<lambda>s. s\<lparr>current_sequence := f (current_sequence s)\<rparr>)"

definition mongo_increment_sender :: "'d mongo \<Rightarrow> ('d mongo_store, unit, store_error) comp" where
  "mongo_increment_sender svc =
     bind_comp (mongo_update svc (Inc SenderField 1)) (\<lambda>_.
     set_current (\<lambda>c. c\<lparr>meta_sender_seq_number := meta_sender_seq_number c + 1\<rparr>))"

definition mongo_increment_target :: "'d mongo \<Rightarrow> ('d mongo_store, unit, store_error) comp" where
  "mongo_increment_target svc =
     bind_comp (mongo_update svc (Inc TargetField 1)) (\<lambda>_.
     set_current (\<lambda>c. c\<lparr>meta_target_seq_number := meta_target_seq_number c + 1\<rparr>))"

definition mongo_set_target :: "'d mongo \<Rightarrow> u64 \<Rightarrow> ('d mongo_store, unit, store_error) comp" where
  "mongo_set_target svc n =
     bind_comp (mongo_update svc (SetTo TargetField (sint n))) (\<lambda>_.
     set_current (\<lambda>c. c\<lparr>meta_target_seq_number := n\<rparr>))"

definition mongo_reset :: "'d mongo \<Rightarrow> utc \<Rightarrow> ('d mongo_store, unit, store_error) comp" where
  "mongo_reset svc now =
     bind_comp (map_err (\<lambda>_. Reset) (in_db (new_sequence svc now))) (\<lambda>m. set_current (\<lambda>_. m))"

definition mongo_creation_time :: "'d mongo_store \<Rightarrow> utc" where
  "mongo_creation_time s = bson_creation_time (current_sequence s) * 1000000"

definition MongoDbMessageStore :: "'d mongo \<Rightarrow> 'd mongo_store message_store" where
  "MongoDbMessageStore svc = \<lparr>store_add = mongo_add svc, store_get_slice = mongo_get_slice svc,
     next_sender_seq_number = (\<lambda>s. meta_sender_seq_number (current_sequence s) + 1),
     next_target_seq_number = (\<lambda>s. meta_target_seq_number (current_sequence s) + 1),
     increment_sender_seq_number = mongo_increment_sender svc, increment_target_seq_number = mongo_increment_target svc,
     set_target_seq_number = mongo_set_target svc, store_reset = mongo_reset svc, creation_time = mongo_creation_time\<rparr>"

lemmas mongo_defs = MongoDbMessageStore_def mongo_add_def mongo_get_slice_def mongo_update_def set_current_def mongo_increment_sender_def
  mongo_increment_target_def mongo_set_target_def mongo_reset_def mongo_creation_time_def in_db_def reads_def

section \<open>The documented behaviour of the database\<close>

text \<open>Which documents a filter selects. A number is compared as the \<open>Int64\<close> it is stored as.\<close>

fun doc_matches :: "doc_filter \<Rightarrow> document \<Rightarrow> bool" where
  "doc_matches MetaIsTrue (MetaDoc m) = is_meta m"
| "doc_matches (OlderMeta cutoff exclude) (MetaDoc m) =
     (is_meta m \<and> bson_creation_time m < cutoff \<and> Some (object_id m) \<noteq> exclude)"
| "doc_matches (IdIs i) (MetaDoc m) = (object_id m = i)"
| "doc_matches (IdIn is) (MetaDoc m) = (object_id m \<in> set is)"
| "doc_matches (MessageIs i n) (MessageDoc m) = (sequence_id m = i \<and> uint (msg_seq_number m) = n)"
| "doc_matches (MessageBetween i b e) (MessageDoc m) = (sequence_id m = i \<and> b \<le> uint (msg_seq_number m) \<and> uint (msg_seq_number m) \<le> e)"
| "doc_matches (SequenceIn is) (MessageDoc m) = (sequence_id m \<in> set is)"
| "doc_matches _ _ = False"

text \<open>An unsigned number above the range of \<open>Int64\<close> has no BSON form.\<close>

fun doc_fits :: "document \<Rightarrow> bool" where
  "doc_fits (MetaDoc m) = (unat (meta_sender_seq_number m) < 2 ^ 63 \<and> unat (meta_target_seq_number m) < 2 ^ 63)"
| "doc_fits (MessageDoc m) = (unat (msg_seq_number m) < 2 ^ 63)"

fun doc_change :: "doc_update \<Rightarrow> document \<Rightarrow> document" where
  "doc_change (Inc SenderField k) (MetaDoc m) = MetaDoc (m\<lparr>meta_sender_seq_number := meta_sender_seq_number m + of_int k\<rparr>)"
| "doc_change (Inc TargetField k) (MetaDoc m) = MetaDoc (m\<lparr>meta_target_seq_number := meta_target_seq_number m + of_int k\<rparr>)"
| "doc_change (SetTo SenderField k) (MetaDoc m) = MetaDoc (m\<lparr>meta_sender_seq_number := of_int k\<rparr>)"
| "doc_change (SetTo TargetField k) (MetaDoc m) = MetaDoc (m\<lparr>meta_target_seq_number := of_int k\<rparr>)"
| "doc_change u (MessageDoc m) = MessageDoc m"

definition selected :: "doc_filter \<Rightarrow> document set \<Rightarrow> document set" where
  "selected f D = {x \<in> D. doc_matches f x}"

text \<open>The keys of a collection: the \<open>_id\<close> of the sequences, the unique index of the messages.\<close>

definition keys_unique :: "document set \<Rightarrow> bool" where
  "keys_unique D \<longleftrightarrow> (\<forall>m m'. MetaDoc m \<in> D \<longrightarrow> MetaDoc m' \<in> D \<longrightarrow> object_id m = object_id m' \<longrightarrow> m = m')
    \<and> (\<forall>m m'. MessageDoc m \<in> D \<longrightarrow> MessageDoc m' \<in> D \<longrightarrow> sequence_id m = sequence_id m' \<longrightarrow> msg_seq_number m = msg_seq_number m' \<longrightarrow> m = m')"

definition object_id_law :: "'d mongo \<Rightarrow> ('d \<Rightarrow> document set) \<Rightarrow> bool" where
  "object_id_law svc docs \<longleftrightarrow> (\<forall>d i d'. object_id_new svc d = (i, d') \<longrightarrow> docs d' = docs d \<and> (\<forall>m. MetaDoc m \<in> docs d \<longrightarrow> object_id m < i))"

definition insert_law :: "'d mongo \<Rightarrow> ('d \<Rightarrow> document set) \<Rightarrow> bool" where
  "insert_law svc docs \<longleftrightarrow> (\<forall>d x. doc_fits x \<longrightarrow> keys_unique (insert x (docs d)) \<longrightarrow>
     (\<exists>d'. insert_one svc x d = (Ok (), d') \<and> docs d' = insert x (docs d)))"

text \<open>Replacing and updating are stated for filters that select at most one document.\<close>

definition replace_law :: "'d mongo \<Rightarrow> ('d \<Rightarrow> document set) \<Rightarrow> bool" where
  "replace_law svc docs \<longleftrightarrow> (\<forall>d f x y. doc_fits x \<longrightarrow> selected f (docs d) \<subseteq> {y} \<longrightarrow>
     (\<exists>d'. replace_one_upsert svc f x d = (Ok (), d') \<and> docs d' = insert x (docs d - selected f (docs d))))"

definition update_law :: "'d mongo \<Rightarrow> ('d \<Rightarrow> document set) \<Rightarrow> bool" where
  "update_law svc docs \<longleftrightarrow> (\<forall>d f u y. selected f (docs d) = {y} \<longrightarrow> doc_fits (doc_change u y) \<longrightarrow>
     (\<exists>d'. update_one svc f u d = (Ok (), d') \<and> docs d' = insert (doc_change u y) (docs d - {y})))"

definition delete_law :: "'d mongo \<Rightarrow> ('d \<Rightarrow> document set) \<Rightarrow> bool" where
  "delete_law svc docs \<longleftrightarrow> (\<forall>d f. finite (docs d) \<and>
     (\<exists>d'. delete_many svc f d = (Ok (card (selected f (docs d))), d') \<and> docs d' = docs d - selected f (docs d)))"

text \<open>\<open>find_one\<close> with the descending order of \<open>_id\<close> gives the latest document; \<open>find\<close> gives all, in no particular order.\<close>

definition find_law :: "'d mongo \<Rightarrow> ('d \<Rightarrow> document set) \<Rightarrow> bool" where
  "find_law svc docs \<longleftrightarrow> (\<forall>d f.
     (\<exists>r. find_latest_meta svc f d = Ok r \<and> (case r of
          None \<Rightarrow> \<forall>m. MetaDoc m \<notin> selected f (docs d)
        | Some m \<Rightarrow> MetaDoc m \<in> selected f (docs d) \<and> (\<forall>m'. MetaDoc m' \<in> selected f (docs d) \<longrightarrow> object_id m' \<le> object_id m)))
   \<and> (\<exists>ms. find_metas svc f d = Ok ms \<and> distinct ms \<and> (\<forall>m. m \<in> set ms \<longleftrightarrow> MetaDoc m \<in> selected f (docs d)))
   \<and> (\<exists>ms. find_messages svc f d = Ok ms \<and> distinct ms \<and> (\<forall>m. m \<in> set ms \<longleftrightarrow> MessageDoc m \<in> selected f (docs d))))"

definition index_law :: "'d mongo \<Rightarrow> ('d \<Rightarrow> document set) \<Rightarrow> bool" where
  "index_law svc docs \<longleftrightarrow> (\<forall>d. keys_unique (docs d) \<longrightarrow> (\<exists>d'. create_indexes svc d = (Ok (), d') \<and> docs d' = docs d))"

definition mongo_documented :: "'d mongo \<Rightarrow> ('d \<Rightarrow> document set) \<Rightarrow> bool" where
  "mongo_documented svc docs \<longleftrightarrow> object_id_law svc docs \<and> insert_law svc docs \<and> replace_law svc docs \<and> update_law svc docs
     \<and> delete_law svc docs \<and> find_law svc docs \<and> index_law svc docs"

lemma find_found:
  assumes "mongo_documented svc docs"
  shows "\<exists>ms. find_metas svc f d = Ok ms \<and> distinct ms \<and> (\<forall>m. m \<in> set ms \<longleftrightarrow> MetaDoc m \<in> selected f (docs d))"
    and "\<exists>ms. find_messages svc f d = Ok ms \<and> distinct ms \<and> (\<forall>m. m \<in> set ms \<longleftrightarrow> MessageDoc m \<in> selected f (docs d))"
proof -
  have "find_law svc docs" using assms by (simp add: mongo_documented_def)
  then have "(\<exists>ms. find_metas svc f d = Ok ms \<and> distinct ms \<and> (\<forall>m. m \<in> set ms \<longleftrightarrow> MetaDoc m \<in> selected f (docs d)))
    \<and> (\<exists>ms. find_messages svc f d = Ok ms \<and> distinct ms \<and> (\<forall>m. m \<in> set ms \<longleftrightarrow> MessageDoc m \<in> selected f (docs d)))"
    unfolding find_law_def by (elim allE conjE) (intro conjI; assumption)
  then show "\<exists>ms. find_metas svc f d = Ok ms \<and> distinct ms \<and> (\<forall>m. m \<in> set ms \<longleftrightarrow> MetaDoc m \<in> selected f (docs d))"
    and "\<exists>ms. find_messages svc f d = Ok ms \<and> distinct ms \<and> (\<forall>m. m \<in> set ms \<longleftrightarrow> MessageDoc m \<in> selected f (docs d))"
    by simp_all
qed

section \<open>The store and the abstract store\<close>

text \<open>
  \<open>mongo_inv\<close>: the sequence in use is in the database as the store has it and is the latest one, keys are unique, numbers fit, and no
  message belongs to a later sequence. \<open>mongo_rel\<close>: the abstract store it stands for.
\<close>

definition mongo_inv :: "document set \<Rightarrow> sequence_meta \<Rightarrow> bool" where
  "mongo_inv D cur \<longleftrightarrow> MetaDoc cur \<in> D \<and> keys_unique D \<and> (\<forall>x \<in> D. doc_fits x)
     \<and> (\<forall>m. MetaDoc m \<in> D \<longrightarrow> is_meta m \<and> object_id m \<le> object_id cur)
     \<and> (\<forall>m. MessageDoc m \<in> D \<longrightarrow> sequence_id m \<le> object_id cur)"

definition message_at :: "sequence_meta \<Rightarrow> u64 \<Rightarrow> bytes \<Rightarrow> document" where
  "message_at cur n x = MessageDoc \<lparr>sequence_id = object_id cur, msg_seq_number = n, doc_data = x\<rparr>"

definition mongo_rel :: "('d \<Rightarrow> document set) \<Rightarrow> 'd mongo_store \<Rightarrow> abs_store \<Rightarrow> bool" where
  "mongo_rel docs s a \<longleftrightarrow> mongo_inv (docs (mongo_db s)) (current_sequence s)
     \<and> abs_sender a = meta_sender_seq_number (current_sequence s)
     \<and> abs_target a = meta_target_seq_number (current_sequence s)
     \<and> abs_created a = mongo_creation_time s
     \<and> (\<forall>n x. abs_messages a n = Some x \<longleftrightarrow> message_at (current_sequence s) n x \<in> docs (mongo_db s))"

text \<open>What the database keeps of an operation: the time of a reset is cut to milliseconds. Numbers have to fit \<open>Int64\<close>.\<close>

definition op_stored :: "store_op \<Rightarrow> store_op" where
  "op_stored c = (case c of ResetAt now \<Rightarrow> ResetAt (bson_now now * 1000000) | _ \<Rightarrow> c)"

definition op_fits :: "store_op \<Rightarrow> abs_store \<Rightarrow> bool" where
  "op_fits c a = (case c of
      Add n _ \<Rightarrow> unat n < 2 ^ 63
    | IncrementSender \<Rightarrow> unat (abs_sender a + 1) < 2 ^ 63
    | IncrementTarget \<Rightarrow> unat (abs_target a + 1) < 2 ^ 63
    | SetTarget n \<Rightarrow> unat n < 2 ^ 63
    | ResetAt _ \<Rightarrow> True)"

fun ops_fit :: "store_op list \<Rightarrow> abs_store \<Rightarrow> bool" where
  "ops_fit [] a = True"
| "ops_fit (c # cs) a = (op_fits c a \<and> ops_fit cs (abs_op (op_stored c) a))"

lemma sint_u64:
  assumes "unat (n :: u64) < 2 ^ 63"
  shows "sint n = uint n"
proof -
  define k where "k = unat n"
  have n: "n = of_nat k" and k: "k < 2 ^ 63" using assms by (simp_all add: k_def)
  have "int k < 2 ^ 63" using k by (metis of_nat_less_iff of_nat_numeral of_nat_power)
  then have "sint n = int k" by (simp add: n signed_of_nat signed_take_bit_int_eq_self)
  moreover have "uint n = int k" by (simp add: k_def)
  ultimately show ?thesis by simp
qed

lemma is_message_at:
  "sequence_id m = object_id cur \<and> msg_seq_number m = n \<longleftrightarrow> (\<exists>y. m = \<lparr>sequence_id = object_id cur, msg_seq_number = n, doc_data = y\<rparr>)"
  by (cases m) auto

text \<open>The documents under the number \<open>n\<close> of the sequence in use: at most one.\<close>

definition at_number :: "sequence_meta \<Rightarrow> u64 \<Rightarrow> document set \<Rightarrow> document set" where
  "at_number cur n D = {z \<in> D. \<exists>m. z = MessageDoc m \<and> sequence_id m = object_id cur \<and> msg_seq_number m = n}"

lemma at_number_single: "mongo_inv D cur \<Longrightarrow> \<exists>y. at_number cur n D \<subseteq> {y}"
proof (cases "at_number cur n D = {}")
  case False
  assume inv: "mongo_inv D cur"
  from False obtain m where m: "MessageDoc m \<in> D" "sequence_id m = object_id cur" "msg_seq_number m = n" by (auto simp: at_number_def)
  have "z = MessageDoc m" if "z \<in> at_number cur n D" for z
    using that m inv by (auto simp: at_number_def mongo_inv_def keys_unique_def)
  then show ?thesis by blast
qed simp

lemma selected_message:
  assumes "unat n < 2 ^ 63"
  shows "selected (MessageIs (object_id cur) (sint n)) D = at_number cur n D"
proof -
  have "doc_matches (MessageIs (object_id cur) (sint n)) x
      \<longleftrightarrow> (\<exists>m. x = MessageDoc m \<and> sequence_id m = object_id cur \<and> msg_seq_number m = n)" for x
    by (cases x) (auto simp: sint_u64 [OF assms] word_uint_eq_iff)
  then show ?thesis by (simp add: selected_def at_number_def)
qed

lemma selected_current:
  assumes "mongo_inv D cur"
  shows "selected (IdIs (object_id cur)) D = {MetaDoc cur}"
proof -
  have "doc_matches (IdIs (object_id cur)) x \<longleftrightarrow> (\<exists>m. x = MetaDoc m \<and> object_id m = object_id cur)" for x by (cases x) auto
  then show ?thesis using assms by (auto simp: selected_def mongo_inv_def keys_unique_def)
qed

section \<open>Every operation\<close>

lemma add_inv:
  assumes "mongo_inv D cur" and "unat n < 2 ^ 63"
  shows "mongo_inv (insert (message_at cur n x) (D - at_number cur n D)) cur"
proof -
  let ?E = "insert (message_at cur n x) (D - at_number cur n D)"
  have meta: "MetaDoc m \<in> ?E \<longleftrightarrow> MetaDoc m \<in> D" for m by (auto simp: message_at_def at_number_def)
  have msg: "MessageDoc m \<in> ?E \<longleftrightarrow> MessageDoc m = message_at cur n x \<or>
      MessageDoc m \<in> D \<and> \<not> (sequence_id m = object_id cur \<and> msg_seq_number m = n)" for m by (auto simp: at_number_def)
  have "keys_unique ?E"
    using assms(1) unfolding keys_unique_def mongo_inv_def meta msg by (auto simp: message_at_def)
  moreover have "\<forall>z \<in> ?E. doc_fits z" using assms by (auto simp: mongo_inv_def message_at_def)
  ultimately show ?thesis using assms(1) unfolding mongo_inv_def meta msg by (auto simp: message_at_def)
qed

lemma mongo_add_rel:
  assumes doc: "mongo_documented svc docs" and rel: "mongo_rel docs s a" and n: "unat n < 2 ^ 63"
  shows "\<exists>s'. mongo_add svc n x s = (Ok (), s') \<and> mongo_rel docs s' (a\<lparr>abs_messages := (abs_messages a)(n \<mapsto> x)\<rparr>)"
proof -
  let ?D = "docs (mongo_db s)" and ?c = "current_sequence s"
  have inv: "mongo_inv ?D ?c" using rel by (simp add: mongo_rel_def)
  obtain y where "at_number ?c n ?D \<subseteq> {y}" using at_number_single [OF inv] by blast
  moreover have "doc_fits (message_at ?c n x)" using n by (simp add: message_at_def)
  ultimately obtain d' where d': "replace_one_upsert svc (MessageIs (object_id ?c) (sint n)) (message_at ?c n x) (mongo_db s) = (Ok (), d')"
    "docs d' = insert (message_at ?c n x) (?D - at_number ?c n ?D)"
    using doc selected_message [OF n] unfolding mongo_documented_def replace_law_def by metis
  have "message_at ?c k z \<in> docs d' \<longleftrightarrow> (if k = n then z = x else message_at ?c k z \<in> ?D)" for k z
    by (auto simp: d'(2) at_number_def message_at_def)
  then have "mongo_rel docs (s\<lparr>mongo_db := d'\<rparr>) (a\<lparr>abs_messages := (abs_messages a)(n \<mapsto> x)\<rparr>)"
    using rel add_inv [OF inv n, of x] by (simp add: mongo_rel_def mongo_creation_time_def d'(2) [symmetric]) auto
  with d'(1) show ?thesis by (simp add: mongo_add_def in_db_def comp_simps message_at_def)
qed

text \<open>Changing the counters of the sequence in use.\<close>

lemma update_inv:
  assumes inv: "mongo_inv D cur" and "object_id cur' = object_id cur" "is_meta cur' = is_meta cur" "doc_fits (MetaDoc cur')"
  shows "mongo_inv (insert (MetaDoc cur') (D - {MetaDoc cur})) cur'"
proof -
  let ?E = "insert (MetaDoc cur') (D - {MetaDoc cur})"
  have meta: "MetaDoc m \<in> ?E \<longleftrightarrow> m = cur' \<or> MetaDoc m \<in> D \<and> object_id m \<noteq> object_id cur" for m
    using inv by (auto simp: mongo_inv_def keys_unique_def)
  have msg: "MessageDoc m \<in> ?E \<longleftrightarrow> MessageDoc m \<in> D" for m by auto
  have "keys_unique ?E" using inv assms(2) unfolding keys_unique_def mongo_inv_def meta msg by auto
  then show ?thesis using assms unfolding mongo_inv_def meta msg by auto
qed

lemma mongo_update_rel:
  assumes doc: "mongo_documented svc docs" and rel: "mongo_rel docs s a"
    and ch: "doc_change u (MetaDoc (current_sequence s)) = MetaDoc (f (current_sequence s))"
    and keep: "object_id (f (current_sequence s)) = object_id (current_sequence s)" "is_meta (f (current_sequence s)) = is_meta (current_sequence s)"
      "bson_creation_time (f (current_sequence s)) = bson_creation_time (current_sequence s)"
    and fits: "doc_fits (MetaDoc (f (current_sequence s)))"
  shows "\<exists>s'. bind_comp (mongo_update svc u) (\<lambda>_. set_current f) s = (Ok (), s') \<and>
    mongo_rel docs s' (a\<lparr>abs_sender := meta_sender_seq_number (f (current_sequence s)), abs_target := meta_target_seq_number (f (current_sequence s))\<rparr>)"
proof -
  let ?D = "docs (mongo_db s)" and ?c = "current_sequence s"
  have inv: "mongo_inv ?D ?c" using rel by (simp add: mongo_rel_def)
  obtain d' where d': "update_one svc (IdIs (object_id ?c)) u (mongo_db s) = (Ok (), d')"
    "docs d' = insert (MetaDoc (f ?c)) (?D - {MetaDoc ?c})"
    using doc selected_current [OF inv] ch fits unfolding mongo_documented_def update_law_def by metis
  have "message_at (f ?c) k z \<in> docs d' \<longleftrightarrow> message_at ?c k z \<in> ?D" for k z
    by (auto simp: d'(2) message_at_def keep)
  moreover have "mongo_inv (docs d') (f ?c)" unfolding d'(2) using update_inv [OF inv] keep fits by blast
  ultimately have "mongo_rel docs (s\<lparr>mongo_db := d', current_sequence := f ?c\<rparr>)
      (a\<lparr>abs_sender := meta_sender_seq_number (f ?c), abs_target := meta_target_seq_number (f ?c)\<rparr>)"
    using rel by (simp add: mongo_rel_def mongo_creation_time_def keep)
  with d'(1) show ?thesis by (simp add: mongo_update_def set_current_def in_db_def comp_simps)
qed

abbreviation fresh_meta :: "object_id \<Rightarrow> utc \<Rightarrow> sequence_meta" where
  "fresh_meta i now \<equiv> \<lparr>object_id = i, is_meta = True, bson_creation_time = bson_now now, meta_sender_seq_number = 0, meta_target_seq_number = 0\<rparr>"

lemma new_sequence_inv:
  assumes doc: "mongo_documented svc docs"
    and D: "keys_unique (docs d)" "\<forall>x \<in> docs d. doc_fits x" "\<forall>m. MetaDoc m \<in> docs d \<longrightarrow> is_meta m"
      "\<forall>i d' m. object_id_new svc d = (i, d') \<longrightarrow> MessageDoc m \<in> docs d \<longrightarrow> sequence_id m < i"
  shows "\<exists>i d'. new_sequence svc now d = (Ok (fresh_meta i now), d')
    \<and> mongo_inv (docs d') (fresh_meta i now)
    \<and> (\<forall>m. MessageDoc m \<in> docs d' \<longrightarrow> sequence_id m < i)"
proof -
  obtain i d1 where i: "object_id_new svc d = (i, d1)" by fastforce
  then have d1: "docs d1 = docs d" and fresh: "\<forall>m. MetaDoc m \<in> docs d \<longrightarrow> object_id m < i"
    using doc by (auto simp: mongo_documented_def object_id_law_def)
  let ?m = "fresh_meta i now"
  have "keys_unique (insert (MetaDoc ?m) (docs d1))"
    using D(1) fresh unfolding keys_unique_def d1 by fastforce
  moreover have "doc_fits (MetaDoc ?m)" by simp
  ultimately obtain d' where d': "insert_one svc (MetaDoc ?m) d1 = (Ok (), d')" "docs d' = insert (MetaDoc ?m) (docs d)"
    using doc d1 unfolding mongo_documented_def insert_law_def by metis
  have "new_sequence svc now d = (Ok ?m, d')" by (simp add: new_sequence_def i d' comp_simps)
  moreover have "mongo_inv (docs d') ?m"
    using \<open>keys_unique (insert (MetaDoc ?m) (docs d1))\<close> D(2,3) D(4) i fresh unfolding mongo_inv_def d' d1 by fastforce
  moreover have "\<forall>m. MessageDoc m \<in> docs d' \<longrightarrow> sequence_id m < i" using D(4) i d'(2) by auto
  ultimately show ?thesis by blast
qed

lemma mongo_reset_rel:
  assumes doc: "mongo_documented svc docs" and rel: "mongo_rel docs s a"
  shows "\<exists>s'. mongo_reset svc now s = (Ok (), s') \<and> mongo_rel docs s'
    \<lparr>abs_sender = 0, abs_target = 0, abs_created = bson_now now * 1000000, abs_messages = Map.empty\<rparr>"
proof -
  have inv: "mongo_inv (docs (mongo_db s)) (current_sequence s)" using rel by (simp add: mongo_rel_def)
  have old: "\<forall>i d' m. object_id_new svc (mongo_db s) = (i, d') \<longrightarrow> MessageDoc m \<in> docs (mongo_db s) \<longrightarrow> sequence_id m < i"
    using doc inv unfolding mongo_documented_def object_id_law_def mongo_inv_def by (meson order.strict_trans1)
  obtain i d' where d': "new_sequence svc now (mongo_db s) = (Ok (fresh_meta i now), d')"
    "mongo_inv (docs d') (fresh_meta i now)" "\<forall>m. MessageDoc m \<in> docs d' \<longrightarrow> sequence_id m < i"
    using new_sequence_inv [OF doc, of "mongo_db s" now] old inv unfolding mongo_inv_def by blast
  then show ?thesis
    by (fastforce simp: mongo_reset_def in_db_def set_current_def comp_simps mongo_rel_def mongo_creation_time_def message_at_def)
qed

lemma apply_op_rel:
  assumes doc: "mongo_documented svc docs" and rel: "mongo_rel docs s a" and fits: "op_fits c a"
  shows "\<exists>s'. apply_op (MongoDbMessageStore svc) c s = (Ok (), s') \<and> mongo_rel docs s' (abs_op (op_stored c) a)"
proof -
  let ?c = "current_sequence s"
  have a: "a\<lparr>abs_sender := x, abs_target := meta_target_seq_number ?c\<rparr> = a\<lparr>abs_sender := x\<rparr>"
    "a\<lparr>abs_sender := meta_sender_seq_number ?c, abs_target := x\<rparr> = a\<lparr>abs_target := x\<rparr>" for x
    using rel by (cases a; simp add: mongo_rel_def)+
  have cur: "unat (meta_sender_seq_number ?c) < 2 ^ 63" "unat (meta_target_seq_number ?c) < 2 ^ 63"
    using rel by (auto simp: mongo_rel_def mongo_inv_def)
  have eq: "abs_sender a = meta_sender_seq_number ?c" "abs_target a = meta_target_seq_number ?c" using rel by (simp_all add: mongo_rel_def)
  show ?thesis
  proof (cases c)
    case (Add n x)
    then show ?thesis using mongo_add_rel [OF doc rel] fits by (simp add: apply_op_def MongoDbMessageStore_def abs_op_def op_stored_def op_fits_def)
  next
    case IncrementSender
    then show ?thesis
      using mongo_update_rel [OF doc rel, of "Inc SenderField 1" "\<lambda>c. c\<lparr>meta_sender_seq_number := meta_sender_seq_number c + 1\<rparr>"] fits cur
      by (simp add: apply_op_def MongoDbMessageStore_def mongo_increment_sender_def abs_op_def op_stored_def op_fits_def a eq)
  next
    case IncrementTarget
    then show ?thesis
      using mongo_update_rel [OF doc rel, of "Inc TargetField 1" "\<lambda>c. c\<lparr>meta_target_seq_number := meta_target_seq_number c + 1\<rparr>"] fits cur
      by (simp add: apply_op_def MongoDbMessageStore_def mongo_increment_target_def abs_op_def op_stored_def op_fits_def a eq)
  next
    case (SetTarget n)
    have "(of_int (sint n) :: u64) = n" by simp
    with SetTarget show ?thesis
      using mongo_update_rel [OF doc rel, of "SetTo TargetField (sint n)" "\<lambda>c. c\<lparr>meta_target_seq_number := n\<rparr>"] fits cur
      by (simp add: apply_op_def MongoDbMessageStore_def mongo_set_target_def abs_op_def op_stored_def op_fits_def a eq)
  next
    case (ResetAt now)
    then show ?thesis using mongo_reset_rel [OF doc rel]
      by (simp add: apply_op_def MongoDbMessageStore_def abs_op_def op_stored_def)
  qed
qed

lemma run_ops_rel:
  assumes "mongo_documented svc docs" "mongo_rel docs s a" "ops_fit cs a"
  shows "\<exists>s'. run_ops (MongoDbMessageStore svc) cs s = (Ok (), s') \<and> mongo_rel docs s' (fold (\<lambda>c. abs_op (op_stored c)) cs a)"
  using assms
proof (induction cs arbitrary: s a)
  case (Cons c cs)
  obtain s1 where s1: "apply_op (MongoDbMessageStore svc) c s = (Ok (), s1)" "mongo_rel docs s1 (abs_op (op_stored c) a)"
    using apply_op_rel [OF Cons.prems(1,2), of c] Cons.prems(3) by auto
  with Cons.IH [OF Cons.prems(1) s1(2)] Cons.prems(3) show ?case by (simp add: comp_simps)
qed (simp add: comp_simps)

section \<open>Reading a range\<close>

lemma distinct_seq_range: "distinct (seq_range b e)"
proof -
  have "inj_on (of_nat :: nat \<Rightarrow> u64) {unat b..<Suc (unat e)}"
  proof (rule inj_onI)
    fix i j
    assume "i \<in> {unat b..<Suc (unat e)}" "j \<in> {unat b..<Suc (unat e)}" and eq: "(of_nat i :: u64) = of_nat j"
    then have "i < 2 ^ 64" "j < 2 ^ 64" using unsigned_less [of e, where ?'a = nat] by auto
    with arg_cong [OF eq, of unat] show "i = j" by (simp add: unat_of_nat)
  qed
  then show ?thesis unfolding seq_range_def distinct_map set_upt by (intro conjI distinct_upt)
qed

lemma set_seq_range: "n \<in> set (seq_range b e) \<longleftrightarrow> b \<le> n \<and> n \<le> e"
proof
  assume "n \<in> set (seq_range b e)"
  then obtain k where "n = of_nat k" "unat b \<le> k" "k \<le> unat e" by (auto simp: seq_range_def)
  moreover from this have "unat n = k" using unsigned_less [of e, where ?'a = nat] by (simp add: unat_of_nat)
  ultimately show "b \<le> n \<and> n \<le> e" by (simp add: word_le_nat_alt)
next
  assume "b \<le> n \<and> n \<le> e"
  then have "n = of_nat (unat n)" "unat n \<in> set [unat b..<Suc (unat e)]" by (auto simp: word_le_nat_alt)
  then show "n \<in> set (seq_range b e)" unfolding seq_range_def set_map by (rule image_eqI)
qed

text \<open>The messages of a map in a range, with their numbers.\<close>

definition by_number :: "(u64 \<rightharpoonup> bytes) \<Rightarrow> u64 list \<Rightarrow> (u64 \<times> bytes) list" where
  "by_number ms ns = List.map_filter (\<lambda>n. map_option (Pair n) (ms n)) ns"

lemma numbered_simps:
  "by_number ms [] = []" "by_number ms (n # ns) = (case ms n of None \<Rightarrow> by_number ms ns | Some x \<Rightarrow> (n, x) # by_number ms ns)"
  by (auto simp: by_number_def map_filter_simps split: option.split)

lemma slice_numbered: "List.map_filter ms ns = map snd (by_number ms ns)"
  by (induction ns) (auto simp: numbered_simps map_filter_simps split: option.split)

lemma set_numbered: "set (by_number ms ns) = {(n, x). n \<in> set ns \<and> ms n = Some x}"
  by (induction ns) (auto simp: numbered_simps split: option.splits)

lemma distinct_numbered: "distinct ns \<Longrightarrow> distinct (by_number ms ns)"
  by (induction ns) (auto simp: numbered_simps set_numbered split: option.split)

lemma selected_between:
  assumes "unat b < 2 ^ 63" "unat e < 2 ^ 63"
  shows "MessageDoc m \<in> selected (MessageBetween i (sint b) (sint e)) D
    \<longleftrightarrow> MessageDoc m \<in> D \<and> sequence_id m = i \<and> msg_seq_number m \<in> set (seq_range b e)"
  by (auto simp: selected_def sint_u64 [OF assms(1)] sint_u64 [OF assms(2)] set_seq_range word_le_def)

lemma get_slice_rel:
  assumes doc: "mongo_documented svc docs" and rel: "mongo_rel docs s a" and b: "unat b < 2 ^ 63" "unat e < 2 ^ 63"
  shows "\<exists>ms. store_get_slice (MongoDbMessageStore svc) b e s = Ok ms \<and> mset ms = mset (slice_of (abs_messages a) b e)"
proof -
  let ?D = "docs (mongo_db s)" and ?c = "current_sequence s"
  let ?key = "\<lambda>m. (msg_seq_number m, doc_data m)"
  obtain ms where ms: "find_messages svc (MessageBetween (object_id ?c) (sint b) (sint e)) (mongo_db s) = Ok ms" "distinct ms"
    and mem: "\<And>m. m \<in> set ms \<longleftrightarrow> MessageDoc m \<in> selected (MessageBetween (object_id ?c) (sint b) (sint e)) ?D"
    using find_found(2) [OF doc, of "MessageBetween (object_id ?c) (sint b) (sint e)" "mongo_db s"] by blast
  have key: "m = \<lparr>sequence_id = object_id ?c, msg_seq_number = fst (?key m), doc_data = snd (?key m)\<rparr>" if "m \<in> set ms" for m
    using that by (simp add: mem selected_between [OF b])
  have "inj_on ?key (set ms)" by (rule inj_onI) (metis key)
  then have "distinct (map ?key ms)" using ms(2) by (simp add: distinct_map)
  moreover have "set (map ?key ms) = set (by_number (abs_messages a) (seq_range b e))"
  proof (rule set_eqI)
    fix p :: "u64 \<times> bytes"
    obtain n x where p: "p = (n, x)" by (cases p)
    have "p \<in> set (map ?key ms) \<longleftrightarrow> \<lparr>sequence_id = object_id ?c, msg_seq_number = n, doc_data = x\<rparr> \<in> set ms"
      using key by (force simp: p image_iff)
    also have "\<dots> \<longleftrightarrow> abs_messages a n = Some x \<and> n \<in> set (seq_range b e)"
      using rel by (auto simp: mem selected_between [OF b] mongo_rel_def message_at_def)
    finally show "p \<in> set (map ?key ms) \<longleftrightarrow> p \<in> set (by_number (abs_messages a) (seq_range b e))" by (auto simp: p set_numbered)
  qed
  ultimately have "mset (map ?key ms) = mset (by_number (abs_messages a) (seq_range b e))"
    using distinct_numbered [OF distinct_seq_range] set_eq_iff_mset_eq_distinct by blast
  then have "image_mset snd (mset (map ?key ms)) = image_mset snd (mset (by_number (abs_messages a) (seq_range b e)))" by (rule arg_cong)
  then have "mset (map doc_data ms) = mset (slice_of (abs_messages a) b e)"
    by (simp add: slice_of_def slice_numbered multiset.map_comp comp_def)
  then show ?thesis by (simp add: MongoDbMessageStore_def mongo_get_slice_def ms(1))
qed

section \<open>Opening and cleaning up\<close>

lemma latest_is_current:
  assumes doc: "mongo_documented svc docs" and inv: "mongo_inv (docs d) cur"
  shows "find_latest_meta svc MetaIsTrue d = Ok (Some cur)"
proof -
  obtain r where r: "find_latest_meta svc MetaIsTrue d = Ok r" "case r of None \<Rightarrow> \<forall>m. MetaDoc m \<notin> selected MetaIsTrue (docs d)
      | Some m \<Rightarrow> MetaDoc m \<in> selected MetaIsTrue (docs d) \<and> (\<forall>m'. MetaDoc m' \<in> selected MetaIsTrue (docs d) \<longrightarrow> object_id m' \<le> object_id m)"
    using doc unfolding mongo_documented_def find_law_def by blast
  have cur: "MetaDoc cur \<in> selected MetaIsTrue (docs d)" using inv by (simp add: selected_def mongo_inv_def)
  then obtain m where m: "r = Some m" using r(2) by (cases r) auto
  have "MetaDoc m \<in> docs d" "object_id m = object_id cur"
    using r(2) cur inv by (auto simp: m selected_def mongo_inv_def intro: antisym)
  then have "m = cur" using inv by (auto simp: mongo_inv_def keys_unique_def)
  with r(1) m show ?thesis by simp
qed

text \<open>The sequences a clean-up removes, and what it leaves.\<close>

definition outdated :: "int \<Rightarrow> object_id \<Rightarrow> document set \<Rightarrow> sequence_meta set" where
  "outdated cutoff i D = {m. MetaDoc m \<in> D \<and> is_meta m \<and> bson_creation_time m < cutoff \<and> object_id m \<noteq> i}"

definition kept :: "sequence_meta set \<Rightarrow> document set \<Rightarrow> document set" where
  "kept M D = {x \<in> D. case x of MetaDoc m \<Rightarrow> object_id m \<notin> object_id ` M | MessageDoc m \<Rightarrow> sequence_id m \<notin> object_id ` M}"

lemma kept_iff:
  "MetaDoc m \<in> kept M D \<longleftrightarrow> MetaDoc m \<in> D \<and> object_id m \<notin> object_id ` M"
  "MessageDoc x \<in> kept M D \<longleftrightarrow> MessageDoc x \<in> D \<and> sequence_id x \<notin> object_id ` M"
  by (simp_all add: kept_def)

lemma document_set_eqI:
  "(\<And>m. MetaDoc m \<in> A \<longleftrightarrow> MetaDoc m \<in> B) \<Longrightarrow> (\<And>m. MessageDoc m \<in> A \<longleftrightarrow> MessageDoc m \<in> B) \<Longrightarrow> A = B"
  by (metis document.exhaust set_eqI)

lemma kept_empty: "kept {} D = D"
  by (rule document_set_eqI) (simp_all add: kept_iff)

lemma cleanup_inner:
  assumes doc: "mongo_documented svc docs" and inv: "mongo_inv (docs d) cur"
  shows "\<exists>d'. cleanup_older_than_inner svc now age (Some (object_id cur)) d
      = (Ok (card (outdated ((now - age) div 1000000) (object_id cur) (docs d))), d')
    \<and> docs d' = kept (outdated ((now - age) div 1000000) (object_id cur) (docs d)) (docs d)"
proof -
  let ?D = "docs d" and ?cut = "(now - age) div 1000000"
  let ?M = "outdated ?cut (object_id cur) ?D"
  obtain ms where ms: "find_metas svc (OlderMeta ?cut (Some (object_id cur))) d = Ok ms" "distinct ms"
    and mem: "\<And>m. m \<in> set ms \<longleftrightarrow> MetaDoc m \<in> selected (OlderMeta ?cut (Some (object_id cur))) ?D"
    using find_found(1) [OF doc, of "OlderMeta ?cut (Some (object_id cur))" d] by blast
  have M: "set ms = ?M" by (auto simp: mem selected_def outdated_def)
  let ?ids = "map object_id ms"
  show ?thesis
  proof (cases "ms = []")
    case True
    then have "?M = {}" using M by simp
    then show ?thesis using True ms(1) by (simp add: cleanup_older_than_inner_def reads_def comp_simps kept_empty)
  next
    case False
    obtain d1 where d1: "delete_many svc (SequenceIn ?ids) d = (Ok (card (selected (SequenceIn ?ids) ?D)), d1)"
      "docs d1 = ?D - selected (SequenceIn ?ids) ?D"
      using doc unfolding mongo_documented_def delete_law_def by metis
    obtain d2 where d2: "delete_many svc (IdIn ?ids) d1 = (Ok (card (selected (IdIn ?ids) (docs d1))), d2)"
      "docs d2 = docs d1 - selected (IdIn ?ids) (docs d1)"
      using doc unfolding mongo_documented_def delete_law_def by metis
    have seqs: "doc_matches (SequenceIn ?ids) x \<longleftrightarrow> (\<exists>m. x = MessageDoc m \<and> sequence_id m \<in> object_id ` ?M)"
      and metas: "doc_matches (IdIn ?ids) x \<longleftrightarrow> (\<exists>m. x = MetaDoc m \<and> object_id m \<in> object_id ` ?M)" for x
      by (cases x; simp add: M)+
    have "docs d2 = kept ?M ?D"
      by (rule document_set_eqI) (auto simp: d1(2) d2(2) kept_iff selected_def seqs metas)
    moreover have "selected (IdIn ?ids) (docs d1) = MetaDoc ` ?M"
      using inv by (auto simp: d1(2) selected_def seqs metas outdated_def mongo_inv_def keys_unique_def)
    moreover have "card (MetaDoc ` ?M) = card ?M" by (intro card_image inj_onI) simp
    ultimately show ?thesis
      using False ms(1) d1(1) d2(1) by (simp add: cleanup_older_than_inner_def reads_def comp_simps Let_def)
  qed
qed

lemma kept_inv:
  assumes "mongo_inv D cur"
  shows "mongo_inv (kept (outdated cutoff (object_id cur) D) D) cur"
    and "message_at cur n x \<in> kept (outdated cutoff (object_id cur) D) D \<longleftrightarrow> message_at cur n x \<in> D"
  using assms by (auto simp: mongo_inv_def kept_def outdated_def keys_unique_def message_at_def)

section \<open>Properties\<close>


text \<open>Restarting on the same database: \<open>MongoDbMessageStore::new\<close> finds the sequence that was in use and continues it; on an empty collection it
  begins one.\<close>

theorem mongo_store_reopen:
  assumes doc: "mongo_documented svc docs" and rel: "mongo_rel docs s a"
  shows "\<exists>s'. MongoDbMessageStore_new svc now (mongo_db s) = (Ok s', mongo_db s')
    \<and> current_sequence s' = current_sequence s \<and> mongo_rel docs s' a"
proof -
  have inv: "mongo_inv (docs (mongo_db s)) (current_sequence s)" using rel by (simp add: mongo_rel_def)
  then obtain d' where d': "create_indexes svc (mongo_db s) = (Ok (), d')" "docs d' = docs (mongo_db s)"
    using doc unfolding mongo_documented_def index_law_def mongo_inv_def by blast
  have "mongo_rel docs \<lparr>mongo_db = d', current_sequence = current_sequence s\<rparr> a"
    using rel by (simp add: mongo_rel_def d'(2) mongo_creation_time_def)
  then show ?thesis
    using d'(1) by (simp add: MongoDbMessageStore_new_def mongo_new_inner_def get_or_default_sequence_def reads_def comp_simps
        latest_is_current [OF doc inv])
qed

lemma first_open:
  assumes doc: "mongo_documented svc docs" and "docs d = {}"
  shows "\<exists>s. MongoDbMessageStore_new svc now d = (Ok s, mongo_db s) \<and> mongo_rel docs s
    \<lparr>abs_sender = 0, abs_target = 0, abs_created = bson_now now * 1000000, abs_messages = Map.empty\<rparr>"
proof -
  obtain r where r: "find_latest_meta svc MetaIsTrue d = Ok r" "case r of None \<Rightarrow> \<forall>m. MetaDoc m \<notin> selected MetaIsTrue (docs d)
      | Some m \<Rightarrow> MetaDoc m \<in> selected MetaIsTrue (docs d) \<and> (\<forall>m'. MetaDoc m' \<in> selected MetaIsTrue (docs d) \<longrightarrow> object_id m' \<le> object_id m)"
    using doc unfolding mongo_documented_def find_law_def by blast
  then have none: "find_latest_meta svc MetaIsTrue d = Ok None" using assms(2) by (cases r) (auto simp: selected_def)
  obtain i d1 where d1: "new_sequence svc now d = (Ok (fresh_meta i now), d1)" "mongo_inv (docs d1) (fresh_meta i now)"
    "\<forall>m. MessageDoc m \<in> docs d1 \<longrightarrow> sequence_id m < i"
    using new_sequence_inv [OF doc, of d now] assms(2) by (auto simp: keys_unique_def)
  then obtain d2 where d2: "create_indexes svc d1 = (Ok (), d2)" "docs d2 = docs d1"
    using doc unfolding mongo_documented_def index_law_def mongo_inv_def by blast
  show ?thesis
    using d1 d2 by (fastforce simp: MongoDbMessageStore_new_def mongo_new_inner_def get_or_default_sequence_def reads_def comp_simps none
        mongo_rel_def mongo_creation_time_def message_at_def)
qed


text \<open>A failing database leaves the counters of the store as they were.\<close>

theorem mongo_failure_keeps_counters:
  assumes "\<And>f u d. fst (update_one svc f u d) \<noteq> Ok ()"
  shows "current_sequence (snd (apply_op (MongoDbMessageStore svc) c s)) = current_sequence s
    \<or> (\<exists>now. c = ResetAt now)"
proof -
  have "current_sequence (snd (bind_comp (mongo_update svc u) (\<lambda>_. set_current f) s)) = current_sequence s" for u f
    using assms [of "IdIs (object_id (current_sequence s))" u "mongo_db s"]
    by (auto simp: mongo_update_def in_db_def comp_simps split: prod.splits outcome.splits)
  moreover have "current_sequence (snd (mongo_add svc n x s)) = current_sequence s" for n x
    by (auto simp: mongo_add_def in_db_def comp_simps split: prod.splits outcome.splits)
  ultimately show ?thesis
    by (cases c) (simp_all add: apply_op_def MongoDbMessageStore_def mongo_increment_sender_def mongo_increment_target_def mongo_set_target_def)
qed

section \<open>A database that behaves as documented\<close>

text \<open>A collection as the list of its documents.\<close>

definition list_metas :: "document list \<Rightarrow> sequence_meta list" where
  "list_metas d = List.map_filter (\<lambda>x. case x of MetaDoc m \<Rightarrow> Some m | MessageDoc _ \<Rightarrow> None) d"

definition list_messages :: "document list \<Rightarrow> message_doc list" where
  "list_messages d = List.map_filter (\<lambda>x. case x of MetaDoc _ \<Rightarrow> None | MessageDoc m \<Rightarrow> Some m) d"

fun latest_of :: "sequence_meta list \<Rightarrow> sequence_meta option" where
  "latest_of [] = None"
| "latest_of (m # ms) = (case latest_of ms of None \<Rightarrow> Some m | Some n \<Rightarrow> if object_id m \<le> object_id n then Some n else Some m)"

definition list_mongo :: "document list mongo" where
  "list_mongo = \<lparr>object_id_new = (\<lambda>d. (Suc (foldr (\<lambda>m. max (object_id m)) (list_metas d) 0), d)),
     insert_one = (\<lambda>x d. (Ok (), x # d)),
     replace_one_upsert = (\<lambda>f x d. (Ok (), x # filter (\<lambda>y. \<not> doc_matches f y) d)),
     update_one = (\<lambda>f u d. (Ok (), map (\<lambda>y. if doc_matches f y then doc_change u y else y) d)),
     delete_many = (\<lambda>f d. (Ok (length (remdups (filter (doc_matches f) d))), filter (\<lambda>y. \<not> doc_matches f y) d)),
     find_latest_meta = (\<lambda>f d. Ok (latest_of (list_metas (filter (doc_matches f) d)))),
     find_metas = (\<lambda>f d. Ok (remdups (list_metas (filter (doc_matches f) d)))),
     find_messages = (\<lambda>f d. Ok (remdups (list_messages (filter (doc_matches f) d)))),
     create_indexes = (\<lambda>d. (Ok (), d))\<rparr>"

lemma set_list_metas: "m \<in> set (list_metas d) \<longleftrightarrow> MetaDoc m \<in> set d" "x \<in> set (list_messages d) \<longleftrightarrow> MessageDoc x \<in> set d"
  by (induction d) (auto simp: list_metas_def list_messages_def map_filter_simps split: document.splits option.splits)

lemma latest_of_spec: "case latest_of ms of None \<Rightarrow> ms = [] | Some m \<Rightarrow> m \<in> set ms \<and> (\<forall>n \<in> set ms. object_id n \<le> object_id m)"
  by (induction ms) (auto split: option.splits)

lemma foldr_max: "m \<in> set ms \<Longrightarrow> object_id m \<le> foldr (\<lambda>m. max (object_id m)) ms 0"
  by (induction ms) auto

lemma list_mongo_documented: "mongo_documented list_mongo set"
proof -
  have ids: "object_id_law list_mongo set"
    by (auto simp: object_id_law_def list_mongo_def less_Suc_eq_le foldr_max set_list_metas)
  have "insert_law list_mongo set" "index_law list_mongo set" "replace_law list_mongo set" "delete_law list_mongo set"
    by (auto simp: insert_law_def index_law_def replace_law_def delete_law_def list_mongo_def selected_def length_remdups_card_conv)
  moreover have "update_law list_mongo set"
  proof -
    have "(\<lambda>x. if doc_matches f x then doc_change u x else x) ` set d = insert (doc_change u y) (set d - {y})"
      if "selected f (set d) = {y}" for d f u y
    proof -
      have m: "x \<in> set d \<Longrightarrow> doc_matches f x \<longleftrightarrow> x = y" and y: "y \<in> set d" for x using that by (auto simp: selected_def)
      have "(\<lambda>x. if doc_matches f x then doc_change u x else x) ` set d = (\<lambda>x. if x = y then doc_change u y else x) ` set d"
        by (rule image_cong) (auto simp: m)
      also have "\<dots> = insert (doc_change u y) (set d - {y})" using y by auto
      finally show ?thesis .
    qed
    then show ?thesis by (simp add: update_law_def list_mongo_def)
  qed
  moreover have "find_law list_mongo set"
  proof -
    have "case latest_of (list_metas (filter (doc_matches f) d)) of None \<Rightarrow> \<forall>m. MetaDoc m \<notin> selected f (set d)
        | Some m \<Rightarrow> MetaDoc m \<in> selected f (set d) \<and> (\<forall>m'. MetaDoc m' \<in> selected f (set d) \<longrightarrow> object_id m' \<le> object_id m)" for f d
      using latest_of_spec [of "list_metas (filter (doc_matches f) d)"] set_list_metas(1) [of _ "filter (doc_matches f) d"]
      by (auto simp: selected_def split: option.splits)
    then show ?thesis by (auto simp: find_law_def list_mongo_def set_list_metas selected_def)
  qed
  ultimately show ?thesis using ids by (simp add: mongo_documented_def)
qed

lemma empty_mongo_rel:
  "\<exists>s. MongoDbMessageStore_new list_mongo now [] = (Ok s, mongo_db s) \<and> mongo_rel set s
    \<lparr>abs_sender = 0, abs_target = 0, abs_created = bson_now now * 1000000, abs_messages = Map.empty\<rparr>"
  using first_open [OF list_mongo_documented, of "[]" now] by simp


definition two_sequences :: "document list mongo_store" where
  "two_sequences = \<lparr>mongo_db = [MetaDoc (fresh_meta 1 0), MessageDoc \<lparr>sequence_id = 1, msg_seq_number = 1, doc_data = ''a''\<rparr>,
     MetaDoc (fresh_meta 2 9000000000)], current_sequence = fresh_meta 2 9000000000\<rparr>"

lemma two_sequences_rel:
  "mongo_rel set two_sequences \<lparr>abs_sender = 0, abs_target = 0, abs_created = 9000000000, abs_messages = Map.empty\<rparr>"
  by (auto simp: two_sequences_def mongo_rel_def mongo_inv_def keys_unique_def message_at_def mongo_creation_time_def bson_now_def)


end
