(* ===== verification/Session_Schedule.thy ===== *)
theory Session_Schedule
  imports Store
begin

text \<open>
  Session schedules, \<^verbatim>\<open>hotfix/src/session_schedule.rs\<close>, with the part of \<^verbatim>\<open>config.rs\<close> they are made from. A date is
  its number of days after Monday 1 January 1 (so its weekday is the number modulo seven), a time of day
  is seconds and nanoseconds as \<open>chrono\<close> keeps them. Time zones are not under \<^verbatim>\<open>src\<close>: the record \<open>tz_ops\<close>
  holds what the code asks of them, and the locale \<open>timezone_laws\<close> what the theorems need.
\<close>

section \<open>Dates and times\<close>

type_synonym naive_date = int

datatype naive_time = NaiveTime (secs: nat) (frac: nat)

instantiation naive_time :: linorder
begin

definition less_eq_naive_time :: "naive_time \<Rightarrow> naive_time \<Rightarrow> bool" where
  "less_eq_naive_time a b \<longleftrightarrow> secs a < secs b \<or> secs a = secs b \<and> frac a \<le> frac b"

definition less_naive_time :: "naive_time \<Rightarrow> naive_time \<Rightarrow> bool" where
  "less_naive_time a b \<longleftrightarrow> secs a < secs b \<or> secs a = secs b \<and> frac a < frac b"

instance
  by standard (auto simp: less_eq_naive_time_def less_naive_time_def naive_time.expand)

end

text \<open>\<open>Weekday\<close> as \<open>num_days_from_monday\<close>.\<close>

type_synonym weekday = nat

definition weekday_of :: "naive_date \<Rightarrow> weekday" where
  "weekday_of d = nat (d mod 7)"

definition weekday_pred :: "weekday \<Rightarrow> weekday" where
  "weekday_pred w = (w + 6) mod 7"

text \<open>\<open>with_timezone\<close>, \<open>and_local_timezone(..).single()\<close> and the range of \<open>NaiveDate\<close>.\<close>

record 'tz tz_ops =
  with_timezone :: "'tz \<Rightarrow> utc \<Rightarrow> naive_date \<times> naive_time"
  local_single :: "'tz \<Rightarrow> naive_date \<Rightarrow> naive_time \<Rightarrow> utc option"
  tz_utc :: 'tz
  date_min :: naive_date
  date_max :: naive_date

definition checked_add_days :: "('tz, 'b) tz_ops_scheme \<Rightarrow> naive_date \<Rightarrow> nat \<Rightarrow> naive_date option" where
  "checked_add_days z d n = (if d + int n \<le> date_max z then Some (d + int n) else None)"

definition checked_sub_days :: "('tz, 'b) tz_ops_scheme \<Rightarrow> naive_date \<Rightarrow> nat \<Rightarrow> naive_date option" where
  "checked_sub_days z d n = (if date_min z \<le> d - int n then Some (d - int n) else None)"

section \<open>Schedules\<close>

datatype which_time = First | Second | Both

datatype session_period_comparison = SamePeriod | DifferentPeriod | OutsideSessionTime which_time

datatype 'tz schedule_error =
    AmbiguousOrMissingTime naive_date naive_time 'tz
  | DateCalculationOverflow string

datatype 'tz session_schedule =
    NonStop
  | Daily naive_time naive_time 'tz
  | Weekdays naive_time naive_time "weekday list" 'tz
  | Weekly weekday naive_time weekday naive_time 'tz

record 'tz schedule_config =
  cfg_start_time :: "naive_time option"
  cfg_end_time :: "naive_time option"
  cfg_start_day :: "weekday option"
  cfg_end_day :: "weekday option"
  cfg_weekdays :: "weekday list"
  cfg_timezone :: "'tz option"

definition check_daily_schedule :: "naive_date \<times> naive_time \<Rightarrow> naive_time \<Rightarrow> naive_time \<Rightarrow> bool" where
  "check_daily_schedule dt start_time end_time =
     (if start_time < end_time then start_time \<le> snd dt \<and> snd dt < end_time
      else start_time \<le> snd dt \<or> snd dt < end_time)"

definition check_weekdays_schedule ::
    "naive_date \<times> naive_time \<Rightarrow> weekday list \<Rightarrow> naive_time \<Rightarrow> naive_time \<Rightarrow> bool" where
  "check_weekdays_schedule dt weekdays start_time end_time =
     (let time_of_day = snd dt; day = weekday_of (fst dt) in
      if start_time < end_time then day \<in> set weekdays \<and> start_time \<le> time_of_day \<and> time_of_day < end_time
      else if end_time \<le> time_of_day \<and> time_of_day < start_time then False
      else (if start_time \<le> time_of_day then day else weekday_pred day) \<in> set weekdays)"

definition weekly_seconds :: "weekday \<Rightarrow> naive_time \<Rightarrow> nat" where
  "weekly_seconds day t = day * 86400 + secs t"

definition check_weekly_schedule ::
    "naive_date \<times> naive_time \<Rightarrow> weekday \<Rightarrow> naive_time \<Rightarrow> weekday \<Rightarrow> naive_time \<Rightarrow> bool" where
  "check_weekly_schedule dt start_day start_time end_day end_time =
     (let start_pos = weekly_seconds start_day start_time;
          end_pos = weekly_seconds end_day end_time;
          now_pos = weekly_seconds (weekday_of (fst dt)) (snd dt)
      in if start_pos < end_pos then start_pos \<le> now_pos \<and> now_pos < end_pos
         else start_pos \<le> now_pos \<or> now_pos < end_pos)"

definition is_active_at :: "('tz, 'b) tz_ops_scheme \<Rightarrow> 'tz session_schedule \<Rightarrow> utc \<Rightarrow> bool" where
  "is_active_at z s u = (case s of
      NonStop \<Rightarrow> True
    | Daily st et tz \<Rightarrow> check_daily_schedule (with_timezone z tz u) st et
    | Weekdays st et ws tz \<Rightarrow> check_weekdays_schedule (with_timezone z tz u) ws st et
    | Weekly sd st ed et tz \<Rightarrow> check_weekly_schedule (with_timezone z tz u) sd st ed et)"

definition construct_utc ::
    "('tz, 'b) tz_ops_scheme \<Rightarrow> naive_date \<Rightarrow> naive_time \<Rightarrow> 'tz \<Rightarrow> (utc, 'tz schedule_error) outcome" where
  "construct_utc z d t tz = (case local_single z tz d t of
      Some u \<Rightarrow> Ok u
    | None \<Rightarrow> Err (AmbiguousOrMissingTime d t tz))"

definition try_bounds ::
    "(utc, 'e) outcome \<Rightarrow> (utc, 'e) outcome \<Rightarrow> (utc \<times> utc, 'e) outcome" where
  "try_bounds a b = (case a of
      Ok start \<Rightarrow> (case b of Ok end_ \<Rightarrow> Ok (start, end_) | Err e \<Rightarrow> Err e | Panic \<Rightarrow> Panic)
    | Err e \<Rightarrow> Err e | Panic \<Rightarrow> Panic)"

definition calculate_single_day_session_bounds ::
    "('tz, 'b) tz_ops_scheme \<Rightarrow> utc \<Rightarrow> naive_time \<Rightarrow> naive_time \<Rightarrow> 'tz
     \<Rightarrow> (utc \<times> utc, 'tz schedule_error) outcome" where
  "calculate_single_day_session_bounds z u start_time end_time tz =
     (case with_timezone z tz u of (d, t) \<Rightarrow>
        if start_time \<le> t then
          (case construct_utc z d start_time tz of
             Err e \<Rightarrow> Err e | Panic \<Rightarrow> Panic
           | Ok start \<Rightarrow>
               (case (if end_time < start_time then checked_add_days z d 1 else Some d) of
                  None \<Rightarrow> Err (DateCalculationOverflow ''failed to add day for end date'')
                | Some end_date \<Rightarrow> try_bounds (Ok start) (construct_utc z end_date end_time tz)))
        else
          (case checked_sub_days z d 1 of
             None \<Rightarrow> Err (DateCalculationOverflow ''failed to get previous day for start date'')
           | Some start_date \<Rightarrow>
               try_bounds (construct_utc z start_date start_time tz) (construct_utc z d end_time tz)))"

definition days_back :: "weekday \<Rightarrow> naive_time \<Rightarrow> naive_date \<times> naive_time \<Rightarrow> nat" where
  "days_back start_day start_time dt =
     (let diff = nat ((int (weekday_of (fst dt)) - int start_day) mod 7)
      in if diff = 0 \<and> snd dt < start_time then 7 else diff)"

definition session_duration :: "weekday \<Rightarrow> naive_time \<Rightarrow> weekday \<Rightarrow> naive_time \<Rightarrow> nat" where
  "session_duration start_day start_time end_day end_time =
     (let diff = nat ((int end_day - int start_day) mod 7)
      in if diff = 0 \<and> end_time \<le> start_time then 7 else diff)"

definition calculate_weekly_session_bounds ::
    "('tz, 'b) tz_ops_scheme \<Rightarrow> utc \<Rightarrow> weekday \<Rightarrow> naive_time \<Rightarrow> weekday \<Rightarrow> naive_time \<Rightarrow> 'tz
     \<Rightarrow> (utc \<times> utc, 'tz schedule_error) outcome" where
  "calculate_weekly_session_bounds z u start_day start_time end_day end_time tz =
     (let dt = with_timezone z tz u in
      case checked_sub_days z (fst dt) (days_back start_day start_time dt) of
        None \<Rightarrow> Err (DateCalculationOverflow ''failed to compute weekly session start date'')
      | Some start_date \<Rightarrow>
          (case checked_add_days z start_date (session_duration start_day start_time end_day end_time) of
             None \<Rightarrow> Err (DateCalculationOverflow ''failed to compute weekly session end date'')
           | Some end_date \<Rightarrow>
               try_bounds (construct_utc z start_date start_time tz) (construct_utc z end_date end_time tz)))"

text \<open>\<open>now\<close> is the reading of the clock for the bounds of a schedule that never stops: a thousand weeks in
  nanoseconds after it.\<close>

definition get_session_bounds ::
    "('tz, 'b) tz_ops_scheme \<Rightarrow> utc \<Rightarrow> 'tz session_schedule \<Rightarrow> utc \<Rightarrow> (utc \<times> utc, 'tz schedule_error) outcome" where
  "get_session_bounds z now s u = (case s of
      NonStop \<Rightarrow> Ok (0, now + 1000 * 7 * 86400 * 1000000000)
    | Daily st et tz \<Rightarrow> calculate_single_day_session_bounds z u st et tz
    | Weekdays st et _ tz \<Rightarrow> calculate_single_day_session_bounds z u st et tz
    | Weekly sd st ed et tz \<Rightarrow> calculate_weekly_session_bounds z u sd st ed et tz)"

definition is_same_session_period ::
    "('tz, 'b) tz_ops_scheme \<Rightarrow> utc \<Rightarrow> 'tz session_schedule \<Rightarrow> utc \<Rightarrow> utc
     \<Rightarrow> (session_period_comparison, 'tz schedule_error) outcome" where
  "is_same_session_period z now s dt1 dt2 =
     (let a1 = is_active_at z s dt1; a2 = is_active_at z s dt2 in
      if \<not> a1 \<or> \<not> a2 then
        Ok (OutsideSessionTime (if \<not> a1 \<and> \<not> a2 then Both else if \<not> a1 then First else Second))
      else case get_session_bounds z now s dt1 of
          Ok (start, end_) \<Rightarrow> Ok (if start \<le> dt2 \<and> dt2 < end_ then SamePeriod else DifferentPeriod)
        | Err e \<Rightarrow> Err e
        | Panic \<Rightarrow> Panic)"

text \<open>\<open>TryFrom<&ScheduleConfig>\<close>: the error is \<open>SessionCreationError::InvalidSchedule\<close> with its text.\<close>

definition schedule_try_from ::
    "('tz, 'b) tz_ops_scheme \<Rightarrow> ('tz, 'c) schedule_config_scheme \<Rightarrow> ('tz session_schedule, string) outcome" where
  "schedule_try_from z c =
     (let tz = (case cfg_timezone c of None \<Rightarrow> tz_utc z | Some t \<Rightarrow> t);
          invalid = Err ''invalid schedule configuration: incomplete or conflicting parameters'' in
      case (cfg_start_time c, cfg_end_time c, cfg_start_day c, cfg_end_day c) of
        (None, None, None, None) \<Rightarrow>
          if cfg_weekdays c = [] \<and> cfg_timezone c = None then Ok NonStop else invalid
      | (Some st, Some et, None, None) \<Rightarrow>
          if cfg_weekdays c = [] then if st = et then Ok NonStop else Ok (Daily st et tz)
          else if st = et then Err ''Start and end times cannot be equal when weekdays is set''
          else Ok (Weekdays st et (cfg_weekdays c) tz)
      | (Some st, Some et, Some sd, Some ed) \<Rightarrow>
          if cfg_weekdays c \<noteq> [] then Err ''weekly sessions cannot have weekdays specified''
          else if sd = ed \<and> st < et then
            Err ''Incorrect weekly schedule: start time must be after end time for same day weekly schedule''
          else if sd = ed \<and> st = et then Ok NonStop
          else Ok (Weekly sd st ed et tz)
      | _ \<Rightarrow> invalid)"

definition schedule_try_from_opt ::
    "('tz, 'b) tz_ops_scheme \<Rightarrow> 'tz schedule_config option \<Rightarrow> ('tz session_schedule, string) outcome" where
  "schedule_try_from_opt z c = (case c of None \<Rightarrow> Ok NonStop | Some cfg \<Rightarrow> schedule_try_from z cfg)"

section \<open>The bounds contain every active time\<close>

definition local_less :: "naive_date \<times> naive_time \<Rightarrow> naive_date \<times> naive_time \<Rightarrow> bool" where
  "local_less a b \<longleftrightarrow> fst a < fst b \<or> fst a = fst b \<and> snd a < snd b"

definition local_le :: "naive_date \<times> naive_time \<Rightarrow> naive_date \<times> naive_time \<Rightarrow> bool" where
  "local_le a b \<longleftrightarrow> fst a < fst b \<or> fst a = fst b \<and> snd a \<le> snd b"

text \<open>
  What \<open>chrono\<close> promises of a local time that exists exactly once in a zone: an instant shows a local time
  at or after it just when the instant is not before it. Time of day stays below a day.
\<close>

locale timezone_laws =
  fixes z :: "('tz, 'b) tz_ops_scheme" and tz :: 'tz
  assumes single_le: "local_single z tz d t = Some a \<Longrightarrow> local_le (d, t) (with_timezone z tz u) \<Longrightarrow> a \<le> u"
    and single_less: "local_single z tz d t = Some a \<Longrightarrow> local_less (with_timezone z tz u) (d, t) \<Longrightarrow> u < a"
    and secs_less: "secs (snd (with_timezone z tz u)) < 86400"

text \<open>Times a schedule is made of: those \<open>try_from\<close> lets through, with whole seconds for weekly ones, whose
  activity check drops the fraction.\<close>

definition schedule_wf :: "'tz session_schedule \<Rightarrow> bool" where
  "schedule_wf s = (case s of
      NonStop \<Rightarrow> True
    | Daily st et _ \<Rightarrow> st \<noteq> et
    | Weekdays st et _ _ \<Rightarrow> st \<noteq> et
    | Weekly sd st ed et _ \<Rightarrow> sd < 7 \<and> ed < 7 \<and> secs st < 86400 \<and> secs et < 86400 \<and> frac st = 0 \<and> frac et = 0
        \<and> \<not> (sd = ed \<and> st \<le> et))"

lemma weekdays_within_daily:
  "check_weekdays_schedule dt ws st et \<Longrightarrow> st \<noteq> et \<Longrightarrow> check_daily_schedule dt st et"
  by (auto simp: check_weekdays_schedule_def check_daily_schedule_def Let_def split: if_splits)

lemma weekday_of_less: "weekday_of d < 7"
  by (simp add: weekday_of_def)

text \<open>The arithmetic of the weekly bounds on whole local days: positions in seconds since the start of the week.\<close>

lemma weekly_window:
  fixes d :: int and w sd ed t st et :: nat
  assumes "int w = d mod 7" "sd < 7" "ed < 7" "t < 86400" "st < 86400" "et < 86400"
    and "sd \<noteq> ed \<or> et < st"
    and active: "if sd * 86400 + st < ed * 86400 + et
      then sd * 86400 + st \<le> w * 86400 + t \<and> w * 86400 + t < ed * 86400 + et
      else sd * 86400 + st \<le> w * 86400 + t \<or> w * 86400 + t < ed * 86400 + et"
    and bk: "back = (if (int w - int sd) mod 7 = 0 \<and> t < st then 7 else (int w - int sd) mod 7)"
    and dur: "dur = (if (int ed - int sd) mod 7 = 0 \<and> et \<le> st then 7 else (int ed - int sd) mod 7)"
  shows "back < dur \<or> back = dur \<and> t < et"
proof -
  have w: "w < 7" using assms(1) by (metis of_nat_less_iff of_nat_numeral pos_mod_bound zero_less_numeral)
  have diff: "(int a - int b) mod 7 = (if b \<le> a then int a - int b else int a - int b + 7)" if "a < 7" "b < 7" for a b :: nat
  proof (cases "b \<le> a")
    case True
    then show ?thesis using that by simp
  next
    case False
    have "(int a - int b) mod 7 = (int a - int b + 7) mod 7" by simp
    also have "\<dots> = int a - int b + 7" using False that by (intro mod_pos_pos_trivial) auto
    finally show ?thesis using False by simp
  qed
  have b: "back = (if w = sd \<and> t < st then 7 else if sd \<le> w then int w - int sd else int w - int sd + 7)"
    using bk assms(2) w by (auto simp: diff)
  have e: "dur = (if ed = sd \<and> et \<le> st then 7 else if sd \<le> ed then int ed - int sd else int ed - int sd + 7)"
    using dur assms(2,3) by (auto simp: diff)
  have pos: "a * 86400 + x < c * 86400 + y \<longleftrightarrow> a < c \<or> a = c \<and> x < y" if "x < 86400" "y < 86400" for a c x y :: nat
    using that by (cases a c rule: linorder_cases) auto
  have pos': "a * 86400 + x \<le> c * 86400 + y \<longleftrightarrow> a < c \<or> a = c \<and> x \<le> y" if "x < 86400" "y < 86400" for a c x y :: nat
    using that by (cases a c rule: linorder_cases) auto
  note act = active [unfolded pos [OF assms(5,6)] pos' [OF assms(5,4)] pos [OF assms(4,6)]]
  show ?thesis using assms(2,3,7) act w unfolding b e by (auto split: if_splits)
qed

lemma nat_mod7: "x mod 7 \<le> 0 \<longleftrightarrow> x mod 7 = 0" for x :: int
  using pos_mod_sign [of 7 x] by auto

context timezone_laws
begin

lemma construct_le: "construct_utc z d t tz = Ok a \<Longrightarrow> local_le (d, t) (with_timezone z tz u) \<Longrightarrow> a \<le> u"
  by (auto simp: construct_utc_def single_le split: option.splits)

lemma construct_less: "construct_utc z d t tz = Ok a \<Longrightarrow> local_less (with_timezone z tz u) (d, t) \<Longrightarrow> u < a"
  by (auto simp: construct_utc_def single_less split: option.splits)

lemma try_bounds_Ok: "try_bounds a b = Ok (x, y) \<longleftrightarrow> a = Ok x \<and> b = Ok y"
  by (auto simp: try_bounds_def split: outcome.splits)

lemma daily_bounds:
  assumes "check_daily_schedule (with_timezone z tz u) st et" "st \<noteq> et"
    and "calculate_single_day_session_bounds z u st et tz = Ok (a, b)"
  shows "a \<le> u \<and> u < b"
proof -
  obtain d t where dt: "with_timezone z tz u = (d, t)" by (cases "with_timezone z tz u")
  show ?thesis
  proof (cases "st \<le> t")
    case True
    then obtain e where "construct_utc z d st tz = Ok a" "construct_utc z e et tz = Ok b"
      and e: "e = (if et < st then d + 1 else d)"
      using assms(3) by (auto simp: calculate_single_day_session_bounds_def dt try_bounds_Ok checked_add_days_def
          split: outcome.splits if_splits)
    moreover have "local_le (d, st) (with_timezone z tz u)" using True by (simp add: dt local_le_def)
    moreover have "local_less (with_timezone z tz u) (e, et)"
      using assms(1,2) True by (auto simp: dt local_less_def e check_daily_schedule_def split: if_splits)
    ultimately show ?thesis using construct_le construct_less by blast
  next
    case False
    then have "construct_utc z (d - 1) st tz = Ok a" "construct_utc z d et tz = Ok b"
      using assms(3) by (auto simp: calculate_single_day_session_bounds_def dt try_bounds_Ok checked_sub_days_def
          split: if_splits)
    moreover have "local_le (d - 1, st) (with_timezone z tz u)" by (simp add: dt local_le_def)
    moreover have "local_less (with_timezone z tz u) (d, et)"
      using assms(1,2) False by (auto simp: dt local_less_def check_daily_schedule_def split: if_splits)
    ultimately show ?thesis using construct_le construct_less by blast
  qed
qed

lemma weekly_bounds:
  assumes "check_weekly_schedule (with_timezone z tz u) sd st ed et" "schedule_wf (Weekly sd st ed et tz)"
    and "calculate_weekly_session_bounds z u sd st ed et tz = Ok (a, b)"
  shows "a \<le> u \<and> u < b"
proof -
  obtain d t where dt: "with_timezone z tz u = (d, t)" by (cases "with_timezone z tz u")
  have whole: "secs t < 86400" "frac st = 0" "frac et = 0" using secs_less [of u] assms(2) by (auto simp: dt schedule_wf_def)
  then have less: "t < st \<longleftrightarrow> secs t < secs st" "t < et \<longleftrightarrow> secs t < secs et" "et \<le> st \<longleftrightarrow> secs et \<le> secs st"
    by (auto simp: less_naive_time_def less_eq_naive_time_def)
  define bk where "bk = days_back sd st (d, t)"
  define dur where "dur = session_duration sd st ed et"
  have ab: "construct_utc z (d - int bk) st tz = Ok a" "construct_utc z (d - int bk + int dur) et tz = Ok b"
    using assms(3) by (auto simp: calculate_weekly_session_bounds_def dt try_bounds_Ok checked_sub_days_def
        checked_add_days_def bk_def dur_def Let_def split: if_splits)
  let ?w = "weekday_of d"
  have w: "int ?w = d mod 7" by (simp add: weekday_of_def)
  have bk: "int bk = (if (int ?w - int sd) mod 7 = 0 \<and> secs t < secs st then 7 else (int ?w - int sd) mod 7)"
    by (simp add: bk_def days_back_def Let_def less nat_mod7)
  have dur: "int dur = (if (int ed - int sd) mod 7 = 0 \<and> secs et \<le> secs st then 7 else (int ed - int sd) mod 7)"
    by (simp add: dur_def session_duration_def Let_def less nat_mod7)
  have "int bk < int dur \<or> int bk = int dur \<and> secs t < secs et"
    by (rule weekly_window [OF w _ _ whole(1) _ _ _ _ bk dur])
      (use assms(1,2) whole in \<open>auto simp: schedule_wf_def check_weekly_schedule_def weekly_seconds_def Let_def dt
        less_eq_naive_time_def not_le split: if_splits\<close>)
  then have "local_less (with_timezone z tz u) (d - int bk + int dur, et)"
    by (auto simp: dt local_less_def less)
  moreover have "local_le (d - int bk, st) (with_timezone z tz u)"
  proof (cases "bk = 0")
    case True
    then have "\<not> t < st" using bk less by (auto split: if_splits)
    with True show ?thesis by (simp add: dt local_le_def)
  qed (simp add: dt local_le_def)
  ultimately show ?thesis using ab construct_le construct_less by blast
qed

end

section \<open>UTC\<close>

text \<open>The zone \<open>Tz::UTC\<close>, which the code uses when none is configured: local time is the instant itself. An instant
  counts nanoseconds since day \<open>epoch\<close>, 1 January 1970.\<close>

definition epoch :: naive_date where "epoch = 719162"

definition utc_zone :: "unit tz_ops" where
  "utc_zone = \<lparr>
     with_timezone = (\<lambda>_ u. (u div 86400000000000 + epoch,
       NaiveTime (nat (u mod 86400000000000) div 1000000000) (nat (u mod 86400000000000) mod 1000000000))),
     local_single = (\<lambda>_ d t. if frac t < 1000000000 \<and> secs t < 86400
       then Some ((d - epoch) * 86400000000000 + int (secs t * 1000000000 + frac t)) else None),
     tz_utc = (), date_min = - 95746130, date_max = 95745398\<rparr>"

lemma lex_time:
  fixes a b :: nat
  assumes "x = a * 1000000000 + b" "b < 1000000000" "y = c * 1000000000 + e" "e < 1000000000"
  shows "NaiveTime a b \<le> NaiveTime c e \<longleftrightarrow> x \<le> y" "NaiveTime a b < NaiveTime c e \<longleftrightarrow> x < y"
  using assms by (auto simp: less_eq_naive_time_def less_naive_time_def)

lemma lex_day:
  fixes d e x y D :: int
  assumes "0 \<le> x" "x < D" "0 \<le> y" "y < D"
  shows "d < e \<or> d = e \<and> x \<le> y \<longleftrightarrow> d * D + x \<le> e * D + y" "d < e \<or> d = e \<and> x < y \<longleftrightarrow> d * D + x < e * D + y"
proof -
  have step: "a < b \<Longrightarrow> a * D + D \<le> b * D" for a b :: int
    using assms mult_right_mono [of "a + 1" b D] by (simp add: algebra_simps)
  show "d < e \<or> d = e \<and> x \<le> y \<longleftrightarrow> d * D + x \<le> e * D + y" "d < e \<or> d = e \<and> x < y \<longleftrightarrow> d * D + x < e * D + y"
    using assms step [of d e] step [of e d] by (cases d e rule: linorder_cases; auto)+
qed

lemma utc_local:
  fixes u :: utc
  defines "r \<equiv> nat (u mod 86400000000000)"
  shows "with_timezone utc_zone () u = (u div 86400000000000 + epoch, NaiveTime (r div 1000000000) (r mod 1000000000))"
    "r < 86400000000000" "u = u div 86400000000000 * 86400000000000 + int r"
  by (simp_all add: utc_zone_def r_def)

lemma utc_compare:
  assumes "frac t < 1000000000" "secs t < 86400"
  shows "local_le (d, t) (with_timezone utc_zone () u)
      \<longleftrightarrow> (d - epoch) * 86400000000000 + int (secs t * 1000000000 + frac t) \<le> u"
    "local_less (with_timezone utc_zone () u) (d, t)
      \<longleftrightarrow> u < (d - epoch) * 86400000000000 + int (secs t * 1000000000 + frac t)"
proof -
  define D where "D = (86400000000000 :: int)"
  define r q where "r = nat (u mod 86400000000000)" and "q = u div 86400000000000"
  define x where "x = secs t * 1000000000 + frac t"
  have r: "0 \<le> int r" "int r < D" and u: "u = q * D + int r"
    using utc_local(2,3) [of u] by (simp_all add: r_def q_def D_def)
  have x: "0 \<le> int x" "int x < D" using assms by (simp_all add: x_def D_def)
  have r': "r = r div 1000000000 * 1000000000 + r mod 1000000000" "r mod 1000000000 < 1000000000"
    by (simp_all only: div_mult_mod_eq)
  note le = lex_time(1) [OF x_def assms(1) r', unfolded naive_time.collapse]
    lex_time(2) [OF r' x_def assms(1), unfolded naive_time.collapse]
  have "local_le (d, t) (with_timezone utc_zone () u) \<longleftrightarrow> d - epoch < q \<or> d - epoch = q \<and> int x \<le> int r"
    using le(1) by (auto simp: local_le_def utc_local(1) [of u, folded r_def q_def])
  also have "\<dots> \<longleftrightarrow> (d - epoch) * D + int x \<le> u"
    using lex_day(1) [OF x r] by (simp only: u)
  finally show "local_le (d, t) (with_timezone utc_zone () u)
      \<longleftrightarrow> (d - epoch) * 86400000000000 + int (secs t * 1000000000 + frac t) \<le> u"
    by (simp only: x_def D_def)
  have "local_less (with_timezone utc_zone () u) (d, t) \<longleftrightarrow> q < d - epoch \<or> q = d - epoch \<and> int r < int x"
    using le(2) by (auto simp: local_less_def utc_local(1) [of u, folded r_def q_def])
  also have "\<dots> \<longleftrightarrow> u < (d - epoch) * D + int x"
    using lex_day(2) [OF r x] by (simp only: u)
  finally show "local_less (with_timezone utc_zone () u) (d, t)
      \<longleftrightarrow> u < (d - epoch) * 86400000000000 + int (secs t * 1000000000 + frac t)"
    by (simp only: x_def D_def)
qed

interpretation utc_tz: timezone_laws utc_zone "()"
proof
  fix d t a u
  assume "local_single utc_zone () d t = Some a"
  then have a: "frac t < 1000000000" "secs t < 86400" "a = (d - epoch) * 86400000000000 + int (secs t * 1000000000 + frac t)"
    by (auto simp: utc_zone_def split: if_splits)
  show "local_le (d, t) (with_timezone utc_zone () u) \<Longrightarrow> a \<le> u"
    "local_less (with_timezone utc_zone () u) (d, t) \<Longrightarrow> u < a"
    using utc_compare [OF a(1,2)] by (simp_all add: a(3))
next
  fix u
  have "nat (u mod 86400000000000) < 86400000000000" by simp
  then show "secs (snd (with_timezone utc_zone () u)) < 86400"
    by (simp add: utc_local(1) less_mult_imp_div_less)
qed

section \<open>Properties\<close>



text \<open>Configurations. Whatever \<open>try_from\<close> accepts is a schedule whose start and end differ as its kind requires;
  in particular a daily schedule is never empty and a weekly one on a single day runs over the week.\<close>

theorem schedule_try_from_wf:
  assumes "schedule_try_from z c = Ok s"
  shows "case s of
      NonStop \<Rightarrow> True
    | Daily st et _ \<Rightarrow> st \<noteq> et \<and> cfg_weekdays c = []
    | Weekdays st et ws _ \<Rightarrow> st \<noteq> et \<and> ws = cfg_weekdays c \<and> ws \<noteq> []
    | Weekly sd st ed et _ \<Rightarrow> \<not> (sd = ed \<and> st \<le> et) \<and> cfg_weekdays c = []"
  using assms
  by (auto simp: schedule_try_from_def Let_def split: option.splits if_splits session_schedule.splits)

theorem schedule_try_from_wf_witness:
  "schedule_try_from utc_zone \<lparr>cfg_start_time = Some (NaiveTime 64800 0), cfg_end_time = Some (NaiveTime 61200 0),
     cfg_start_day = Some 4, cfg_end_day = Some 4, cfg_weekdays = [], cfg_timezone = None\<rparr>
   = Ok (Weekly 4 (NaiveTime 64800 0) 4 (NaiveTime 61200 0) ())
   \<and> \<not> NaiveTime 64800 0 \<le> NaiveTime 61200 0"
proof -
  have "schedule_try_from utc_zone \<lparr>cfg_start_time = Some (NaiveTime 64800 0), cfg_end_time = Some (NaiveTime 61200 0),
     cfg_start_day = Some 4, cfg_end_day = Some 4, cfg_weekdays = [], cfg_timezone = None\<rparr>
   = Ok (Weekly 4 (NaiveTime 64800 0) 4 (NaiveTime 61200 0) ())"
    by (simp add: schedule_try_from_def less_naive_time_def)
  with schedule_try_from_wf [OF this] show ?thesis by simp
qed

end
