(* ===== verification/Outbound_Messages.thy ===== *)
theory Outbound_Messages
  imports Message
begin

text \<open>
  The session-level messages an initiator writes (\<^verbatim>\<open>hotfix/src/message.rs\<close> and \<^verbatim>\<open>hotfix/src/message/\<close>): the
  field definitions of \<^verbatim>\<open>session_fields\<close> as FIXT 1.1 numbers them, the trait \<open>OutboundMessage\<close> as a record of its two
  methods, every message type the engine sends, \<open>generate_message\<close>, and the rewriting of a stored
  message for a resend. The current time is the argument \<open>calendar\<close>.
\<close>

section \<open>Session fields\<close>

definition SENDER_COMP_ID :: field_def where "SENDER_COMP_ID = header_field 49"
definition TARGET_COMP_ID :: field_def where "TARGET_COMP_ID = header_field 56"
definition MSG_SEQ_NUM :: field_def where "MSG_SEQ_NUM = header_field 34"
definition SENDING_TIME :: field_def where "SENDING_TIME = header_field 52"
definition ORIG_SENDING_TIME :: field_def where "ORIG_SENDING_TIME = header_field 122"
definition POSS_DUP_FLAG :: field_def where "POSS_DUP_FLAG = header_field 43"
definition TEST_REQ_ID :: field_def where "TEST_REQ_ID = body_field 112"
definition TEXT :: field_def where "TEXT = body_field 58"
definition BEGIN_SEQ_NO :: field_def where "BEGIN_SEQ_NO = body_field 7"
definition END_SEQ_NO :: field_def where "END_SEQ_NO = body_field 16"
definition NEW_SEQ_NO :: field_def where "NEW_SEQ_NO = body_field 36"
definition GAP_FILL_FLAG :: field_def where "GAP_FILL_FLAG = body_field 123"
definition ENCRYPT_METHOD :: field_def where "ENCRYPT_METHOD = body_field 98"
definition HEART_BT_INT :: field_def where "HEART_BT_INT = body_field 108"
definition RESET_SEQ_NUM_FLAG :: field_def where "RESET_SEQ_NUM_FLAG = body_field 141"
definition NEXT_EXPECTED_MSG_SEQ_NUM :: field_def where "NEXT_EXPECTED_MSG_SEQ_NUM = body_field 789"
definition REF_SEQ_NUM :: field_def where "REF_SEQ_NUM = body_field 45"
definition REF_TAG_ID :: field_def where "REF_TAG_ID = body_field 371"
definition REF_MSG_TYPE :: field_def where "REF_MSG_TYPE = body_field 372"
definition SESSION_REJECT_REASON :: field_def where "SESSION_REJECT_REASON = body_field 373"
definition BUSINESS_REJECT_REASON :: field_def where "BUSINESS_REJECT_REASON = body_field 380"

lemmas session_fields [simp] = SENDER_COMP_ID_def TARGET_COMP_ID_def MSG_SEQ_NUM_def SENDING_TIME_def
  ORIG_SENDING_TIME_def POSS_DUP_FLAG_def TEST_REQ_ID_def TEXT_def BEGIN_SEQ_NO_def END_SEQ_NO_def
  NEW_SEQ_NO_def GAP_FILL_FLAG_def ENCRYPT_METHOD_def HEART_BT_INT_def RESET_SEQ_NUM_FLAG_def
  NEXT_EXPECTED_MSG_SEQ_NUM_def REF_SEQ_NUM_def REF_TAG_ID_def REF_MSG_TYPE_def
  SESSION_REJECT_REASON_def BUSINESS_REJECT_REASON_def

datatype session_reject_reason =
    InvalidTagNumber | RequiredTagMissing | TagNotDefinedForThisMessageType | UndefinedTag
  | TagSpecifiedWithoutAValue | ValueIsIncorrect | IncorrectDataFormatForValue | DecryptionProblem
  | SignatureProblem | CompidProblem | SendingtimeAccuracyProblem | InvalidMsgtype
  | XmlValidationError | TagAppearsMoreThanOnce | TagSpecifiedOutOfRequiredOrder
  | RepeatingGroupFieldsOutOfOrder | IncorrectNumingroupCountForRepeatingGroup
  | NonDataValueIncludesFieldDelimiter | OtherReason

definition session_reject_reason_serialize :: "session_reject_reason \<Rightarrow> bytes" where
  "session_reject_reason_serialize r = (case r of
      InvalidTagNumber \<Rightarrow> ''0'' | RequiredTagMissing \<Rightarrow> ''1'' | TagNotDefinedForThisMessageType \<Rightarrow> ''2''
    | UndefinedTag \<Rightarrow> ''3'' | TagSpecifiedWithoutAValue \<Rightarrow> ''4'' | ValueIsIncorrect \<Rightarrow> ''5''
    | IncorrectDataFormatForValue \<Rightarrow> ''6'' | DecryptionProblem \<Rightarrow> ''7'' | SignatureProblem \<Rightarrow> ''8''
    | CompidProblem \<Rightarrow> ''9'' | SendingtimeAccuracyProblem \<Rightarrow> ''10'' | InvalidMsgtype \<Rightarrow> ''11''
    | XmlValidationError \<Rightarrow> ''12'' | TagAppearsMoreThanOnce \<Rightarrow> ''13''
    | TagSpecifiedOutOfRequiredOrder \<Rightarrow> ''14'' | RepeatingGroupFieldsOutOfOrder \<Rightarrow> ''15''
    | IncorrectNumingroupCountForRepeatingGroup \<Rightarrow> ''16'' | NonDataValueIncludesFieldDelimiter \<Rightarrow> ''17''
    | OtherReason \<Rightarrow> ''99'')"

section \<open>Outbound messages\<close>

text \<open>\<open>message_type\<close> and \<open>write\<close> of the trait \<open>OutboundMessage\<close>; a \<open>write\<close> may panic.\<close>

record outbound_message =
  message_type :: bytes
  write_to :: "message \<Rightarrow> (message, unit) outcome"

definition set_opt :: "field_def \<Rightarrow> bytes option \<Rightarrow> message \<Rightarrow> message" where
  "set_opt d v m = (case v of None \<Rightarrow> m | Some b \<Rightarrow> msg_set d b m)"

abbreviation (input) Heartbeat_MSG_TYPE :: bytes where "Heartbeat_MSG_TYPE \<equiv> ''0''"
abbreviation (input) TestRequest_MSG_TYPE :: bytes where "TestRequest_MSG_TYPE \<equiv> ''1''"
abbreviation (input) ResendRequest_MSG_TYPE :: bytes where "ResendRequest_MSG_TYPE \<equiv> ''2''"
abbreviation (input) Reject_MSG_TYPE :: bytes where "Reject_MSG_TYPE \<equiv> ''3''"
abbreviation (input) SequenceReset_MSG_TYPE :: bytes where "SequenceReset_MSG_TYPE \<equiv> ''4''"
abbreviation (input) Logout_MSG_TYPE :: bytes where "Logout_MSG_TYPE \<equiv> ''5''"
abbreviation (input) Logon_MSG_TYPE :: bytes where "Logon_MSG_TYPE \<equiv> ''A''"
abbreviation (input) BusinessReject_MSG_TYPE :: bytes where "BusinessReject_MSG_TYPE \<equiv> ''j''"

definition ADMIN_TYPES :: "bytes list" where
  "ADMIN_TYPES = [Logon_MSG_TYPE, Heartbeat_MSG_TYPE, TestRequest_MSG_TYPE, ResendRequest_MSG_TYPE,
     Reject_MSG_TYPE, SequenceReset_MSG_TYPE, Logout_MSG_TYPE]"

definition is_admin :: "bytes \<Rightarrow> bool" where
  "is_admin t \<longleftrightarrow> t \<in> set ADMIN_TYPES"

text \<open>\<open>Heartbeat::default()\<close> has no TestReqID; \<open>for_request\<close> has one.\<close>

definition Heartbeat :: "bytes option \<Rightarrow> outbound_message" where
  "Heartbeat test_req_id = \<lparr>message_type = Heartbeat_MSG_TYPE,
     write_to = (\<lambda>m. Ok (set_opt TEST_REQ_ID (map_option str_serialize test_req_id) m))\<rparr>"

definition TestRequest :: "bytes \<Rightarrow> outbound_message" where
  "TestRequest test_req_id = \<lparr>message_type = TestRequest_MSG_TYPE,
     write_to = (\<lambda>m. Ok (msg_set TEST_REQ_ID (str_serialize test_req_id) m))\<rparr>"

definition ResendRequest :: "u64 \<Rightarrow> u64 \<Rightarrow> outbound_message" where
  "ResendRequest begin_seq_no end_seq_no = \<lparr>message_type = ResendRequest_MSG_TYPE,
     write_to = (\<lambda>m. Ok (msg_set END_SEQ_NO (u64_serialize end_seq_no)
       (msg_set BEGIN_SEQ_NO (u64_serialize begin_seq_no) m)))\<rparr>"

definition Logout :: "bytes option \<Rightarrow> outbound_message" where
  "Logout reason = \<lparr>message_type = Logout_MSG_TYPE,
     write_to = (\<lambda>m. Ok (set_opt TEXT (map_option str_serialize reason) m))\<rparr>"

datatype reset_seq_num_config = ResetSeqNum | NoReset "u64 option"

text \<open>\<open>Logon::new\<close> always takes \<open>EncryptMethod::None\<close>, variant 0; the flag is Y exactly for a reset.\<close>

definition Logon :: "u64 \<Rightarrow> reset_seq_num_config \<Rightarrow> outbound_message" where
  "Logon heartbeat_interval reset_config =
     (let (flag, nxt) = (case reset_config of ResetSeqNum \<Rightarrow> (''Y'', None) | NoReset n \<Rightarrow> (''N'', n)) in
      \<lparr>message_type = Logon_MSG_TYPE,
       write_to = (\<lambda>m. Ok (set_opt NEXT_EXPECTED_MSG_SEQ_NUM (map_option u64_serialize nxt)
         (msg_set RESET_SEQ_NUM_FLAG flag
         (msg_set HEART_BT_INT (u64_serialize heartbeat_interval)
         (msg_set ENCRYPT_METHOD ''0'' m)))))\<rparr>)"

definition SequenceReset :: "bool \<Rightarrow> u64 \<Rightarrow> outbound_message" where
  "SequenceReset gap_fill new_seq_no = \<lparr>message_type = SequenceReset_MSG_TYPE,
     write_to = (\<lambda>m0.
       let m1 = msg_set GAP_FILL_FLAG (bool_serialize gap_fill) m0;
           m2 = msg_set NEW_SEQ_NO (u64_serialize new_seq_no) m1
       in case part_get timestamp_deserialize SENDING_TIME (header m2) of
            Ok sending_time \<Rightarrow> Ok (m2\<lparr>header := part_set POSS_DUP_FLAG (bool_serialize True)
              (part_set ORIG_SENDING_TIME (timestamp_serialize sending_time) (header m2))\<rparr>)
          | _ \<Rightarrow> Panic)\<rparr>"

record reject =
  rej_ref_seq_num :: u64
  rej_ref_tag_id :: "u64 option"
  rej_ref_msg_type :: "bytes option"
  rej_session_reject_reason :: "session_reject_reason option"
  rej_text :: "bytes option"

text \<open>\<open>Reject::new(n)\<close> followed by the builder calls \<open>session_reject_reason\<close> and \<open>text\<close>.\<close>

definition Reject_new :: "u64 \<Rightarrow> reject" where
  "Reject_new n = \<lparr>rej_ref_seq_num = n, rej_ref_tag_id = None, rej_ref_msg_type = None,
     rej_session_reject_reason = None, rej_text = None\<rparr>"

definition with_reason :: "session_reject_reason \<Rightarrow> bytes \<Rightarrow> reject \<Rightarrow> reject" where
  "with_reason r t rej = rej\<lparr>rej_session_reject_reason := Some r, rej_text := Some t\<rparr>"

definition Reject :: "reject \<Rightarrow> outbound_message" where
  "Reject r = \<lparr>message_type = Reject_MSG_TYPE,
     write_to = (\<lambda>m. Ok (set_opt TEXT (map_option str_serialize (rej_text r))
       (set_opt SESSION_REJECT_REASON (map_option session_reject_reason_serialize (rej_session_reject_reason r))
       (set_opt REF_MSG_TYPE (rej_ref_msg_type r)
       (set_opt REF_TAG_ID (map_option u64_serialize (rej_ref_tag_id r))
       (msg_set REF_SEQ_NUM (u64_serialize (rej_ref_seq_num r)) m))))))\<rparr>"

datatype business_reject_reason =
    Other | UnknownId | UnknownSecurity | UnsupportedMessageType | ApplicationNotAvailable
  | ConditionallyRequiredFieldMissing | NotAuthorized | DeliverToFirmNotAvailable

definition business_reject_code :: "business_reject_reason \<Rightarrow> nat" where
  "business_reject_code r = (case r of Other \<Rightarrow> 0 | UnknownId \<Rightarrow> 1 | UnknownSecurity \<Rightarrow> 2
    | UnsupportedMessageType \<Rightarrow> 3 | ApplicationNotAvailable \<Rightarrow> 4
    | ConditionallyRequiredFieldMissing \<Rightarrow> 5 | NotAuthorized \<Rightarrow> 6 | DeliverToFirmNotAvailable \<Rightarrow> 7)"

definition business_reject_reason_serialize :: "business_reject_reason \<Rightarrow> bytes" where
  "business_reject_reason_serialize r = show_nat (business_reject_code r)"

definition business_reject_reason_deserialize :: "bytes \<Rightarrow> (business_reject_reason, unit) outcome" where
  "business_reject_reason_deserialize data = (case parse_u32 data of
      None \<Rightarrow> Err ()
    | Some v \<Rightarrow>
        if v = 0 then Ok Other else if v = 1 then Ok UnknownId else if v = 2 then Ok UnknownSecurity
        else if v = 3 then Ok UnsupportedMessageType else if v = 4 then Ok ApplicationNotAvailable
        else if v = 5 then Ok ConditionallyRequiredFieldMissing else if v = 6 then Ok NotAuthorized
        else if v = 7 then Ok DeliverToFirmNotAvailable else Err ())"

definition BusinessReject ::
    "bytes \<Rightarrow> business_reject_reason \<Rightarrow> u64 option \<Rightarrow> bytes option \<Rightarrow> outbound_message" where
  "BusinessReject ref_msg_type reason ref_seq_num reject_text = \<lparr>message_type = BusinessReject_MSG_TYPE,
     write_to = (\<lambda>m. Ok (set_opt TEXT (map_option str_serialize reject_text)
       (set_opt REF_SEQ_NUM (map_option u64_serialize ref_seq_num)
       (msg_set BUSINESS_REJECT_REASON (business_reject_reason_serialize reason)
       (msg_set REF_MSG_TYPE (str_serialize ref_msg_type) m)))))\<rparr>"

section \<open>Writing and resending a message\<close>

definition generate_message ::
    "calendar \<Rightarrow> bytes \<Rightarrow> bytes \<Rightarrow> bytes \<Rightarrow> u64 \<Rightarrow> outbound_message \<Rightarrow> (bytes, 'e) outcome" where
  "generate_message now begin_string sender_comp_id target_comp_id msg_seq_num om =
     (let m1 = Message_new begin_string (message_type om);
          m2 = msg_set SENDER_COMP_ID (str_serialize sender_comp_id) m1;
          m3 = msg_set TARGET_COMP_ID target_comp_id m2;
          m4 = msg_set MSG_SEQ_NUM (u64_serialize msg_seq_num) m3
      in case utc_now now of
           Ok t \<Rightarrow> (case write_to om (msg_set SENDING_TIME (timestamp_serialize t) m4) of
               Ok m5 \<Rightarrow> Ok (fst (encode default_config m5))
             | _ \<Rightarrow> Panic)
         | _ \<Rightarrow> Panic)"

text \<open>\<open>header.get::<bool>(POSS_DUP_FLAG).unwrap_or(false)\<close>.\<close>

definition poss_dup :: "message \<Rightarrow> bool" where
  "poss_dup m = (case part_get bool_deserialize POSS_DUP_FLAG (header m) of Ok b \<Rightarrow> b | _ \<Rightarrow> False)"

definition prepare_message_for_resend :: "calendar \<Rightarrow> (message, unit, string) comp" where
  "prepare_message_for_resend now m =
     (if part_get_raw SENDING_TIME (header m) = None then (Err ''Missing SendingTime (52)'', m)
      else
        let has_orig_sending_time = part_get_raw ORIG_SENDING_TIME (header m) \<noteq> None in
        case part_pop SENDING_TIME (header m) of
          (None, h) \<Rightarrow>
            (Err (if poss_dup m \<and> has_orig_sending_time then ''Failed to extract previous SendingTime''
                  else ''Failed to extract original SendingTime''), m\<lparr>header := h\<rparr>)
        | (Some original, h) \<Rightarrow>
            if poss_dup m \<and> has_orig_sending_time then
              (case utc_now now of
                 Ok t \<Rightarrow> (Ok (), m\<lparr>header := part_set SENDING_TIME (timestamp_serialize t) h\<rparr>)
               | _ \<Rightarrow> (Panic, m\<lparr>header := h\<rparr>))
            else
              case timestamp_parse (field_data original) of
                None \<Rightarrow> (Err ''Invalid original SendingTime format'', m\<lparr>header := h\<rparr>)
              | Some original_ts \<Rightarrow>
                  let h1 = part_set ORIG_SENDING_TIME (timestamp_serialize original_ts) h in
                  (case utc_now now of
                     Ok t \<Rightarrow> (Ok (), m\<lparr>header := part_set POSS_DUP_FLAG (bool_serialize True)
                               (part_set SENDING_TIME (timestamp_serialize t) h1)\<rparr>)
                   | _ \<Rightarrow> (Panic, m\<lparr>header := h1\<rparr>)))"

section \<open>What a message may write\<close>

text \<open>
  The contract of \<open>OutboundMessage::write\<close> that \<open>generate_message\<close> relies on: on a well-formed message with a
  readable SendingTime it returns, keeps the message well formed and does not touch the fields that
  identify the message.
\<close>

definition identity_fields :: "field_def list" where
  "identity_fields = [BEGIN_STRING, MSG_TYPE, SENDER_COMP_ID, TARGET_COMP_ID, MSG_SEQ_NUM, SENDING_TIME]"

definition stamped :: "bytes \<Rightarrow> bytes \<Rightarrow> bytes \<Rightarrow> bytes \<Rightarrow> u64 \<Rightarrow> timestamp \<Rightarrow> message \<Rightarrow> bool" where
  "stamped begin_string mt sender target n t m \<longleftrightarrow> message_ok m
     \<and> map (\<lambda>d. part_get_raw d (header m)) identity_fields
       = map Some [begin_string, mt, sender, target, show_u64 n, timestamp_serialize t]"

locale outbound_laws =
  fixes om :: outbound_message
  assumes write_ok: "message_ok m \<Longrightarrow> part_get timestamp_deserialize SENDING_TIME (header m) = Ok t
    \<Longrightarrow> \<exists>m'. write_to om m = Ok m' \<and> message_ok m'
      \<and> (\<forall>d \<in> set identity_fields. part_get_raw d (header m') = part_get_raw d (header m))"

lemma get_raw_msg_set:
  "part_get_raw d (header (msg_set e v m)) =
     (if def_location e = HeaderLoc \<and> def_tag d = def_tag e then Some v else part_get_raw d (header m))"
  "part_get_raw d (body (msg_set e v m)) =
     (if def_location e = BodyLoc \<and> def_tag d = def_tag e then Some v else part_get_raw d (body m))"
  by (cases "def_location e"; simp add: msg_set_def)+

lemma utc_now_ok: "utc_now c = Ok t \<Longrightarrow> timestamp_ok t"
  by (auto simp: utc_now_def timestamp_ok_def date_ok_def time_ok_def Date_new_def from_hmsm_def
      split: option.splits if_splits)

context outbound_laws
begin

lemma generate_ok:
  assumes "utc_now now = Ok t"
  shows "\<exists>m. generate_message now bs sender target n om = Ok (fst (encode default_config m))
    \<and> stamped bs (message_type om) sender target n t m"
proof -
  define m where "m = msg_set SENDING_TIME (timestamp_serialize t) (msg_set MSG_SEQ_NUM (u64_serialize n)
    (msg_set TARGET_COMP_ID target (msg_set SENDER_COMP_ID (str_serialize sender) (Message_new bs (message_type om)))))"
  have ok: "message_ok m" unfolding m_def by (intro message_ok_set message_ok_new)
  have "part_get timestamp_deserialize SENDING_TIME (header m) = Ok t"
    using utc_now_ok [OF assms] unfolding m_def
    by (simp add: part_get_def get_raw_msg_set timestamp_roundtrip_aux)
  from write_ok [OF ok this] obtain m' where m': "write_to om m = Ok m'" "message_ok m'"
    "\<forall>d \<in> set identity_fields. part_get_raw d (header m') = part_get_raw d (header m)"
    by blast
  have "stamped bs (message_type om) sender target n t m'"
    using m' unfolding stamped_def identity_fields_def m_def
    by (simp add: get_raw_msg_set Message_new_def u64_serialize_def str_serialize_def)
  moreover have "generate_message now bs sender target n om = Ok (fst (encode default_config m'))"
    using assms m'(1) by (simp add: generate_message_def m_def)
  ultimately show ?thesis by blast
qed

end

lemma message_ok_set_opt [simp]: "message_ok m \<Longrightarrow> message_ok (set_opt d v m)"
  by (cases v) (simp_all add: set_opt_def)

lemma header_set_body [simp]:
  "def_location e = BodyLoc \<Longrightarrow> header (msg_set e v m) = header m"
  "def_location e = BodyLoc \<Longrightarrow> header (set_opt e w m) = header m"
  by (cases w; simp add: msg_set_def set_opt_def)+

lemma outbound_laws_body:
  assumes "\<And>m. \<exists>m'. write_to om m = Ok m' \<and> (message_ok m \<longrightarrow> message_ok m') \<and> header m' = header m"
  shows "outbound_laws om"
  by unfold_locales (use assms in metis)

interpretation heartbeat: outbound_laws "Heartbeat r" for r
  by (rule outbound_laws_body) (auto simp: Heartbeat_def)

interpretation test_request: outbound_laws "TestRequest r" for r
  by (rule outbound_laws_body) (auto simp: TestRequest_def)

interpretation resend_request: outbound_laws "ResendRequest b e" for b e
  by (rule outbound_laws_body) (auto simp: ResendRequest_def)

interpretation logout: outbound_laws "Logout r" for r
  by (rule outbound_laws_body) (auto simp: Logout_def)

interpretation logon: outbound_laws "Logon h c" for h c
  by (rule outbound_laws_body) (auto simp: Logon_def Let_def split: prod.splits)

interpretation reject: outbound_laws "Reject r" for r
  by (rule outbound_laws_body) (auto simp: Reject_def)

interpretation business_reject: outbound_laws "BusinessReject ty r n x" for ty r n x
  by (rule outbound_laws_body) (auto simp: BusinessReject_def)

interpretation sequence_reset: outbound_laws "SequenceReset g n" for g n
proof
  fix m t
  assume ok: "message_ok m" and t: "part_get timestamp_deserialize SENDING_TIME (header m) = Ok t"
  let ?m = "msg_set NEW_SEQ_NO (u64_serialize n) (msg_set GAP_FILL_FLAG (bool_serialize g) m)"
  let ?m' = "msg_set POSS_DUP_FLAG (bool_serialize True) (msg_set ORIG_SENDING_TIME (timestamp_serialize t) ?m)"
  have "write_to (SequenceReset g n) m = Ok ?m'"
    using t by (simp add: SequenceReset_def Let_def msg_set_def)
  moreover have "message_ok ?m'" using ok by (intro message_ok_set)
  moreover have "\<forall>d \<in> set identity_fields. part_get_raw d (header ?m') = part_get_raw d (header m)"
    unfolding identity_fields_def by (simp add: get_raw_msg_set)
  ultimately show "\<exists>m'. write_to (SequenceReset g n) m = Ok m' \<and> message_ok m'
      \<and> (\<forall>d \<in> set identity_fields. part_get_raw d (header m') = part_get_raw d (header m))"
    by blast
qed

interpretation business_reject_reason: field_type business_reject_reason_serialize
    business_reject_reason_deserialize "\<lambda>_. True"
proof
  fix v
  have code: "unat (of_nat (business_reject_code v) :: u32) = business_reject_code v"
    by (cases v) (simp_all add: business_reject_code_def)
  have "parse_u32 (show_u32 (of_nat (business_reject_code v))) = Some (of_nat (business_reject_code v))"
    by (rule parse_u32_show)
  then have "parse_u32 (business_reject_reason_serialize v) = Some (of_nat (business_reject_code v))"
    by (simp only: code business_reject_reason_serialize_def)
  then show "business_reject_reason_deserialize (business_reject_reason_serialize v) = Ok v"
    by (cases v) (simp_all add: business_reject_reason_deserialize_def business_reject_code_def)
qed

text \<open>The messages the engine itself writes.\<close>

definition engine_message :: "outbound_message \<Rightarrow> bool" where
  "engine_message om \<longleftrightarrow> (\<exists>r. om = Heartbeat r) \<or> (\<exists>r. om = TestRequest r) \<or> (\<exists>b e. om = ResendRequest b e)
     \<or> (\<exists>r. om = Logout r) \<or> (\<exists>h c. om = Logon h c) \<or> (\<exists>r. om = Reject r)
     \<or> (\<exists>ty r n x. om = BusinessReject ty r n x) \<or> (\<exists>g n. om = SequenceReset g n)"

lemma engine_message_laws: "engine_message om \<Longrightarrow> outbound_laws om"
  unfolding engine_message_def
  using heartbeat.outbound_laws_axioms test_request.outbound_laws_axioms resend_request.outbound_laws_axioms
    logout.outbound_laws_axioms logon.outbound_laws_axioms reject.outbound_laws_axioms
    business_reject.outbound_laws_axioms sequence_reset.outbound_laws_axioms
  by blast

lemma engine_messageI [simp]:
  "engine_message (Heartbeat r)" "engine_message (TestRequest q)" "engine_message (ResendRequest b e)"
  "engine_message (Logout r)" "engine_message (Logon h c)" "engine_message (Reject rj)"
  "engine_message (BusinessReject ty br n x)" "engine_message (SequenceReset g k)"
  unfolding engine_message_def by blast+

lemma message_type_simps [simp]:
  "message_type (Heartbeat r) = ''0''" "message_type (TestRequest q) = ''1''" "message_type (ResendRequest b e) = ''2''"
  "message_type (Reject rj) = ''3''" "message_type (SequenceReset g k) = ''4''" "message_type (Logout r) = ''5''"
  "message_type (Logon h c) = ''A''" "message_type (BusinessReject ty br n x) = ''j''"
  by (simp_all add: Heartbeat_def TestRequest_def ResendRequest_def Reject_def SequenceReset_def Logout_def
      Logon_def BusinessReject_def Let_def split: prod.split)

lemma bool_true_roundtrip [simp]: "bool_deserialize (bool_serialize True) = Ok True"
  by (simp add: bool_deserialize_def bool_serialize_def)

lemma part_pop_fst: "fm_ok m \<Longrightarrow> fst (part_pop d m) =
    (case part_get_raw d m of None \<Rightarrow> None | Some v \<Rightarrow> Some (Field (def_tag d) v))"
proof -
  assume ok: "fm_ok m"
  show ?thesis
  proof (cases "map_of (fm_fields m) (def_tag d)")
    case (Some f)
    then have "field_tag f = def_tag d"
      using fm_okD(2) [OF ok] by (auto simp: list_all_iff dest: map_of_SomeD)
    with Some show ?thesis by (cases f) (simp add: part_pop_def part_get_raw_def fm_get_raw_def)
  qed (simp add: part_pop_def part_get_raw_def fm_get_raw_def)
qed

lemma get_raw_part_pop: "fm_ok m \<Longrightarrow>
    part_get_raw d' (snd (part_pop d m)) = (if def_tag d' = def_tag d then None else part_get_raw d' m)"
  by (simp add: part_get_raw_def)

section \<open>Properties\<close>

text \<open>C37. Generated messages. Whatever session message the engine writes, with a clock that reports a valid time
  \<open>generate_message\<close> returns the encoding of a well-formed message whose BeginString, MsgType, comp IDs,
  MsgSeqNum and SendingTime are the ones asked for; in particular the \<open>expect\<close> in the SequenceReset
  writer never fails.\<close>

theorem generate_message_stamped:
  assumes "engine_message om" and "utc_now now = Ok t"
  shows "\<exists>m. generate_message now begin_string sender target n om = Ok (fst (encode default_config m))
    \<and> stamped begin_string (message_type om) sender target n t m"
  by (rule outbound_laws.generate_ok [OF engine_message_laws]) (fact assms)+

abbreviation sample_now :: calendar where
  "sample_now \<equiv> \<lparr>cal_year = 2024, cal_month = 3, cal_day = 1, cal_hour = 12, cal_minute = 30, cal_second = 15,
     cal_nanosecond = 250000000\<rparr>"

lemma sample_now_ok: "utc_now sample_now = Ok (Timestamp (Date 2024 3 1) (Time 12 30 15 250))"
  by (simp add: utc_now_def Date_new_def from_hmsm_def)

theorem generate_message_stamped_witness:
  "\<exists>m. generate_message sample_now ''FIX.4.4'' ''A'' ''B'' 7 (SequenceReset True 9) = Ok (fst (encode default_config m))
    \<and> stamped ''FIX.4.4'' ''4'' ''A'' ''B'' 7 (Timestamp (Date 2024 3 1) (Time 12 30 15 250)) m"
  using generate_message_stamped [OF engine_messageI(8) [of True 9] sample_now_ok] by simp

text \<open>Resending. A message with a readable SendingTime is always prepared: it is then marked as a possible
  duplicate and carries the new SendingTime; OrigSendingTime is the time of the first sending, kept on every
  later resend; the body, the trailer and every other header field do not change.\<close>

theorem resend_marks_duplicate:
  assumes "message_ok m" and "part_get timestamp_deserialize SENDING_TIME (header m) = Ok t" and "utc_now now = Ok u"
  shows "\<exists>m'. prepare_message_for_resend now m = (Ok (), m') \<and> poss_dup m'
    \<and> part_get timestamp_deserialize SENDING_TIME (header m') = Ok u
    \<and> part_get_raw ORIG_SENDING_TIME (header m') =
        (if poss_dup m \<and> part_get_raw ORIG_SENDING_TIME (header m) \<noteq> None
         then part_get_raw ORIG_SENDING_TIME (header m) else Some (timestamp_serialize t))
    \<and> body m' = body m \<and> trailer m' = trailer m
    \<and> (\<forall>d. def_tag d \<notin> {52, 122, 43} \<longrightarrow> part_get_raw d (header m') = part_get_raw d (header m))"
proof -
  have ok: "fm_ok (header m)" using assms(1) by (simp add: message_ok_def)
  obtain v where v: "part_get_raw SENDING_TIME (header m) = Some v" "timestamp_deserialize v = Ok t"
    using assms(2) by (auto simp: part_get_def split: option.splits outcome.splits)
  have parse: "timestamp_parse v = Some t"
    using v(2) by (auto simp: timestamp_deserialize_def split: option.splits)
  have time: "timestamp_deserialize (timestamp_serialize u) = Ok u"
    by (rule timestamp_roundtrip_aux [OF utc_now_ok [OF assms(3)]])
  obtain h where h: "part_pop SENDING_TIME (header m) = (Some (Field 52 v), h)"
    using part_pop_fst [OF ok, of SENDING_TIME] v(1) by (cases "part_pop SENDING_TIME (header m)") simp
  have raw: "part_get_raw d h = (if def_tag d = 52 then None else part_get_raw d (header m))" for d
    using get_raw_part_pop [OF ok, of d SENDING_TIME] h by simp
  show ?thesis
  proof (cases "poss_dup m \<and> part_get_raw ORIG_SENDING_TIME (header m) \<noteq> None")
    case True
    let ?m = "m\<lparr>header := part_set SENDING_TIME (timestamp_serialize u) h\<rparr>"
    have "prepare_message_for_resend now m = (Ok (), ?m)"
      using True v h assms(3) by (simp add: prepare_message_for_resend_def Let_def)
    moreover have "poss_dup ?m" using True by (simp add: poss_dup_def part_get_def raw)
    ultimately show ?thesis using True time by (simp add: part_get_def raw)
  next
    case False
    let ?m = "m\<lparr>header := part_set POSS_DUP_FLAG (bool_serialize True) (part_set SENDING_TIME (timestamp_serialize u)
      (part_set ORIG_SENDING_TIME (timestamp_serialize t) h))\<rparr>"
    have "prepare_message_for_resend now m = (Ok (), ?m)"
      using False v h parse assms(3) by (auto simp: prepare_message_for_resend_def Let_def)
    moreover have "poss_dup ?m" by (simp add: poss_dup_def part_get_def)
    ultimately show ?thesis using False time by (simp add: part_get_def raw)
  qed
qed

theorem resend_marks_duplicate_witness:
  "\<exists>m'. prepare_message_for_resend sample_now
      (msg_set SENDING_TIME ''20240301-12:00:00.000'' (Message_new ''FIX.4.4'' ''D'')) = (Ok (), m') \<and> poss_dup m'
    \<and> part_get_raw ORIG_SENDING_TIME (header m') = Some ''20240301-12:00:00.000''"
proof -
  let ?t = "Timestamp (Date 2024 3 1) (Time 12 0 0 0)"
  let ?m = "msg_set SENDING_TIME ''20240301-12:00:00.000'' (Message_new ''FIX.4.4'' ''D'')"
  have ok: "message_ok ?m" by (intro message_ok_set message_ok_new)
  have ser: "timestamp_serialize ?t = ''20240301-12:00:00.000''" by code_simp
  have "timestamp_deserialize ''20240301-12:00:00.000'' = Ok ?t" by code_simp
  then have get: "part_get timestamp_deserialize SENDING_TIME (header ?m) = Ok ?t"
    by (simp add: part_get_def get_raw_msg_set)
  have "part_get_raw ORIG_SENDING_TIME (header ?m) = None"
    by (simp add: get_raw_msg_set Message_new_def) (simp add: part_get_raw_def)
  then show ?thesis using resend_marks_duplicate [OF ok get sample_now_ok] ser by auto
qed

end
