(* ===== verification/Verification.thy ===== *)
theory Verification
  imports Outbound_Messages Store
begin

text \<open>
  Verification of an inbound message (\<^verbatim>\<open>message/verification.rs\<close>, \<^verbatim>\<open>message/verification_issue.rs\<close>), with the part of
  \<open>SessionConfig\<close> the session reads and the errors of \<^verbatim>\<open>session/error.rs\<close>. The conversion of a timestamp to
  \<open>chrono\<close>'s clock is the argument \<open>to_chrono_utc\<close>, in nanoseconds; it may fail.
\<close>

section \<open>Configuration and errors\<close>

text \<open>The fields of \<open>SessionConfig\<close> the session reads while it runs. The dictionary path, the schedule and the
  validation settings are consumed when the session is created and are arguments there; host, port, TLS
  and the reconnect interval concern the transport.\<close>

record session_config =
  begin_string :: bytes
  sender_comp_id :: bytes
  target_comp_id :: bytes
  heartbeat_interval :: u64
  logon_timeout :: u64
  logout_timeout :: u64
  reset_on_logon :: bool

datatype internal_send_error = Persist store_error | SequenceNumber store_error

datatype session_operation_error =
    SendFailed internal_send_error bytes
  | StoreFailed store_error
  | StoredMessageParse bytes
  | MissingField bytes

text \<open>\<open>err.to_string()\<close>.\<close>

definition display_error :: "session_operation_error \<Rightarrow> bytes" where
  "display_error e = (case e of
      SendFailed _ c \<Rightarrow> ''failed to send '' @ c
    | StoreFailed _ \<Rightarrow> ''store operation failed''
    | StoredMessageParse d \<Rightarrow> ''failed to parse stored message: '' @ d
    | MissingField f \<Rightarrow> ''missing required field: '' @ f)"

datatype comp_id_type = Sender | Target

datatype message_error =
    SeqNumberTooLow (low_expected: u64) (low_actual: u64) (low_possible_duplicate: bool)
  | IncorrectBeginString bytes
  | IncorrectCompId bytes comp_id_type u64
  | SendingTimeAccuracyIssue u64
  | SendingTimeMissing u64
  | OriginalSendingTimeMissing u64
  | OriginalSendingTimeAfterSendingTime u64 timestamp timestamp

datatype verification_issue = SequenceGap u64 u64 | InvalidMessage message_error

section \<open>Flags\<close>

definition SENDING_TIME_THRESHOLD :: int where "SENDING_TIME_THRESHOLD = 120"

record verification_flags =
  check_too_high :: bool
  check_too_low :: bool
  check_orig_sending_time :: bool

definition requires_sequence_number :: "verification_flags \<Rightarrow> bool" where
  "requires_sequence_number f \<longleftrightarrow> check_too_high f \<or> check_too_low f"

definition unwrap_or :: "'v \<Rightarrow> ('v, 'e) outcome \<Rightarrow> 'v" where
  "unwrap_or d r = (case r of Ok v \<Rightarrow> v | _ \<Rightarrow> d)"

definition for_message :: "message \<Rightarrow> (verification_flags, session_operation_error) outcome" where
  "for_message m = (case part_get str_deserialize MSG_TYPE (header m) of
      Ok mt \<Rightarrow>
        let possible_duplicate = poss_dup m in
        Ok (if mt = ResendRequest_MSG_TYPE \<or> mt = Reject_MSG_TYPE then
              \<lparr>check_too_high = False, check_too_low = True, check_orig_sending_time = possible_duplicate\<rparr>
            else if mt = Logout_MSG_TYPE then
              \<lparr>check_too_high = False, check_too_low = False, check_orig_sending_time = possible_duplicate\<rparr>
            else if mt = SequenceReset_MSG_TYPE then
              let is_gap_fill = unwrap_or False (msg_get bool_deserialize GAP_FILL_FLAG m) in
              \<lparr>check_too_high = is_gap_fill, check_too_low = is_gap_fill, check_orig_sending_time = False\<rparr>
            else \<lparr>check_too_high = True, check_too_low = True, check_orig_sending_time = possible_duplicate\<rparr>)
    | _ \<Rightarrow> Err (MissingField ''MSG_TYPE''))"

section \<open>Checks\<close>

definition check_begin_string :: "message \<Rightarrow> bytes \<Rightarrow> (unit, message_error) outcome" where
  "check_begin_string m expected =
     (let bs = unwrap_or '''' (part_get str_deserialize BEGIN_STRING (header m)) in
      if bs \<noteq> expected then Err (IncorrectBeginString bs) else Ok ())"

definition check_sending_time ::
    "(timestamp \<Rightarrow> utc option) \<Rightarrow> calendar \<Rightarrow> message \<Rightarrow> u64 \<Rightarrow> (timestamp, message_error) outcome" where
  "check_sending_time to_chrono_utc now m n =
     (case part_get timestamp_deserialize SENDING_TIME (header m) of
        Ok sending_time \<Rightarrow> (case utc_now now of
            Ok now_ts \<Rightarrow> (case (to_chrono_utc sending_time, to_chrono_utc now_ts) of
                (Some s, Some t) \<Rightarrow>
                  let diff = (if s > t then s - t else t - s) in
                  if diff div 1000000000 > SENDING_TIME_THRESHOLD then Err (SendingTimeAccuracyIssue n)
                  else Ok sending_time
              | _ \<Rightarrow> Ok sending_time)
          | _ \<Rightarrow> Panic)
      | _ \<Rightarrow> Err (SendingTimeMissing n))"

definition check_original_sending_time :: "message \<Rightarrow> u64 \<Rightarrow> timestamp \<Rightarrow> (unit, message_error) outcome" where
  "check_original_sending_time m n sending_time =
     (case part_get timestamp_deserialize ORIG_SENDING_TIME (header m) of
        Ok original \<Rightarrow> if original > sending_time
          then Err (OriginalSendingTimeAfterSendingTime n original sending_time) else Ok ()
      | _ \<Rightarrow> Err (OriginalSendingTimeMissing n))"

definition check_sender_comp_id :: "message \<Rightarrow> u64 \<Rightarrow> bytes \<Rightarrow> (unit, message_error) outcome" where
  "check_sender_comp_id m n expected =
     (let actual = unwrap_or '''' (part_get str_deserialize SENDER_COMP_ID (header m)) in
      if actual \<noteq> expected then Err (IncorrectCompId actual Sender n) else Ok ())"

definition check_target_comp_id :: "message \<Rightarrow> u64 \<Rightarrow> bytes \<Rightarrow> (unit, message_error) outcome" where
  "check_target_comp_id m n expected =
     (let actual = unwrap_or '''' (part_get str_deserialize TARGET_COMP_ID (header m)) in
      if actual \<noteq> expected then Err (IncorrectCompId actual Target n) else Ok ())"

definition check_sequence_number ::
    "u64 \<Rightarrow> u64 \<Rightarrow> bool \<Rightarrow> bool \<Rightarrow> bool \<Rightarrow> (unit, verification_issue) outcome" where
  "check_sequence_number actual expected possible_duplicate too_high too_low =
     (if actual > expected \<and> too_high then Err (SequenceGap expected actual)
      else if actual < expected \<and> too_low then
        Err (InvalidMessage (SeqNumberTooLow expected actual possible_duplicate))
      else Ok ())"

text \<open>\<open>check(..)?\<close> with the conversion \<open>From<MessageError>\<close>.\<close>

definition checked :: "('a, message_error) outcome \<Rightarrow> ('a \<Rightarrow> (unit, verification_issue) outcome) \<Rightarrow> (unit, verification_issue) outcome" where
  "checked r f = (case r of Ok a \<Rightarrow> f a | Err e \<Rightarrow> Err (InvalidMessage e) | Panic \<Rightarrow> Panic)"

definition msg_seq_num_or_default :: "message \<Rightarrow> u64" where
  "msg_seq_num_or_default m = unwrap_or 0 (part_get u64_deserialize MSG_SEQ_NUM (header m))"

definition verify_message ::
    "(timestamp \<Rightarrow> utc option) \<Rightarrow> calendar \<Rightarrow> message \<Rightarrow> session_config \<Rightarrow> u64 option \<Rightarrow> verification_flags
     \<Rightarrow> (unit, verification_issue) outcome" where
  "verify_message to_chrono_utc now m cfg expected_seq_number flags =
     checked (check_begin_string m (begin_string cfg)) (\<lambda>_.
       let actual_seq_number = msg_seq_num_or_default m in
       checked (check_sender_comp_id m actual_seq_number (target_comp_id cfg)) (\<lambda>_.
       checked (check_target_comp_id m actual_seq_number (sender_comp_id cfg)) (\<lambda>_.
       checked (check_sending_time to_chrono_utc now m actual_seq_number) (\<lambda>sending_time.
       checked (if check_orig_sending_time flags then check_original_sending_time m actual_seq_number sending_time
                else Ok ()) (\<lambda>_.
       case expected_seq_number of
         None \<Rightarrow> Ok ()
       | Some expected \<Rightarrow> check_sequence_number actual_seq_number expected (poss_dup m)
           (check_too_high flags) (check_too_low flags))))))"

section \<open>Lemmas\<close>

text \<open>Everything but the sequence number.\<close>

definition authentic :: "(timestamp \<Rightarrow> utc option) \<Rightarrow> calendar \<Rightarrow> message \<Rightarrow> session_config \<Rightarrow> verification_flags \<Rightarrow> bool" where
  "authentic to_chrono_utc now m cfg flags \<longleftrightarrow>
     unwrap_or '''' (part_get str_deserialize BEGIN_STRING (header m)) = begin_string cfg
     \<and> unwrap_or '''' (part_get str_deserialize SENDER_COMP_ID (header m)) = target_comp_id cfg
     \<and> unwrap_or '''' (part_get str_deserialize TARGET_COMP_ID (header m)) = sender_comp_id cfg
     \<and> (\<exists>t. part_get timestamp_deserialize SENDING_TIME (header m) = Ok t
          \<and> (\<forall>u s v. utc_now now = Ok u \<longrightarrow> to_chrono_utc t = Some s \<longrightarrow> to_chrono_utc u = Some v
               \<longrightarrow> \<bar>s - v\<bar> < 121 * 1000000000)
          \<and> (check_orig_sending_time flags \<longrightarrow>
               (\<exists>orig. part_get timestamp_deserialize ORIG_SENDING_TIME (header m) = Ok orig \<and> orig \<le> t)))"

lemma checked_Ok [simp]: "checked (Ok a) f = f a"
  by (simp add: checked_def)

lemma checked_Err [simp]: "checked (Err e) f = Err (InvalidMessage e)"
  by (simp add: checked_def)

lemma within_threshold: "SENDING_TIME_THRESHOLD < d div 1000000000 \<longleftrightarrow> 121000000000 \<le> d"
  unfolding SENDING_TIME_THRESHOLD_def by linarith

lemma check_sending_time_Ok:
  assumes "utc_now now = Ok u"
  shows "check_sending_time c now m n = Ok t \<longleftrightarrow> part_get timestamp_deserialize SENDING_TIME (header m) = Ok t
    \<and> (\<forall>s v. c t = Some s \<longrightarrow> c u = Some v \<longrightarrow> \<bar>s - v\<bar> < 121 * 1000000000)"
  using assms
  by (auto simp: check_sending_time_def Let_def within_threshold simp del: session_fields
      split: outcome.splits option.splits if_splits)

lemma check_original_sending_time_Ok:
  "check_original_sending_time m n t = Ok () \<longleftrightarrow>
     (\<exists>orig. part_get timestamp_deserialize ORIG_SENDING_TIME (header m) = Ok orig \<and> orig \<le> t)"
  by (auto simp: check_original_sending_time_def not_le simp del: session_fields split: outcome.splits if_splits)

lemma check_comp_id_Ok:
  "check_begin_string m b = Ok () \<longleftrightarrow> unwrap_or '''' (part_get str_deserialize BEGIN_STRING (header m)) = b"
  "check_sender_comp_id m n c = Ok () \<longleftrightarrow> unwrap_or '''' (part_get str_deserialize SENDER_COMP_ID (header m)) = c"
  "check_target_comp_id m n c = Ok () \<longleftrightarrow> unwrap_or '''' (part_get str_deserialize TARGET_COMP_ID (header m)) = c"
  by (auto simp: check_begin_string_def check_sender_comp_id_def check_target_comp_id_def Let_def)

lemma authentic_checks:
  assumes "utc_now now = Ok u"
  shows "authentic c now m cfg flags \<longleftrightarrow>
    check_begin_string m (begin_string cfg) = Ok () \<and> check_sender_comp_id m n (target_comp_id cfg) = Ok ()
    \<and> check_target_comp_id m n (sender_comp_id cfg) = Ok ()
    \<and> (\<exists>t. check_sending_time c now m n = Ok t
        \<and> (check_orig_sending_time flags \<longrightarrow> check_original_sending_time m n t = Ok ()))"
  using assms
  by (auto simp: authentic_def check_sending_time_Ok check_original_sending_time_Ok check_comp_id_Ok simp del: session_fields field_defs)

text \<open>Once a message is authentic, only its sequence number is left to judge; one that is not is an invalid
  message, whatever its number.\<close>

lemma verify_authentic:
  assumes "utc_now now = Ok u" and "authentic c now m cfg flags"
  shows "verify_message c now m cfg expected flags = (case expected of
      None \<Rightarrow> Ok ()
    | Some e \<Rightarrow> check_sequence_number (msg_seq_num_or_default m) e (poss_dup m) (check_too_high flags) (check_too_low flags))"
  using assms(2) unfolding authentic_checks [OF assms(1), of _ _ _ _ "msg_seq_num_or_default m"]
  by (auto simp: verify_message_def Let_def)

lemma checks_no_panic:
  assumes "utc_now now = Ok u"
  shows "check_begin_string m b \<noteq> Panic" "check_sender_comp_id m n b \<noteq> Panic" "check_target_comp_id m n b \<noteq> Panic"
    "check_sending_time c now m n \<noteq> Panic" "check_original_sending_time m n t \<noteq> Panic"
  using assms
  by (auto simp: check_sending_time_def check_original_sending_time_def check_begin_string_def
      check_sender_comp_id_def check_target_comp_id_def Let_def split: outcome.splits option.splits)

lemma checks_not_low:
  "check_begin_string m b \<noteq> Err (SeqNumberTooLow e k d)" "check_sender_comp_id m n b \<noteq> Err (SeqNumberTooLow e k d)"
  "check_target_comp_id m n b \<noteq> Err (SeqNumberTooLow e k d)" "check_sending_time c now m n \<noteq> Err (SeqNumberTooLow e k d)"
  "check_original_sending_time m n t \<noteq> Err (SeqNumberTooLow e k d)"
  by (auto simp: check_sending_time_def check_original_sending_time_def check_begin_string_def
      check_sender_comp_id_def check_target_comp_id_def Let_def split: outcome.splits option.splits)

lemma checked_Err_not_low:
  "r = Err e \<Longrightarrow> (\<And>x k d. r \<noteq> Err (SeqNumberTooLow x k d))
   \<Longrightarrow> \<exists>e. checked r f = Err (InvalidMessage e) \<and> (\<forall>x k d. e \<noteq> SeqNumberTooLow x k d)"
  by auto

lemma verify_not_authentic:
  assumes now: "utc_now now = Ok u" and no: "\<not> authentic c now m cfg flags"
  shows "\<exists>e. verify_message c now m cfg expected flags = Err (InvalidMessage e) \<and> (\<forall>x k d. e \<noteq> SeqNumberTooLow x k d)"
proof -
  let ?n = "msg_seq_num_or_default m"
  note np = checks_no_panic [OF now]
  consider (bs) e where "check_begin_string m (begin_string cfg) = Err e"
    | (sender) e where "check_begin_string m (begin_string cfg) = Ok ()"
        "check_sender_comp_id m ?n (target_comp_id cfg) = Err e"
    | (target) e where "check_begin_string m (begin_string cfg) = Ok ()"
        "check_sender_comp_id m ?n (target_comp_id cfg) = Ok ()" "check_target_comp_id m ?n (sender_comp_id cfg) = Err e"
    | (time) e where "check_begin_string m (begin_string cfg) = Ok ()"
        "check_sender_comp_id m ?n (target_comp_id cfg) = Ok ()" "check_target_comp_id m ?n (sender_comp_id cfg) = Ok ()"
        "check_sending_time c now m ?n = Err e"
    | (orig) t e where "check_begin_string m (begin_string cfg) = Ok ()"
        "check_sender_comp_id m ?n (target_comp_id cfg) = Ok ()" "check_target_comp_id m ?n (sender_comp_id cfg) = Ok ()"
        "check_sending_time c now m ?n = Ok t" "check_orig_sending_time flags" "check_original_sending_time m ?n t = Err e"
    using no np unfolding authentic_checks [OF now, of _ _ _ _ ?n]
    by (metis (full_types) old.unit.exhaust outcome.exhaust)
  then show ?thesis
    by cases (simp_all add: verify_message_def Let_def checks_not_low, (metis checks_not_low)+)
qed

section \<open>Properties\<close>

text \<open>C7. Verification decides. With a clock that reports a valid time, a message is accepted exactly when it is
  authentic (BeginString, comp IDs, SendingTime within the threshold, OrigSendingTime no later than it where the
  flags ask) and its number is neither too high nor too low as far as the flags check. A gap is reported only for an
  authentic message above the expected number, too low only for an authentic one below it; every other message is
  invalid for another reason, and nothing panics.\<close>

theorem verify_message_decides:
  assumes "utc_now now = Ok u"
  shows "case verify_message c now m cfg (Some e) flags of
      Ok _ \<Rightarrow> authentic c now m cfg flags \<and> (check_too_high flags \<longrightarrow> msg_seq_num_or_default m \<le> e)
        \<and> (check_too_low flags \<longrightarrow> e \<le> msg_seq_num_or_default m)
    | Err (SequenceGap x n) \<Rightarrow> authentic c now m cfg flags \<and> check_too_high flags \<and> x = e
        \<and> n = msg_seq_num_or_default m \<and> e < n
    | Err (InvalidMessage (SeqNumberTooLow x n d)) \<Rightarrow> authentic c now m cfg flags \<and> check_too_low flags \<and> x = e
        \<and> n = msg_seq_num_or_default m \<and> n < e \<and> d = poss_dup m
    | Err (InvalidMessage _) \<Rightarrow> \<not> authentic c now m cfg flags
    | Panic \<Rightarrow> False"
proof (cases "authentic c now m cfg flags")
  case True
  then show ?thesis
    unfolding verify_authentic [OF assms True] by (auto simp: check_sequence_number_def not_less)
next
  case False
  then obtain i where "verify_message c now m cfg (Some e) flags = Err (InvalidMessage i)" "\<forall>x k d. i \<noteq> SeqNumberTooLow x k d"
    using verify_not_authentic [OF assms] by blast
  with False show ?thesis by (cases i) auto
qed

definition sample_config :: session_config where
  "sample_config = \<lparr>begin_string = ''FIX.4.4'', sender_comp_id = ''A'', target_comp_id = ''B'', heartbeat_interval = 30,
     logon_timeout = 10, logout_timeout = 2, reset_on_logon = False\<rparr>"

definition sample_inbound :: "u64 \<Rightarrow> message" where
  "sample_inbound n = msg_set SENDING_TIME ''20240301-12:30:00.000'' (msg_set MSG_SEQ_NUM (u64_serialize n)
     (msg_set TARGET_COMP_ID ''A'' (msg_set SENDER_COMP_ID ''B'' (Message_new ''FIX.4.4'' ''D''))))"

lemma sample_inbound_fields:
  "part_get str_deserialize BEGIN_STRING (header (sample_inbound n)) = Ok ''FIX.4.4''"
  "part_get str_deserialize SENDER_COMP_ID (header (sample_inbound n)) = Ok ''B''"
  "part_get str_deserialize TARGET_COMP_ID (header (sample_inbound n)) = Ok ''A''"
  "part_get timestamp_deserialize SENDING_TIME (header (sample_inbound n)) = Ok (Timestamp (Date 2024 3 1) (Time 12 30 0 0))"
  "msg_seq_num_or_default (sample_inbound n) = n" "poss_dup (sample_inbound n) = False"
proof -
  have str: "str_deserialize ''FIX.4.4'' = Ok ''FIX.4.4''" "str_deserialize ''A'' = Ok ''A''"
    "str_deserialize ''B'' = Ok ''B''"
    by code_simp+
  have time: "timestamp_deserialize ''20240301-12:30:00.000'' = Ok (Timestamp (Date 2024 3 1) (Time 12 30 0 0))"
    by code_simp
  show "part_get str_deserialize BEGIN_STRING (header (sample_inbound n)) = Ok ''FIX.4.4''"
    "part_get str_deserialize SENDER_COMP_ID (header (sample_inbound n)) = Ok ''B''"
    "part_get str_deserialize TARGET_COMP_ID (header (sample_inbound n)) = Ok ''A''"
    "part_get timestamp_deserialize SENDING_TIME (header (sample_inbound n)) = Ok (Timestamp (Date 2024 3 1) (Time 12 30 0 0))"
    by (simp_all add: part_get_def sample_inbound_def get_raw_msg_set Message_new_def str time)
  show "msg_seq_num_or_default (sample_inbound n) = n"
    by (simp add: msg_seq_num_or_default_def part_get_def sample_inbound_def get_raw_msg_set u64_field.roundtrip unwrap_or_def)
  show "poss_dup (sample_inbound n) = False"
    by (simp add: poss_dup_def part_get_def sample_inbound_def get_raw_msg_set Message_new_def)
      (simp add: part_get_raw_def)
qed

lemma sample_inbound_authentic:
  "\<not> check_orig_sending_time flags \<Longrightarrow> authentic (\<lambda>_. None) sample_now (sample_inbound n) sample_config flags"
  using sample_inbound_fields [of n]
  by (simp add: authentic_def sample_config_def unwrap_or_def del: session_fields field_defs)

theorem verify_message_decides_witness:
  "case verify_message (\<lambda>_. None) sample_now (sample_inbound 7) sample_config (Some 5)
     \<lparr>check_too_high = True, check_too_low = True, check_orig_sending_time = False\<rparr> of
      Err (SequenceGap x n) \<Rightarrow> x = 5 \<and> n = 7 | _ \<Rightarrow> False"
proof -
  let ?f = "\<lparr>check_too_high = True, check_too_low = True, check_orig_sending_time = False\<rparr>"
  have "verify_message (\<lambda>_. None) sample_now (sample_inbound 7) sample_config (Some 5) ?f = Err (SequenceGap 5 7)"
    using verify_authentic [OF sample_now_ok sample_inbound_authentic [of ?f 7], of "Some 5"]
    by (simp add: check_sequence_number_def sample_inbound_fields)
  then show ?thesis
    using verify_message_decides [OF sample_now_ok, where c = "\<lambda>_. None" and m = "sample_inbound 7"
      and cfg = sample_config and e = 5 and flags = ?f]
    by (simp add: sample_inbound_fields)
qed

text \<open>Sequence number policy. Which numbers are judged depends on the message type: a Logout is never refused for
  its number, a ResendRequest, a Reject or a reset-mode SequenceReset never opens a gap, and every other message above the
  expected number does when it is otherwise in order.\<close>

theorem sequence_policy:
  assumes "utc_now now = Ok u" and "for_message m = Ok flags" and "authentic c now m cfg flags"
    and "part_get str_deserialize MSG_TYPE (header m) = Ok mt"
    and "gap_fill = unwrap_or False (msg_get bool_deserialize GAP_FILL_FLAG m)"
  shows "((\<exists>x n. verify_message c now m cfg (Some e) flags = Err (SequenceGap x n)) \<longleftrightarrow>
      e < msg_seq_num_or_default m \<and> mt \<notin> {''2'', ''3'', ''5''} \<and> (mt = ''4'' \<longrightarrow> gap_fill))
    \<and> ((\<exists>x n d. verify_message c now m cfg (Some e) flags = Err (InvalidMessage (SeqNumberTooLow x n d))) \<longleftrightarrow>
      msg_seq_num_or_default m < e \<and> mt \<noteq> ''5'' \<and> (mt = ''4'' \<longrightarrow> gap_fill))"
  using assms(2,4) assms(5) verify_authentic [OF assms(1,3), of "Some e"]
  by (auto simp: for_message_def check_sequence_number_def Let_def split: if_splits)

theorem sequence_policy_witness:
  "\<exists>x n. verify_message (\<lambda>_. None) sample_now (sample_inbound 7) sample_config (Some 5)
      \<lparr>check_too_high = True, check_too_low = True, check_orig_sending_time = False\<rparr> = Err (SequenceGap x n)"
proof -
  let ?f = "\<lparr>check_too_high = True, check_too_low = True, check_orig_sending_time = False\<rparr>"
  have "str_deserialize ''D'' = Ok ''D''" by code_simp
  then have mt: "part_get str_deserialize MSG_TYPE (header (sample_inbound 7)) = Ok ''D''"
    by (simp add: part_get_def sample_inbound_def get_raw_msg_set Message_new_def)
  then have f: "for_message (sample_inbound 7) = Ok ?f"
    by (simp add: for_message_def sample_inbound_fields)
  show ?thesis
    using sequence_policy [OF sample_now_ok f sample_inbound_authentic mt refl, of 5]
    by (simp add: sample_inbound_fields)
qed

end
