(* ===== verification/Session_State.thy ===== *)
theory Session_State
  imports Verification
begin

text \<open>
  The states of a session (\<^verbatim>\<open>session/state.rs\<close>, \<^verbatim>\<open>session/state/\<close>) and everything a state decides by itself: transitions on
  logout and disconnect, pre-processing of inbound messages, the resend bookkeeping, the timers and the
  schedule awaiter. A \<open>WriterRef\<close> is a handle to the channel of one connection and a oneshot sender one to its
  receiver, so both are numbers; an \<open>Instant\<close> counts nanoseconds and the current one is an argument. The
  operations that also use the store, the writer or the application are in \<^verbatim>\<open>Session\<close>.
\<close>

type_synonym writer_ref = nat
type_synonym responder = nat
type_synonym instant = nat

section \<open>Data\<close>

record active_state =
  act_writer :: writer_ref
  act_heartbeat_deadline :: instant
  act_peer_deadline :: instant
  sent_test_request_id :: "bytes option"

record awaiting_logon_state =
  logon_writer :: writer_ref
  logon_sent :: bool
  logon_deadline :: instant

record awaiting_logout_state =
  logout_writer :: writer_ref
  logout_deadline :: instant
  logout_reconnect :: bool

record awaiting_resend_state =
  resend_writer :: writer_ref
  begin_seq_number :: u64
  end_seq_number :: u64
  inbound_queue :: "message list"
  resend_attempts :: nat

record disconnected_state =
  reconnect :: bool
  schedule_awaiter :: "responder option"
  disconnect_reason :: bytes

datatype session_state =
    AwaitingLogon awaiting_logon_state
  | AwaitingResend awaiting_resend_state
  | AwaitingLogout awaiting_logout_state
  | Active active_state
  | Disconnected disconnected_state

datatype session_status =
    StatusAwaitingLogon
  | StatusAwaitingResend u64 u64 nat
  | StatusAwaitingLogout
  | StatusActive
  | StatusLoggedOut
  | StatusDisconnected

datatype transition_result = Stay | TransitionTo session_state

datatype pre_process_decision = Accept message | Queued | DisconnectWriter

datatype verification_result = Passed | Issue transition_result

datatype awaiting_resend_outcome = Success | BeginSeqNumberTooLow | AttemptsExceeded

datatype schedule_response = InSchedule | Shutdown

definition from_secs :: "nat \<Rightarrow> nat" where
  "from_secs n = n * 1000000000"

section \<open>Construction\<close>

text \<open>\<^verbatim>\<open>(heartbeat_interval as f64 * 1.2).round()\<close>. A multiple of six fifths is never halfway between integers, and below
  \<open>2^49\<close> seconds the error of the product is less than the distance to the nearest halfway point, so the rounding
  is exact there.\<close>

definition calculate_peer_interval :: "u64 \<Rightarrow> nat" where
  "calculate_peer_interval hb = (12 * unat hb + 5) div 10"

definition new_disconnected :: "bool \<Rightarrow> bytes \<Rightarrow> session_state" where
  "new_disconnected rc r = Disconnected \<lparr>reconnect = rc, schedule_awaiter = None, disconnect_reason = r\<rparr>"

text \<open>The clock is read once for each deadline.\<close>

definition new_active :: "instant \<times> instant \<Rightarrow> writer_ref \<Rightarrow> u64 \<Rightarrow> session_state" where
  "new_active now w hb = Active \<lparr>act_writer = w, act_heartbeat_deadline = fst now + from_secs (unat hb),
     act_peer_deadline = snd now + from_secs (calculate_peer_interval hb), sent_test_request_id = None\<rparr>"

definition AwaitingResendState_new :: "writer_ref \<Rightarrow> u64 \<Rightarrow> u64 \<Rightarrow> awaiting_resend_state" where
  "AwaitingResendState_new w b e = \<lparr>resend_writer = w, begin_seq_number = b, end_seq_number = e,
     inbound_queue = [], resend_attempts = 1\<rparr>"

section \<open>Transitions\<close>

definition state_on_peer_logout :: "session_state \<Rightarrow> transition_result" where
  "state_on_peer_logout st = (case st of
      AwaitingLogout s \<Rightarrow> TransitionTo (new_disconnected (logout_reconnect s) ''logout completed'')
    | Disconnected _ \<Rightarrow> Stay
    | _ \<Rightarrow> TransitionTo (new_disconnected True ''peer has logged us out''))"

definition state_on_disconnect :: "session_state \<Rightarrow> bytes \<Rightarrow> transition_result" where
  "state_on_disconnect st r = (case st of
      AwaitingLogout s \<Rightarrow> TransitionTo (new_disconnected (logout_reconnect s) r)
    | Disconnected _ \<Rightarrow> Stay
    | _ \<Rightarrow> TransitionTo (new_disconnected True r))"

definition should_reconnect :: "session_state \<Rightarrow> bool" where
  "should_reconnect st = (case st of Disconnected s \<Rightarrow> reconnect s | _ \<Rightarrow> True)"

definition get_writer :: "session_state \<Rightarrow> writer_ref option" where
  "get_writer st = (case st of
      Active s \<Rightarrow> Some (act_writer s)
    | AwaitingLogon s \<Rightarrow> Some (logon_writer s)
    | AwaitingLogout s \<Rightarrow> Some (logout_writer s)
    | AwaitingResend s \<Rightarrow> Some (resend_writer s)
    | Disconnected _ \<Rightarrow> None)"

definition try_transition_to_awaiting_logout :: "instant \<Rightarrow> u64 \<Rightarrow> bool \<Rightarrow> session_state \<Rightarrow> transition_result" where
  "try_transition_to_awaiting_logout now timeout rc st = (case st of
      AwaitingLogout _ \<Rightarrow> Stay
    | _ \<Rightarrow> (case get_writer st of
        Some w \<Rightarrow> TransitionTo (AwaitingLogout
          \<lparr>logout_writer = w, logout_deadline = now + from_secs (unat timeout), logout_reconnect = rc\<rparr>)
      | None \<Rightarrow> Stay))"

text \<open>\<^verbatim>\<open>get_msg_seq_num\<close> of \<^verbatim>\<open>session.rs\<close> panics when MsgSeqNum is missing or not a number.\<close>

definition get_msg_seq_num :: "message \<Rightarrow> (u64, 'e) outcome" where
  "get_msg_seq_num m = (case part_get u64_deserialize MSG_SEQ_NUM (header m) of Ok n \<Rightarrow> Ok n | _ \<Rightarrow> Panic)"

definition msg_type_of :: "message \<Rightarrow> (bytes, string field_value_error) outcome" where
  "msg_type_of m = part_get str_deserialize MSG_TYPE (header m)"

definition resend_pre_process_inbound ::
    "message \<Rightarrow> awaiting_resend_state \<Rightarrow> (pre_process_decision \<times> awaiting_resend_state, 'e) outcome" where
  "resend_pre_process_inbound m s =
     (let dominated_by_resend = (case msg_type_of m of Ok t \<Rightarrow> t \<noteq> ResendRequest_MSG_TYPE | _ \<Rightarrow> False) in
      case get_msg_seq_num m of
        Ok n \<Rightarrow> if n > end_seq_number s \<and> dominated_by_resend
                then Ok (Queued, s\<lparr>inbound_queue := inbound_queue s @ [m]\<rparr>)
                else Ok (Accept m, s)
      | Err e \<Rightarrow> Err e
      | Panic \<Rightarrow> Panic)"

definition logon_pre_process_inbound :: "message \<Rightarrow> pre_process_decision" where
  "logon_pre_process_inbound m = (if msg_type_of m = Ok Logon_MSG_TYPE then Accept m else DisconnectWriter)"

definition pre_process_inbound :: "message \<Rightarrow> session_state \<Rightarrow> (pre_process_decision \<times> session_state, 'e) outcome" where
  "pre_process_inbound m st = (case st of
      AwaitingResend s \<Rightarrow> (case resend_pre_process_inbound m s of
          Ok (d, s') \<Rightarrow> Ok (d, AwaitingResend s')
        | Err e \<Rightarrow> Err e
        | Panic \<Rightarrow> Panic)
    | AwaitingLogon s \<Rightarrow> Ok (logon_pre_process_inbound m, st)
    | _ \<Rightarrow> Ok (Accept m, st))"

section \<open>Resend bookkeeping\<close>

definition MAX_RESEND_ATTEMPTS :: nat where "MAX_RESEND_ATTEMPTS = 3"

definition try_complete ::
    "instant \<times> instant \<Rightarrow> u64 \<Rightarrow> u64 \<Rightarrow> awaiting_resend_state \<Rightarrow> (session_state \<times> message list) option" where
  "try_complete now next_target_seq hb s =
     (if next_target_seq > end_seq_number s then Some (new_active now (resend_writer s) hb, inbound_queue s) else None)"

definition resend_update ::
    "u64 \<Rightarrow> u64 \<Rightarrow> awaiting_resend_state \<Rightarrow> awaiting_resend_outcome \<times> awaiting_resend_state" where
  "resend_update b e s =
     (let go = (\<lambda>n. (Success, s\<lparr>resend_attempts := n, begin_seq_number := b, end_seq_number := e\<rparr>)) in
      if begin_seq_number s = b then
        if resend_attempts s + 1 > MAX_RESEND_ATTEMPTS then (AttemptsExceeded, s) else go (resend_attempts s + 1)
      else if b < begin_seq_number s then (BeginSeqNumberTooLow, s)
      else go 1)"

section \<open>Schedule awaiter\<close>

text \<open>The new state and, when the responder is answered at once, the answer.\<close>

definition register_schedule_awaiter :: "responder \<Rightarrow> session_state \<Rightarrow> session_state \<times> schedule_response option" where
  "register_schedule_awaiter r st = (case st of
      Disconnected s \<Rightarrow> if schedule_awaiter s \<noteq> None then (st, Some Shutdown)
                        else (Disconnected (s\<lparr>schedule_awaiter := Some r\<rparr>), None)
    | _ \<Rightarrow> (st, Some Shutdown))"

text \<open>The new state and the responder that is told \<open>InSchedule\<close>.\<close>

definition notify_schedule_awaiter :: "session_state \<Rightarrow> session_state \<times> responder option" where
  "notify_schedule_awaiter st = (case st of
      Disconnected s \<Rightarrow> (Disconnected (s\<lparr>schedule_awaiter := None\<rparr>), schedule_awaiter s)
    | _ \<Rightarrow> (st, None))"

section \<open>Timers and queries\<close>

definition heartbeat_deadline :: "session_state \<Rightarrow> instant option" where
  "heartbeat_deadline st = (case st of Active s \<Rightarrow> Some (act_heartbeat_deadline s) | _ \<Rightarrow> None)"

definition state_reset_heartbeat_timer :: "instant \<Rightarrow> u64 \<Rightarrow> session_state \<Rightarrow> session_state" where
  "state_reset_heartbeat_timer now hb st = (case st of
      Active s \<Rightarrow> Active (s\<lparr>act_heartbeat_deadline := now + from_secs (unat hb)\<rparr>)
    | _ \<Rightarrow> st)"

definition peer_deadline :: "session_state \<Rightarrow> instant option" where
  "peer_deadline st = (case st of
      Active s \<Rightarrow> Some (act_peer_deadline s)
    | AwaitingLogon s \<Rightarrow> Some (logon_deadline s)
    | AwaitingLogout s \<Rightarrow> Some (logout_deadline s)
    | _ \<Rightarrow> None)"

definition state_reset_peer_timer :: "instant \<Rightarrow> u64 \<Rightarrow> bytes option \<Rightarrow> session_state \<Rightarrow> session_state" where
  "state_reset_peer_timer now hb test_request_id st = (case st of
      Active s \<Rightarrow> Active (s\<lparr>act_peer_deadline := now + from_secs (calculate_peer_interval hb),
                          sent_test_request_id := test_request_id\<rparr>)
    | _ \<Rightarrow> st)"

definition expected_test_response_id :: "session_state \<Rightarrow> bytes option" where
  "expected_test_response_id st = (case st of Active s \<Rightarrow> sent_test_request_id s | _ \<Rightarrow> None)"

definition is_connected :: "session_state \<Rightarrow> bool" where
  "is_connected st \<longleftrightarrow> get_writer st \<noteq> None"

definition is_logged_on :: "session_state \<Rightarrow> bool" where
  "is_logged_on st \<longleftrightarrow> (case st of Active _ \<Rightarrow> True | AwaitingResend _ \<Rightarrow> True | _ \<Rightarrow> False)"

definition is_expecting_test_response :: "session_state \<Rightarrow> bool" where
  "is_expecting_test_response st \<longleftrightarrow> expected_test_response_id st \<noteq> None"

definition is_awaiting_logon :: "session_state \<Rightarrow> bool" where
  "is_awaiting_logon st \<longleftrightarrow> (case st of AwaitingLogon _ \<Rightarrow> True | _ \<Rightarrow> False)"

definition is_awaiting_logout :: "session_state \<Rightarrow> bool" where
  "is_awaiting_logout st \<longleftrightarrow> (case st of AwaitingLogout _ \<Rightarrow> True | _ \<Rightarrow> False)"

definition as_status :: "session_state \<Rightarrow> session_status" where
  "as_status st = (case st of
      AwaitingLogon _ \<Rightarrow> StatusAwaitingLogon
    | AwaitingResend s \<Rightarrow> StatusAwaitingResend (begin_seq_number s) (end_seq_number s) (resend_attempts s)
    | AwaitingLogout _ \<Rightarrow> StatusAwaitingLogout
    | Active _ \<Rightarrow> StatusActive
    | Disconnected _ \<Rightarrow> StatusDisconnected)"

lemmas state_defs = new_disconnected_def new_active_def AwaitingResendState_new_def state_on_peer_logout_def
  state_on_disconnect_def should_reconnect_def get_writer_def try_transition_to_awaiting_logout_def
  register_schedule_awaiter_def notify_schedule_awaiter_def heartbeat_deadline_def state_reset_heartbeat_timer_def
  peer_deadline_def state_reset_peer_timer_def expected_test_response_id_def is_connected_def is_logged_on_def
  is_expecting_test_response_def is_awaiting_logon_def is_awaiting_logout_def as_status_def

end
