(* ===== verification/Session_Ctx.thy ===== *)
theory Session_Ctx
  imports Session_State Message_Builder Session_Schedule
begin

text \<open>
  What the states of a session share: the context with its store, message builder and application
  (\<^verbatim>\<open>session/ctx.rs\<close>), sending and resending (\<^verbatim>\<open>session/outbound.rs\<close>) and the reactions to inbound messages that do not depend
  on the state (\<^verbatim>\<open>session/inbound.rs\<close>). A function on \<open>&mut SessionCtx\<close> is a computation on the record \<open>session_ctx\<close>. The store
  is any record of store operations; the application, the clocks, the time zones and the conversion of timestamps to
  \<open>chrono\<close> are the fields of \<open>session_env\<close>. The application may answer differently each time, so its
  decisions see the whole history of what the session did, and every reading of the clock is a new one.
  The context records that history as a list of effects: messages handed to a writer, callbacks of
  the application, answers to responders.
\<close>

section \<open>Environment and context\<close>

datatype writer_message = SendMessage bytes | Disconnect

datatype inbound_decision = AcceptInbound | RejectInbound business_reject_reason "bytes option" | TerminateInbound

datatype outbound_decision = Send | Drop | TerminateSession

record session_info =
  info_next_sender_seq_number :: u64
  info_next_target_seq_number :: u64
  info_status :: session_status

datatype send_outcome = Sent u64 | Dropped

datatype send_error = SendDisconnected | SendPersist store_error | SendSequenceNumber store_error | SessionTerminated | SessionGone

datatype set_next_target_error = InvalidState session_status | SetTargetStore store_error

datatype answer =
    ShouldReconnectAnswer bool
  | ScheduleAnswer schedule_response
  | InfoAnswer session_info
  | SetTargetAnswer "(unit, set_next_target_error) outcome"
  | SendAnswer "(send_outcome, send_error) outcome"

datatype effect =
    ToWriter writer_ref writer_message
  | OnLogon
  | OnLogout bytes
  | OnInboundMessage message
  | OnOutboundMessage bytes
  | OnStateChange session_status session_status
  | Answer responder answer

record clock_reading =
  wall :: calendar
  wall_utc :: utc
  monotonic :: instant

record ('s, 'tz) session_env =
  env_store :: "'s message_store"
  env_clock :: "nat \<Rightarrow> clock_reading"
  env_to_chrono_utc :: "timestamp \<Rightarrow> utc option"
  env_tz :: "'tz tz_ops"
  app_on_inbound_message :: "effect list \<Rightarrow> message \<Rightarrow> inbound_decision"
  app_on_outbound_message :: "effect list \<Rightarrow> outbound_message \<Rightarrow> outbound_decision"

record 's session_ctx =
  ctx_config :: session_config
  ctx_store :: 's
  ctx_builder :: message_builder
  ctx_message_config :: msg_config
  ctx_clock :: nat
  ctx_trace :: "effect list"

definition and_then :: "('st, 'a, 'e) comp \<Rightarrow> ('st, 'b, 'e) comp \<Rightarrow> ('st, 'b, 'e) comp" where
  "and_then m n = bind_comp m (\<lambda>_. n)"

definition with_store :: "('s, 'a, 'e) comp \<Rightarrow> ('s session_ctx, 'a, 'e) comp" where
  "with_store m = (\<lambda>c. case m (ctx_store c) of (r, s) \<Rightarrow> (r, c\<lparr>ctx_store := s\<rparr>))"

definition emit :: "effect \<Rightarrow> ('s session_ctx, unit, 'e) comp" where
  "emit e = modify (\<lambda>c. c\<lparr>ctx_trace := ctx_trace c @ [e]\<rparr>)"

definition read_clock :: "('s, 'tz) session_env \<Rightarrow> ('s session_ctx, clock_reading, 'e) comp" where
  "read_clock env = (\<lambda>c. (Ok (env_clock env (ctx_clock c)), c\<lparr>ctx_clock := ctx_clock c + 1\<rparr>))"

definition send_raw_message :: "writer_ref \<Rightarrow> bytes \<Rightarrow> ('s session_ctx, unit, 'e) comp" where
  "send_raw_message w raw = emit (ToWriter w (SendMessage raw))"

definition writer_disconnect :: "writer_ref \<Rightarrow> ('s session_ctx, unit, 'e) comp" where
  "writer_disconnect w = emit (ToWriter w Disconnect)"

text \<open>\<open>MessageBuilder::build\<close>; its loops return on every input (\<open>build_total\<close>), so the last case does not arise.\<close>

definition build_message :: "message_builder \<Rightarrow> bytes \<Rightarrow> (parsed_message, 'e) outcome" where
  "build_message b data = (case build b data of Some (Ok p) \<Rightarrow> Ok p | _ \<Rightarrow> Panic)"

section \<open>Sending\<close>

text \<open>Encoding into a vector does not fail, so the error branch of \<open>generate_message\<close> is absent.\<close>

definition prepare_message ::
    "('s, 'tz) session_env \<Rightarrow> outbound_message \<Rightarrow> ('s session_ctx, u64 \<times> bytes, internal_send_error) comp" where
  "prepare_message env om =
     bind_comp (gets (\<lambda>c. next_sender_seq_number (env_store env) (ctx_store c))) (\<lambda>seq_num.
     bind_comp (gets ctx_config) (\<lambda>cfg.
     bind_comp (read_clock env) (\<lambda>now.
     bind_comp (lift_outcome (generate_message (wall now) (begin_string cfg) (sender_comp_id cfg) (target_comp_id cfg) seq_num om)) (\<lambda>msg.
     and_then (map_err SequenceNumber (with_store (increment_sender_seq_number (env_store env))))
     (and_then (map_err Persist (with_store (store_add (env_store env) seq_num msg)))
     (ret (seq_num, msg)))))))"

definition send_message ::
    "('s, 'tz) session_env \<Rightarrow> writer_ref \<Rightarrow> outbound_message \<Rightarrow> ('s session_ctx, u64, internal_send_error) comp" where
  "send_message env w om =
     bind_comp (prepare_message env om) (\<lambda>(seq_num, raw).
     and_then (send_raw_message w raw) (ret seq_num))"

definition with_send_context :: "bytes \<Rightarrow> ('st, 'a, internal_send_error) comp \<Rightarrow> ('st, 'a, session_operation_error) comp" where
  "with_send_context context m = map_err (\<lambda>e. SendFailed e context) m"

definition send_sequence_reset ::
    "('s, 'tz) session_env \<Rightarrow> writer_ref \<Rightarrow> u64 \<Rightarrow> u64 \<Rightarrow> ('s session_ctx, unit, session_operation_error) comp" where
  "send_sequence_reset env w b e =
     bind_comp (gets ctx_config) (\<lambda>cfg.
     bind_comp (read_clock env) (\<lambda>now.
     bind_comp (lift_outcome (generate_message (wall now) (begin_string cfg) (sender_comp_id cfg) (target_comp_id cfg) b
       (SequenceReset True e))) (\<lambda>raw.
     send_raw_message w raw)))"

text \<open>\<^verbatim>\<open>{msg:?}\<close> of a byte vector.\<close>

fun debug_items :: "bytes \<Rightarrow> bytes" where
  "debug_items [] = []"
| "debug_items [c] = show_nat (of_char c)"
| "debug_items (c # cs) = show_nat (of_char c) @ '', '' @ debug_items cs"

definition debug_bytes :: "bytes \<Rightarrow> bytes" where
  "debug_bytes msg = ''['' @ debug_items msg @ '']''"

text \<open>The body of the loop of \<open>resend_messages\<close> with its variables \<open>reset_start\<close> and \<open>sequence_number\<close>, and the final
  reset after it. A message that cannot be prepared is logged and sent as \<open>prepare_message_for_resend\<close> left it.\<close>

fun resend_loop ::
    "('s, 'tz) session_env \<Rightarrow> writer_ref \<Rightarrow> bytes list \<Rightarrow> u64 option \<Rightarrow> u64 \<Rightarrow> ('s session_ctx, unit, session_operation_error) comp" where
  "resend_loop env w [] reset_start sequence_number = (case reset_start of
      None \<Rightarrow> ret ()
    | Some b \<Rightarrow> send_sequence_reset env w b sequence_number)"
| "resend_loop env w (msg # msgs) reset_start _ =
     bind_comp (gets ctx_builder) (\<lambda>mb.
     bind_comp (lift_outcome (build_message mb msg)) (\<lambda>parsed.
     case into_message parsed of
       None \<Rightarrow> throw (StoredMessageParse (''failed to build message for raw message: '' @ debug_bytes msg))
     | Some message \<Rightarrow>
         bind_comp (lift_outcome (get_msg_seq_num message)) (\<lambda>sequence_number.
         case msg_type_of message of
           Ok mt \<Rightarrow>
             if is_admin mt then
               resend_loop env w msgs (case reset_start of None \<Rightarrow> Some sequence_number | Some b \<Rightarrow> Some b) sequence_number
             else
               and_then (case reset_start of None \<Rightarrow> ret () | Some b \<Rightarrow> send_sequence_reset env w b sequence_number)
               (bind_comp (read_clock env) (\<lambda>now.
                case prepare_message_for_resend (wall now) message of
                  (Panic, _) \<Rightarrow> panic
                | (_, prepared) \<Rightarrow>
                    bind_comp (gets ctx_message_config) (\<lambda>cfg.
                    and_then (send_raw_message w (fst (encode cfg prepared)))
                    (resend_loop env w msgs None sequence_number))))
         | _ \<Rightarrow> throw (MissingField ''MSG_TYPE''))))"

definition resend_messages ::
    "('s, 'tz) session_env \<Rightarrow> writer_ref \<Rightarrow> u64 \<Rightarrow> u64 \<Rightarrow> ('s session_ctx, unit, session_operation_error) comp" where
  "resend_messages env w b e =
     bind_comp (gets ctx_store) (\<lambda>s.
     bind_comp (map_err StoreFailed (lift_outcome (store_get_slice (env_store env) b e s))) (\<lambda>messages.
     resend_loop env w messages None 0))"

section \<open>Verification and its error handling\<close>

definition verify_message_with_ctx ::
    "('s, 'tz) session_env \<Rightarrow> message \<Rightarrow> verification_flags \<Rightarrow> ('s session_ctx, unit, verification_issue) comp" where
  "verify_message_with_ctx env m flags =
     bind_comp (gets (\<lambda>c. if requires_sequence_number flags
         then Some (next_target_seq_number (env_store env) (ctx_store c)) else None)) (\<lambda>expected.
     bind_comp (gets ctx_config) (\<lambda>cfg.
     bind_comp (read_clock env) (\<lambda>now.
     lift_outcome (verify_message (env_to_chrono_utc env) (wall now) m cfg expected flags))))"

datatype verification_outcome = VerifyOk | VerifyGap u64 u64 | Handled transition_result

text \<open>\<open>match ctx.prepare_message(logout).await\<close>: a logout that cannot be prepared is only logged.\<close>

definition try_send_logout ::
    "('s, 'tz) session_env \<Rightarrow> writer_ref \<Rightarrow> bytes \<Rightarrow> ('s session_ctx, unit, 'e) comp" where
  "try_send_logout env w r =
     log_err (bind_comp (prepare_message env (Logout (Some r))) (\<lambda>(_, raw). send_raw_message w raw))"

text \<open>\<open>if let Err(err) = outbound::send_message(..)\<close>, then the same for the target number.\<close>

definition try_send :: "('s, 'tz) session_env \<Rightarrow> writer_ref \<Rightarrow> outbound_message \<Rightarrow> ('s session_ctx, unit, 'e) comp" where
  "try_send env w om = log_err (send_message env w om)"

definition try_increment_target :: "('s, 'tz) session_env \<Rightarrow> ('s session_ctx, unit, 'e) comp" where
  "try_increment_target env = log_err (with_store (increment_target_seq_number (env_store env)))"

definition handle_sending_time_accuracy_problem ::
    "('s, 'tz) session_env \<Rightarrow> writer_ref \<Rightarrow> u64 \<Rightarrow> bytes \<Rightarrow> ('s session_ctx, unit, 'e) comp" where
  "handle_sending_time_accuracy_problem env w n t =
     and_then (try_send env w (Reject (with_reason SendingtimeAccuracyProblem t (Reject_new n))))
     (try_increment_target env)"

definition handle_incorrect_begin_string ::
    "('s, 'tz) session_env \<Rightarrow> writer_ref \<Rightarrow> bytes \<Rightarrow> ('s session_ctx, transition_result, 'e) comp" where
  "handle_incorrect_begin_string env w received =
     and_then (try_send_logout env w (''beginString='' @ received @ '' is not supported''))
     (and_then (writer_disconnect w)
     (ret (TransitionTo (new_disconnected True ''incorrect begin string''))))"

definition handle_incorrect_comp_id ::
    "('s, 'tz) session_env \<Rightarrow> writer_ref \<Rightarrow> bytes \<Rightarrow> comp_id_type \<Rightarrow> u64 \<Rightarrow> ('s session_ctx, transition_result, 'e) comp" where
  "handle_incorrect_comp_id env w received _ n =
     and_then (try_send env w (Reject (with_reason ValueIsIncorrect (''invalid comp ID '' @ received) (Reject_new n))))
     (and_then (try_send_logout env w ''incorrect comp ID received'')
     (and_then (writer_disconnect w)
     (ret (TransitionTo (new_disconnected True ''incorrect comp ID'')))))"

definition handle_sequence_number_too_low ::
    "('s, 'tz) session_env \<Rightarrow> writer_ref \<Rightarrow> u64 \<Rightarrow> u64 \<Rightarrow> bool \<Rightarrow> ('s session_ctx, transition_result, 'e) comp" where
  "handle_sequence_number_too_low env w expected actual possible_duplicate =
     (if possible_duplicate then ret Stay
      else
        let r = ''sequence number too low (actual '' @ show_u64 actual @ '', expected '' @ show_u64 expected @ '')'' in
        and_then (try_send_logout env w r)
        (and_then (writer_disconnect w)
        (ret (TransitionTo (new_disconnected False r)))))"

definition handle_invalid_msg_type ::
    "('s, 'tz) session_env \<Rightarrow> writer_ref \<Rightarrow> message \<Rightarrow> bytes \<Rightarrow> ('s session_ctx, unit, 'e) comp" where
  "handle_invalid_msg_type env w m mt =
     (case part_get u64_deserialize MSG_SEQ_NUM (header m) of
        Ok n \<Rightarrow>
          and_then (try_send env w (Reject (with_reason InvalidMsgtype (''invalid message type '' @ mt) (Reject_new n))))
          (bind_comp (gets (\<lambda>c. next_target_seq_number (env_store env) (ctx_store c))) (\<lambda>expected.
           if expected = n then try_increment_target env else ret ()))
      | _ \<Rightarrow> ret ())"

definition handle_original_sending_time_missing ::
    "('s, 'tz) session_env \<Rightarrow> writer_ref \<Rightarrow> u64 \<Rightarrow> ('s session_ctx, unit, 'e) comp" where
  "handle_original_sending_time_missing env w n =
     and_then (try_send env w (Reject (with_reason RequiredTagMissing ''original sending time is required'' (Reject_new n))))
     (try_increment_target env)"

definition handle_verification_error ::
    "('s, 'tz) session_env \<Rightarrow> writer_ref \<Rightarrow> message_error \<Rightarrow> ('s session_ctx, transition_result, 'e) comp" where
  "handle_verification_error env w err = (case err of
      SeqNumberTooLow expected actual d \<Rightarrow> handle_sequence_number_too_low env w expected actual d
    | IncorrectBeginString b \<Rightarrow> handle_incorrect_begin_string env w b
    | IncorrectCompId i t n \<Rightarrow> handle_incorrect_comp_id env w i t n
    | SendingTimeAccuracyIssue n \<Rightarrow>
        and_then (handle_sending_time_accuracy_problem env w n ''unexpected sending time'') (ret Stay)
    | SendingTimeMissing n \<Rightarrow>
        and_then (handle_sending_time_accuracy_problem env w n ''sending time missing'') (ret Stay)
    | OriginalSendingTimeMissing n \<Rightarrow> and_then (handle_original_sending_time_missing env w n) (ret Stay)
    | OriginalSendingTimeAfterSendingTime n _ _ \<Rightarrow>
        and_then (handle_sending_time_accuracy_problem env w n ''original sending time is after sending time'') (ret Stay))"

definition verify_and_handle_errors ::
    "('s, 'tz) session_env \<Rightarrow> writer_ref \<Rightarrow> message \<Rightarrow> verification_flags \<Rightarrow> ('s session_ctx, verification_outcome, 'e) comp" where
  "verify_and_handle_errors env w m flags = (\<lambda>c.
     case verify_message_with_ctx env m flags c of
       (Ok _, c') \<Rightarrow> (Ok VerifyOk, c')
     | (Err (SequenceGap expected actual), c') \<Rightarrow> (Ok (VerifyGap expected actual), c')
     | (Err (InvalidMessage err), c') \<Rightarrow>
         bind_comp (handle_verification_error env w err) (\<lambda>result. ret (Handled result)) c'
     | (Panic, c') \<Rightarrow> (Panic, c'))"

section \<open>Administrative messages\<close>

definition inbound_on_test_request ::
    "('s, 'tz) session_env \<Rightarrow> writer_ref \<Rightarrow> message \<Rightarrow> ('s session_ctx, unit, session_operation_error) comp" where
  "inbound_on_test_request env w m =
     (case msg_get str_deserialize TEST_REQ_ID m of
        Ok req_id \<Rightarrow>
          and_then (map_err StoreFailed (with_store (increment_target_seq_number (env_store env))))
          (and_then (with_send_context ''heartbeat response'' (send_message env w (Heartbeat (Some req_id))))
          (ret ()))
      | _ \<Rightarrow> panic)"

definition inbound_on_sequence_reset ::
    "('s, 'tz) session_env \<Rightarrow> writer_ref \<Rightarrow> message \<Rightarrow> ('s session_ctx, unit, session_operation_error) comp" where
  "inbound_on_sequence_reset env w m =
     bind_comp (lift_outcome (get_msg_seq_num m)) (\<lambda>msg_seq_num.
     case msg_get u64_deserialize NEW_SEQ_NO m of
       Ok new_seq_no \<Rightarrow>
         bind_comp (gets (\<lambda>c. next_target_seq_number (env_store env) (ctx_store c))) (\<lambda>expected.
         if new_seq_no \<le> expected then
           and_then (with_send_context ''reject for invalid sequence reset'' (send_message env w (Reject
             (with_reason ValueIsIncorrect
               (''attempt to lower sequence number, invalid value NewSeqNo(36)='' @ show_u64 new_seq_no) (Reject_new msg_seq_num)))))
           (ret ())
         else map_err StoreFailed (with_store (set_target_seq_number (env_store env) (new_seq_no - 1))))
     | _ \<Rightarrow>
         and_then (with_send_context ''reject for missing NEW_SEQ_NO'' (send_message env w (Reject
           (with_reason RequiredTagMissing ''missing NewSeqNo tag in sequence reset message'' (Reject_new msg_seq_num)))))
         (ret ()))"

definition inbound_on_resend_request ::
    "('s, 'tz) session_env \<Rightarrow> writer_ref \<Rightarrow> message \<Rightarrow> ('s session_ctx, unit, session_operation_error) comp" where
  "inbound_on_resend_request env w m =
     bind_comp (lift_outcome (get_msg_seq_num m)) (\<lambda>msg_seq_num.
     bind_comp (gets (\<lambda>c. next_target_seq_number (env_store env) (ctx_store c))) (\<lambda>expected.
     case msg_get u64_deserialize BEGIN_SEQ_NO m of
       Ok begin_no \<Rightarrow>
         (case msg_get u64_deserialize END_SEQ_NO m of
            Ok seq_number \<Rightarrow>
              bind_comp (gets (\<lambda>c. next_sender_seq_number (env_store env) (ctx_store c) - 1)) (\<lambda>last_seq_number.
              let end_no = (if seq_number = 0 then last_seq_number else min seq_number last_seq_number) in
              and_then (if msg_seq_num = expected
                  then map_err StoreFailed (with_store (increment_target_seq_number (env_store env))) else ret ())
              (resend_messages env w begin_no end_no))
          | _ \<Rightarrow>
              and_then (with_send_context ''reject for missing END_SEQ_NO'' (send_message env w (Reject
                (with_reason RequiredTagMissing ''missing end sequence number for resend request'' (Reject_new msg_seq_num)))))
              (ret ()))
     | _ \<Rightarrow>
         and_then (with_send_context ''reject for missing BEGIN_SEQ_NO'' (send_message env w (Reject
           (with_reason RequiredTagMissing ''missing begin sequence number for resend request'' (Reject_new msg_seq_num)))))
         (ret ())))"

end
