(* ===== verification/Session.thy ===== *)
theory Session
  imports Session_Ctx
begin

text \<open>
  The session task (\<^verbatim>\<open>session.rs\<close>) and the operations of its states that use the context
  (\<^verbatim>\<open>session/state.rs\<close>, \<^verbatim>\<open>session/state/\<close>). The record \<open>session\<close> is the struct \<open>Session\<close>; a method on \<open>&mut self\<close> is a
  computation on it. The task handles one input at a time and shares its state with no other task, so each
  handler is one step; \<open>session_step\<close> is the loop \<open>run_session\<close>, in which an input of any channel or an expired timer may be next.
  A panic ends the task.
\<close>

section \<open>State\<close>

record ('s, 'tz) session =
  sess_ctx :: "'s session_ctx"
  sess_schedule :: "'tz session_schedule"
  sess_state :: session_state
  sess_schedule_check :: instant
  sess_reset_on_next_logon :: bool

type_synonym ('s, 'tz, 'a, 'e) session_comp = "(('s, 'tz) session, 'a, 'e) comp"

definition SCHEDULE_CHECK_INTERVAL :: nat where "SCHEDULE_CHECK_INTERVAL = 1"

definition in_ctx :: "('s session_ctx, 'a, 'e) comp \<Rightarrow> ('s, 'tz, 'a, 'e) session_comp" where
  "in_ctx m = (\<lambda>s. case m (sess_ctx s) of (r, c) \<Rightarrow> (r, s\<lparr>sess_ctx := c\<rparr>))"

definition set_state :: "session_state \<Rightarrow> ('s, 'tz, unit, 'e) session_comp" where
  "set_state st = modify (\<lambda>s. s\<lparr>sess_state := st\<rparr>)"

text \<open>\<open>self.state.get_writer()\<close> in an \<open>if let Some\<close>.\<close>

definition if_writer :: "(writer_ref \<Rightarrow> ('s, 'tz, unit, 'e) session_comp) \<Rightarrow> ('s, 'tz, unit, 'e) session_comp" where
  "if_writer f = bind_comp (gets (\<lambda>s. get_writer (sess_state s))) (\<lambda>w. case w of None \<Rightarrow> ret () | Some w \<Rightarrow> f w)"

text \<open>The instant two successive readings of the clock give.\<close>

definition read_instants :: "('s, 'tz) session_env \<Rightarrow> ('s session_ctx, instant \<times> instant, 'e) comp" where
  "read_instants env = bind_comp (read_clock env) (\<lambda>a. bind_comp (read_clock env) (\<lambda>b. ret (monotonic a, monotonic b)))"

text \<open>\<open>Session::new\<close>, less the construction of the dictionary and the message builder, which are given.\<close>

definition Session_new ::
    "('s, 'tz) session_env \<Rightarrow> session_config \<Rightarrow> message_builder \<Rightarrow> bool \<Rightarrow> 'tz schedule_config option \<Rightarrow> 's \<Rightarrow> instant
     \<Rightarrow> (('s, 'tz) session, string) outcome" where
  "Session_new env cfg mb validate schedule_cfg st now =
     (case schedule_try_from_opt (env_tz env) schedule_cfg of
        Ok sch \<Rightarrow> Ok \<lparr>sess_ctx = \<lparr>ctx_config = cfg, ctx_store = st, ctx_builder = mb,
            ctx_message_config = default_config\<lparr>validate_user_defined_fields := validate\<rparr>, ctx_clock = 0, ctx_trace = []\<rparr>,
          sess_schedule = sch, sess_state = new_disconnected True ''initialising'',
          sess_schedule_check = now + from_secs SCHEDULE_CHECK_INTERVAL, sess_reset_on_next_logon = False\<rparr>
      | Err e \<Rightarrow> Err e
      | Panic \<Rightarrow> Panic)"

section \<open>Operations of the states\<close>

definition apply_transition :: "transition_result \<Rightarrow> ('s, 'tz, unit, 'e) session_comp" where
  "apply_transition result = (case result of
      Stay \<Rightarrow> ret ()
    | TransitionTo new_state \<Rightarrow>
        bind_comp (gets (\<lambda>s. as_status (sess_state s))) (\<lambda>old_status.
        and_then (set_state new_state)
        (if old_status \<noteq> as_status new_state then in_ctx (emit (OnStateChange old_status (as_status new_state)))
         else ret ())))"

definition reset_heartbeat_timer :: "('s, 'tz) session_env \<Rightarrow> ('s, 'tz, unit, 'e) session_comp" where
  "reset_heartbeat_timer env =
     bind_comp (in_ctx (read_clock env)) (\<lambda>now.
     modify (\<lambda>s. s\<lparr>sess_state := state_reset_heartbeat_timer (monotonic now)
       (heartbeat_interval (ctx_config (sess_ctx s))) (sess_state s)\<rparr>))"

definition reset_peer_timer :: "('s, 'tz) session_env \<Rightarrow> bytes option \<Rightarrow> ('s, 'tz, unit, 'e) session_comp" where
  "reset_peer_timer env test_request_id =
     bind_comp (in_ctx (read_clock env)) (\<lambda>now.
     modify (\<lambda>s. s\<lparr>sess_state := state_reset_peer_timer (monotonic now)
       (heartbeat_interval (ctx_config (sess_ctx s))) test_request_id (sess_state s)\<rparr>))"

definition disconnect_writer :: "('s, 'tz, unit, 'e) session_comp" where
  "disconnect_writer = if_writer (\<lambda>w. in_ctx (writer_disconnect w))"

text \<open>\<open>SessionState::send_message\<close>: the message is prepared in every state; what happens to it depends on the state.\<close>

definition session_send_message ::
    "('s, 'tz) session_env \<Rightarrow> outbound_message \<Rightarrow> ('s, 'tz, u64, internal_send_error) session_comp" where
  "session_send_message env om =
     bind_comp (in_ctx (prepare_message env om)) (\<lambda>(seq_num, raw).
     bind_comp (gets sess_state) (\<lambda>st.
     and_then (case st of
         Active s \<Rightarrow> if message_type om = Logon_MSG_TYPE then ret () else in_ctx (send_raw_message (act_writer s) raw)
       | AwaitingResend s \<Rightarrow>
           if message_type om = Logon_MSG_TYPE then ret () else in_ctx (send_raw_message (resend_writer s) raw)
       | AwaitingLogon s \<Rightarrow>
           if message_type om = Logon_MSG_TYPE then
             if logon_sent s then ret ()
             else and_then (in_ctx (send_raw_message (logon_writer s) raw))
                    (set_state (AwaitingLogon (s\<lparr>logon_sent := True\<rparr>)))
           else if message_type om = Logout_MSG_TYPE then in_ctx (send_raw_message (logon_writer s) raw)
           else ret ()
       | AwaitingLogout _ \<Rightarrow> ret ()
       | Disconnected _ \<Rightarrow> ret ())
     (and_then (reset_heartbeat_timer env) (ret seq_num))))"

definition send_logout :: "('s, 'tz) session_env \<Rightarrow> bytes \<Rightarrow> ('s, 'tz, unit, session_operation_error) session_comp" where
  "send_logout env r = and_then (with_send_context ''logout'' (session_send_message env (Logout (Some r)))) (ret ())"

definition logout_and_terminate :: "('s, 'tz) session_env \<Rightarrow> bytes \<Rightarrow> ('s, 'tz, unit, 'e) session_comp" where
  "logout_and_terminate env r = and_then (log_err (send_logout env r)) disconnect_writer"

definition initiate_graceful_logout ::
    "('s, 'tz) session_env \<Rightarrow> bytes \<Rightarrow> bool \<Rightarrow> ('s, 'tz, transition_result, session_operation_error) session_comp" where
  "initiate_graceful_logout env r rc =
     bind_comp (in_ctx (read_clock env)) (\<lambda>now.
     bind_comp (gets (\<lambda>s. try_transition_to_awaiting_logout (monotonic now)
       (logout_timeout (ctx_config (sess_ctx s))) rc (sess_state s))) (\<lambda>result.
     and_then (case result of TransitionTo _ \<Rightarrow> send_logout env r | Stay \<Rightarrow> ret ())
     (ret result)))"

definition awaiting_logon_on_peer_logon ::
    "('s, 'tz) session_env \<Rightarrow> awaiting_logon_state \<Rightarrow> ('s session_ctx, transition_result, session_operation_error) comp" where
  "awaiting_logon_on_peer_logon env s =
     and_then (emit OnLogon)
     (and_then (map_err StoreFailed (with_store (increment_target_seq_number (env_store env))))
     (bind_comp (read_instants env) (\<lambda>now.
      bind_comp (gets ctx_config) (\<lambda>cfg.
      ret (TransitionTo (new_active now (logon_writer s) (heartbeat_interval cfg)))))))"

definition state_on_peer_logon ::
    "('s, 'tz) session_env \<Rightarrow> session_state \<Rightarrow> ('s session_ctx, transition_result, session_operation_error) comp" where
  "state_on_peer_logon env st = (case st of
      AwaitingLogon s \<Rightarrow> awaiting_logon_on_peer_logon env s
    | _ \<Rightarrow> ret Stay)"

text \<open>The gap handling \<open>ActiveState\<close> and \<open>AwaitingLogonState\<close> share word for word.\<close>

definition verify_or_request_resend ::
    "('s, 'tz) session_env \<Rightarrow> writer_ref \<Rightarrow> message \<Rightarrow> verification_flags
     \<Rightarrow> ('s session_ctx, verification_result, session_operation_error) comp" where
  "verify_or_request_resend env w m flags =
     bind_comp (verify_and_handle_errors env w m flags) (\<lambda>outcome. case outcome of
       VerifyOk \<Rightarrow> ret Passed
     | Handled result \<Rightarrow> ret (Issue result)
     | VerifyGap expected actual \<Rightarrow>
         and_then (with_send_context ''resend request'' (send_message env w (ResendRequest expected actual)))
         (ret (Issue (TransitionTo (AwaitingResend (AwaitingResendState_new w expected actual))))))"

definition active_handle_verification_issue ::
    "('s, 'tz) session_env \<Rightarrow> active_state \<Rightarrow> message \<Rightarrow> verification_flags
     \<Rightarrow> ('s session_ctx, verification_result, session_operation_error) comp" where
  "active_handle_verification_issue env s = verify_or_request_resend env (act_writer s)"

definition awaiting_logon_handle_verification_issue ::
    "('s, 'tz) session_env \<Rightarrow> awaiting_logon_state \<Rightarrow> message \<Rightarrow> verification_flags
     \<Rightarrow> ('s session_ctx, verification_result, session_operation_error) comp" where
  "awaiting_logon_handle_verification_issue env s = verify_or_request_resend env (logon_writer s)"

definition awaiting_logout_handle_verification_issue ::
    "('s, 'tz) session_env \<Rightarrow> awaiting_logout_state \<Rightarrow> message \<Rightarrow> verification_flags
     \<Rightarrow> ('s session_ctx, verification_result, session_operation_error) comp" where
  "awaiting_logout_handle_verification_issue env s m flags =
     bind_comp (verify_and_handle_errors env (logout_writer s) m flags) (\<lambda>outcome. case outcome of
       VerifyOk \<Rightarrow> ret Passed
     | Handled result \<Rightarrow> ret (Issue result)
     | VerifyGap _ _ \<Rightarrow> ret (Issue Stay))"

definition awaiting_resend_handle_verification_issue ::
    "('s, 'tz) session_env \<Rightarrow> awaiting_resend_state \<Rightarrow> message \<Rightarrow> verification_flags
     \<Rightarrow> ('s, 'tz, verification_result, session_operation_error) session_comp" where
  "awaiting_resend_handle_verification_issue env s m flags =
     bind_comp (in_ctx (verify_and_handle_errors env (resend_writer s) m flags)) (\<lambda>outcome. case outcome of
       VerifyOk \<Rightarrow> ret Passed
     | Handled result \<Rightarrow> ret (Issue result)
     | VerifyGap expected actual \<Rightarrow> (case resend_update expected actual s of
           (Success, s') \<Rightarrow>
             and_then (set_state (AwaitingResend s'))
             (and_then (with_send_context ''resend request'' (in_ctx (send_message env (resend_writer s) (ResendRequest expected actual))))
             (ret (Issue Stay)))
         | (BeginSeqNumberTooLow, _) \<Rightarrow>
             and_then (in_ctx (writer_disconnect (resend_writer s)))
             (ret (Issue (TransitionTo (new_disconnected False
               ''awaiting resend begin seq number unexpectedly lower than the previous resend request's''))))
         | (AttemptsExceeded, _) \<Rightarrow>
             and_then (in_ctx (writer_disconnect (resend_writer s)))
             (ret (Issue (TransitionTo (new_disconnected False
               ''resend request attempts exceeded, manual intervention required''))))))"

definition handle_verification_issue ::
    "('s, 'tz) session_env \<Rightarrow> message \<Rightarrow> verification_flags
     \<Rightarrow> ('s, 'tz, verification_result, session_operation_error) session_comp" where
  "handle_verification_issue env m flags =
     bind_comp (gets sess_state) (\<lambda>st. case st of
       Active s \<Rightarrow> in_ctx (active_handle_verification_issue env s m flags)
     | AwaitingResend s \<Rightarrow> awaiting_resend_handle_verification_issue env s m flags
     | AwaitingLogon s \<Rightarrow> in_ctx (awaiting_logon_handle_verification_issue env s m flags)
     | AwaitingLogout s \<Rightarrow> in_ctx (awaiting_logout_handle_verification_issue env s m flags)
     | Disconnected _ \<Rightarrow> ret Passed)"

definition try_set_next_target_seq_num ::
    "('s, 'tz) session_env \<Rightarrow> session_state \<Rightarrow> u64 \<Rightarrow> ('s session_ctx, unit, set_next_target_error) comp" where
  "try_set_next_target_seq_num env st seq_num = (case st of
      Disconnected _ \<Rightarrow> map_err SetTargetStore (with_store (set_target_seq_number (env_store env) (seq_num - 1)))
    | _ \<Rightarrow> throw (InvalidState (as_status st)))"

section \<open>Inbound messages\<close>

definition on_logon :: "('s, 'tz) session_env \<Rightarrow> ('s, 'tz, unit, session_operation_error) session_comp" where
  "on_logon env =
     bind_comp (gets sess_state) (\<lambda>st.
     bind_comp (in_ctx (state_on_peer_logon env st)) (\<lambda>transition.
     apply_transition transition))"

definition increment_target :: "('s, 'tz) session_env \<Rightarrow> ('s, 'tz, unit, session_operation_error) session_comp" where
  "increment_target env = in_ctx (map_err StoreFailed (with_store (increment_target_seq_number (env_store env))))"

definition on_logout :: "('s, 'tz) session_env \<Rightarrow> ('s, 'tz, unit, session_operation_error) session_comp" where
  "on_logout env =
     bind_comp (gets (\<lambda>s. is_logged_on (sess_state s))) (\<lambda>logged_on.
     and_then (if logged_on then send_logout env ''Logout acknowledged'' else ret ())
     (and_then (in_ctx (emit (OnLogout ''peer has logged us out'')))
     (and_then disconnect_writer
     (bind_comp (gets (\<lambda>s. state_on_peer_logout (sess_state s))) (\<lambda>transition.
     and_then (apply_transition transition)
     (increment_target env))))))"

definition on_heartbeat :: "('s, 'tz) session_env \<Rightarrow> message \<Rightarrow> ('s, 'tz, unit, session_operation_error) session_comp" where
  "on_heartbeat env m =
     bind_comp (gets (\<lambda>s. expected_test_response_id (sess_state s))) (\<lambda>expected.
     and_then (case (expected, msg_get str_deserialize TEST_REQ_ID m) of
         (Some e, Ok r) \<Rightarrow> if e = r then reset_peer_timer env None else ret ()
       | _ \<Rightarrow> ret ())
     (increment_target env))"

definition on_test_request :: "('s, 'tz) session_env \<Rightarrow> message \<Rightarrow> ('s, 'tz, unit, session_operation_error) session_comp" where
  "on_test_request env m =
     if_writer (\<lambda>w. and_then (in_ctx (inbound_on_test_request env w m)) (reset_heartbeat_timer env))"

definition on_resend_request :: "('s, 'tz) session_env \<Rightarrow> message \<Rightarrow> ('s, 'tz, unit, session_operation_error) session_comp" where
  "on_resend_request env m =
     bind_comp (gets (\<lambda>s. is_connected (sess_state s))) (\<lambda>connected.
     if \<not> connected then ret ()
     else
       bind_comp (lift_outcome (get_msg_seq_num m)) (\<lambda>msg_seq_num.
       bind_comp (gets (\<lambda>s. next_target_seq_number (env_store env) (ctx_store (sess_ctx s)))) (\<lambda>expected.
       bind_comp (gets sess_state) (\<lambda>st.
       and_then (case st of
           AwaitingResend s \<Rightarrow> if msg_seq_num > expected
             then set_state (AwaitingResend (s\<lparr>inbound_queue := inbound_queue s @ [m]\<rparr>)) else ret ()
         | _ \<Rightarrow> ret ())
       (if_writer (\<lambda>w. and_then (in_ctx (inbound_on_resend_request env w m)) (reset_heartbeat_timer env)))))))"

definition on_reject :: "('s, 'tz) session_env \<Rightarrow> ('s, 'tz, unit, session_operation_error) session_comp" where
  "on_reject env = increment_target env"

definition on_sequence_reset :: "('s, 'tz) session_env \<Rightarrow> message \<Rightarrow> ('s, 'tz, unit, session_operation_error) session_comp" where
  "on_sequence_reset env m =
     if_writer (\<lambda>w. and_then (in_ctx (inbound_on_sequence_reset env w m)) (reset_heartbeat_timer env))"

definition process_app_message :: "('s, 'tz) session_env \<Rightarrow> message \<Rightarrow> ('s, 'tz, unit, session_operation_error) session_comp" where
  "process_app_message env m =
     bind_comp (gets (\<lambda>s. app_on_inbound_message env (ctx_trace (sess_ctx s)) m)) (\<lambda>decision.
     and_then (in_ctx (emit (OnInboundMessage m)))
     (and_then (case decision of
         AcceptInbound \<Rightarrow> ret ()
       | RejectInbound r t \<Rightarrow> (case msg_type_of m of
             Ok mt \<Rightarrow>
               bind_comp (lift_outcome (get_msg_seq_num m)) (\<lambda>n.
               and_then (with_send_context ''business message reject'' (session_send_message env (BusinessReject mt r (Some n) t)))
               (ret ()))
           | _ \<Rightarrow> throw (MissingField ''MSG_TYPE''))
       | TerminateInbound \<Rightarrow> disconnect_writer)
     (increment_target env)))"

text \<open>\<open>process_message\<close>: the \<open>match\<close> on the message type, what follows an accepted pre-processing, and the whole.\<close>

definition dispatch_message ::
    "('s, 'tz) session_env \<Rightarrow> bytes \<Rightarrow> message \<Rightarrow> ('s, 'tz, unit, session_operation_error) session_comp" where
  "dispatch_message env mt m =
     (if mt = Heartbeat_MSG_TYPE then on_heartbeat env m
      else if mt = TestRequest_MSG_TYPE then on_test_request env m
      else if mt = ResendRequest_MSG_TYPE then on_resend_request env m
      else if mt = Reject_MSG_TYPE then on_reject env
      else if mt = SequenceReset_MSG_TYPE then on_sequence_reset env m
      else if mt = Logout_MSG_TYPE then on_logout env
      else if mt = Logon_MSG_TYPE then on_logon env
      else process_app_message env m)"

definition process_accepted :: "('s, 'tz) session_env \<Rightarrow> message \<Rightarrow> ('s, 'tz, unit, session_operation_error) session_comp" where
  "process_accepted env m = (case msg_type_of m of
      Ok mt \<Rightarrow>
        bind_comp (lift_outcome (for_message m)) (\<lambda>flags.
        bind_comp (handle_verification_issue env m flags) (\<lambda>result. case result of
          Issue transition \<Rightarrow> apply_transition transition
        | Passed \<Rightarrow> dispatch_message env mt m))
    | _ \<Rightarrow> throw (MissingField ''MSG_TYPE''))"

definition process_message :: "('s, 'tz) session_env \<Rightarrow> message \<Rightarrow> ('s, 'tz, unit, session_operation_error) session_comp" where
  "process_message env m0 =
     bind_comp (gets sess_state) (\<lambda>st.
     bind_comp (lift_outcome (pre_process_inbound m0 st)) (\<lambda>(decision, st').
     and_then (set_state st')
     (case decision of
        Queued \<Rightarrow> ret ()
      | DisconnectWriter \<Rightarrow> disconnect_writer
      | Accept m \<Rightarrow> process_accepted env m)))"

fun process_backlog :: "('s, 'tz) session_env \<Rightarrow> message list \<Rightarrow> ('s, 'tz, unit, session_operation_error) session_comp" where
  "process_backlog env [] = ret ()"
| "process_backlog env (m # ms) =
     and_then (if unwrap_or '''' (msg_type_of m) = ResendRequest_MSG_TYPE then increment_target env else process_message env m)
     (process_backlog env ms)"

definition check_end_of_resend :: "('s, 'tz) session_env \<Rightarrow> ('s, 'tz, unit, session_operation_error) session_comp" where
  "check_end_of_resend env =
     bind_comp (gets sess_state) (\<lambda>st. case st of
       AwaitingResend s \<Rightarrow>
         bind_comp (in_ctx (read_instants env)) (\<lambda>now.
         bind_comp (gets (\<lambda>x. try_complete now (next_target_seq_number (env_store env) (ctx_store (sess_ctx x)))
           (heartbeat_interval (ctx_config (sess_ctx x))) s)) (\<lambda>completed. case completed of
             None \<Rightarrow> ret ()
           | Some (new_state, backlog) \<Rightarrow>
               and_then (apply_transition (TransitionTo new_state)) (process_backlog env backlog)))
     | _ \<Rightarrow> ret ())"

definition reject_invalid ::
    "('s, 'tz) session_env \<Rightarrow> message \<Rightarrow> session_reject_reason \<Rightarrow> bytes \<Rightarrow> bytes
     \<Rightarrow> ('s, 'tz, unit, session_operation_error) session_comp" where
  "reject_invalid env m r t context = (case part_get u64_deserialize MSG_SEQ_NUM (header m) of
      Ok n \<Rightarrow> and_then (with_send_context context (session_send_message env (Reject (with_reason r t (Reject_new n))))) (ret ())
    | _ \<Rightarrow> ret ())"

definition on_incoming :: "('s, 'tz) session_env \<Rightarrow> bytes \<Rightarrow> ('s, 'tz, unit, session_operation_error) session_comp" where
  "on_incoming env raw =
     bind_comp (gets (\<lambda>s. is_expecting_test_response (sess_state s))) (\<lambda>expecting.
     and_then (if \<not> expecting then reset_peer_timer env None else ret ())
     (bind_comp (gets (\<lambda>s. ctx_builder (sess_ctx s))) (\<lambda>mb.
      bind_comp (lift_outcome (build_message mb raw)) (\<lambda>parsed. case parsed of
        ValidMsg m \<Rightarrow> and_then (process_message env m) (check_end_of_resend env)
      | Garbled _ \<Rightarrow> ret ()
      | InvalidMsg m r \<Rightarrow> (case r of
            ReasonField t \<Rightarrow> reject_invalid env m InvalidTagNumber (''invalid field '' @ show_u32 t) ''reject for invalid field''
          | ReasonGroup t \<Rightarrow> reject_invalid env m InvalidTagNumber (''invalid field '' @ show_u32 t) ''reject for invalid field''
          | ReasonComponent _ \<Rightarrow> ret ()
          | ReasonMsgType mt \<Rightarrow> if_writer (\<lambda>w. in_ctx (handle_invalid_msg_type env w m mt))
          | ReasonOrderInGroup t _ \<Rightarrow> reject_invalid env m RepeatingGroupFieldsOutOfOrder
              (''field appears in incorrect order:'' @ show_u32 t) ''reject for invalid group order''
          | ReasonRequiredFieldMissing t g \<Rightarrow> reject_invalid env m RequiredTagMissing
              (case g of Some gt \<Rightarrow> ''required tag missing: '' @ show_u32 t @ '' (in group '' @ show_u32 gt @ '')''
               | None \<Rightarrow> ''required tag missing: '' @ show_u32 t) ''reject for missing required field'')
      | UnexpectedError _ \<Rightarrow> ret ()))))"

section \<open>Outbound messages and connections\<close>

definition send_logon :: "('s, 'tz) session_env \<Rightarrow> ('s, 'tz, unit, session_operation_error) session_comp" where
  "send_logon env =
     bind_comp (gets (\<lambda>s. reset_on_logon (ctx_config (sess_ctx s)) \<or> sess_reset_on_next_logon s)) (\<lambda>do_reset.
     bind_comp (if do_reset then
         bind_comp (in_ctx (read_clock env)) (\<lambda>now.
         and_then (in_ctx (map_err StoreFailed (with_store (store_reset (env_store env) (wall_utc now))))) (ret ResetSeqNum))
       else gets (\<lambda>s. NoReset (Some (next_target_seq_number (env_store env) (ctx_store (sess_ctx s)))))) (\<lambda>reset_config.
     and_then (modify (\<lambda>s. s\<lparr>sess_reset_on_next_logon := False\<rparr>))
     (bind_comp (gets (\<lambda>s. heartbeat_interval (ctx_config (sess_ctx s)))) (\<lambda>hb.
     and_then (with_send_context ''logon'' (session_send_message env (Logon hb reset_config)))
     (ret ())))))"

definition on_connect :: "('s, 'tz) session_env \<Rightarrow> writer_ref \<Rightarrow> ('s, 'tz, unit, session_operation_error) session_comp" where
  "on_connect env w =
     bind_comp (in_ctx (read_clock env)) (\<lambda>now.
     bind_comp (gets (\<lambda>s. logon_timeout (ctx_config (sess_ctx s)))) (\<lambda>timeout.
     and_then (apply_transition (TransitionTo (AwaitingLogon \<lparr>logon_writer = w, logon_sent = False,
       logon_deadline = monotonic now + from_secs (unat timeout)\<rparr>)))
     (and_then (reset_peer_timer env None)
     (send_logon env))))"

definition on_disconnect :: "bytes \<Rightarrow> ('s, 'tz, unit, 'e) session_comp" where
  "on_disconnect r =
     and_then disconnect_writer
     (bind_comp (gets (\<lambda>s. state_on_disconnect (sess_state s) r)) (\<lambda>transition. apply_transition transition))"

definition internal_to_send_error :: "internal_send_error \<Rightarrow> send_error" where
  "internal_to_send_error e = (case e of Persist x \<Rightarrow> SendPersist x | SequenceNumber x \<Rightarrow> SendSequenceNumber x)"

definition send_app_message :: "('s, 'tz) session_env \<Rightarrow> outbound_message \<Rightarrow> ('s, 'tz, send_outcome, send_error) session_comp" where
  "send_app_message env om =
     bind_comp (gets (\<lambda>s. is_connected (sess_state s))) (\<lambda>connected.
     if \<not> connected then throw SendDisconnected
     else
       bind_comp (gets (\<lambda>s. app_on_outbound_message env (ctx_trace (sess_ctx s)) om)) (\<lambda>decision.
       and_then (in_ctx (emit (OnOutboundMessage (message_type om))))
       (case decision of
          Send \<Rightarrow> bind_comp (map_err internal_to_send_error (session_send_message env om)) (\<lambda>n. ret (Sent n))
        | Drop \<Rightarrow> ret Dropped
        | TerminateSession \<Rightarrow> and_then disconnect_writer (throw SessionTerminated))))"

section \<open>Handlers of the task\<close>

datatype session_event =
    FixMessageReceived bytes
  | DisconnectedEvent bytes
  | Connected writer_ref
  | ShouldReconnect responder
  | AwaitSchedule responder

datatype admin_request =
    InitiateGracefulShutdown bool
  | RequestSessionInfo responder
  | ResetSequenceNumbersOnNextLogon
  | SetNextTargetSeqNum u64 responder

text \<open>What a fallible call returned, as a value.\<close>

definition attempt :: "('st, 'a, 'e) comp \<Rightarrow> ('st, ('a, 'e) outcome, 'f) comp" where
  "attempt m = (\<lambda>s. case m s of
      (Ok a, s') \<Rightarrow> (Ok (Ok a), s')
    | (Err e, s') \<Rightarrow> (Ok (Err e), s')
    | (Panic, s') \<Rightarrow> (Panic, s'))"

definition reset_store_or_stop :: "('s, 'tz) session_env \<Rightarrow> ('s, 'tz, unit, 'e) session_comp" where
  "reset_store_or_stop env =
     bind_comp (in_ctx (read_clock env)) (\<lambda>now.
     bind_comp (attempt (in_ctx (with_store (store_reset (env_store env) (wall_utc now))))) (\<lambda>r. case r of
       Err _ \<Rightarrow> apply_transition (TransitionTo (new_disconnected False ''unexpected error in reset''))
     | _ \<Rightarrow> ret ()))"

definition graceful_logout_logged :: "('s, 'tz) session_env \<Rightarrow> bytes \<Rightarrow> bool \<Rightarrow> ('s, 'tz, unit, 'e) session_comp" where
  "graceful_logout_logged env r rc =
     bind_comp (attempt (initiate_graceful_logout env r rc)) (\<lambda>res. case res of
       Ok result \<Rightarrow> apply_transition result
     | _ \<Rightarrow> ret ())"

definition notify_awaiter :: "('s, 'tz, unit, 'e) session_comp" where
  "notify_awaiter =
     bind_comp (gets (\<lambda>s. notify_schedule_awaiter (sess_state s))) (\<lambda>(st, awaiter).
     and_then (set_state st)
     (case awaiter of None \<Rightarrow> ret () | Some r \<Rightarrow> in_ctx (emit (Answer r (ScheduleAnswer InSchedule)))))"

text \<open>A panic in the schedule computation is the panic of \<^verbatim>\<open>chrono\<close> the schedule model reports.\<close>

definition handle_schedule_check :: "('s, 'tz) session_env \<Rightarrow> ('s, 'tz, unit, 'e) session_comp" where
  "handle_schedule_check env =
     bind_comp (in_ctx (read_clock env)) (\<lambda>now.
     bind_comp (gets (\<lambda>s. is_active_at (env_tz env) (sess_schedule s) (wall_utc now))) (\<lambda>is_active.
     and_then (if is_active then
         and_then notify_awaiter
         (bind_comp (gets (\<lambda>s. is_same_session_period (env_tz env) (wall_utc now) (sess_schedule s)
             (creation_time (env_store env) (ctx_store (sess_ctx s))) (wall_utc now))) (\<lambda>comparison. case comparison of
           Ok SamePeriod \<Rightarrow> ret ()
         | Ok DifferentPeriod \<Rightarrow>
             and_then (logout_and_terminate env ''session period changed'') (reset_store_or_stop env)
         | Ok (OutsideSessionTime _) \<Rightarrow>
             and_then (logout_and_terminate env ''creation time outside schedule'') (reset_store_or_stop env)
         | Err _ \<Rightarrow> logout_and_terminate env ''internal error''
         | Panic \<Rightarrow> panic))
       else
         bind_comp (gets (\<lambda>s. is_connected (sess_state s))) (\<lambda>connected.
         if connected then graceful_logout_logged env ''End of session time'' True else ret ()))
     (bind_comp (in_ctx (read_clock env)) (\<lambda>later.
      modify (\<lambda>s. s\<lparr>sess_schedule_check := monotonic later + from_secs SCHEDULE_CHECK_INTERVAL\<rparr>)))))"

definition handle_session_event :: "('s, 'tz) session_env \<Rightarrow> session_event \<Rightarrow> ('s, 'tz, unit, 'e) session_comp" where
  "handle_session_event env event =
     and_then (handle_schedule_check env)
     (case event of
        FixMessageReceived raw \<Rightarrow>
          bind_comp (attempt (on_incoming env raw)) (\<lambda>r. case r of
            Err err \<Rightarrow>
              and_then (logout_and_terminate env ''internal error'')
              (apply_transition (TransitionTo (new_disconnected True (display_error err))))
          | _ \<Rightarrow> ret ())
      | DisconnectedEvent r \<Rightarrow> on_disconnect r
      | Connected w \<Rightarrow> log_err (on_connect env w)
      | ShouldReconnect r \<Rightarrow>
          bind_comp (gets (\<lambda>s. should_reconnect (sess_state s))) (\<lambda>b. in_ctx (emit (Answer r (ShouldReconnectAnswer b))))
      | AwaitSchedule r \<Rightarrow>
          bind_comp (gets (\<lambda>s. register_schedule_awaiter r (sess_state s))) (\<lambda>(st, answer).
          and_then (set_state st)
          (case answer of None \<Rightarrow> ret () | Some a \<Rightarrow> in_ctx (emit (Answer r (ScheduleAnswer a))))))"

definition handle_outbound_message ::
    "('s, 'tz) session_env \<Rightarrow> outbound_message \<Rightarrow> responder option \<Rightarrow> ('s, 'tz, unit, 'e) session_comp" where
  "handle_outbound_message env om confirm =
     bind_comp (attempt (send_app_message env om)) (\<lambda>result. case confirm of
       Some tx \<Rightarrow> in_ctx (emit (Answer tx (SendAnswer result)))
     | None \<Rightarrow> ret ())"

definition get_session_info :: "('s, 'tz) session_env \<Rightarrow> ('s, 'tz) session \<Rightarrow> session_info" where
  "get_session_info env s =
     \<lparr>info_next_sender_seq_number = next_sender_seq_number (env_store env) (ctx_store (sess_ctx s)),
      info_next_target_seq_number = next_target_seq_number (env_store env) (ctx_store (sess_ctx s)),
      info_status = as_status (sess_state s)\<rparr>"

definition handle_admin_request :: "('s, 'tz) session_env \<Rightarrow> admin_request \<Rightarrow> ('s, 'tz, unit, 'e) session_comp" where
  "handle_admin_request env request = (case request of
      InitiateGracefulShutdown rc \<Rightarrow> graceful_logout_logged env ''explicitly requested'' rc
    | RequestSessionInfo r \<Rightarrow> bind_comp (gets (get_session_info env)) (\<lambda>info. in_ctx (emit (Answer r (InfoAnswer info))))
    | ResetSequenceNumbersOnNextLogon \<Rightarrow> modify (\<lambda>s. s\<lparr>sess_reset_on_next_logon := True\<rparr>)
    | SetNextTargetSeqNum n r \<Rightarrow>
        bind_comp (gets sess_state) (\<lambda>st.
        bind_comp (attempt (in_ctx (try_set_next_target_seq_num env st n))) (\<lambda>response.
        in_ctx (emit (Answer r (SetTargetAnswer response))))))"

definition handle_heartbeat_timeout :: "('s, 'tz) session_env \<Rightarrow> ('s, 'tz, unit, 'e) session_comp" where
  "handle_heartbeat_timeout env = log_err (session_send_message env (Heartbeat None))"

definition handle_peer_timeout :: "('s, 'tz) session_env \<Rightarrow> ('s, 'tz, unit, 'e) session_comp" where
  "handle_peer_timeout env =
     bind_comp (gets sess_state) (\<lambda>st.
     if is_expecting_test_response st then logout_and_terminate env ''peer timeout''
     else if is_awaiting_logon st then disconnect_writer
     else if is_awaiting_logout st then disconnect_writer
     else
       bind_comp (gets (\<lambda>s. ''TEST_'' @ show_u64 (next_target_seq_number (env_store env) (ctx_store (sess_ctx s))))) (\<lambda>req_id.
       and_then (log_err (session_send_message env (TestRequest req_id)))
       (reset_peer_timer env (Some req_id))))"

section \<open>The task\<close>

datatype task_input =
    AdminInput admin_request
  | EventInput session_event
  | OutboundInput outbound_message "responder option"
  | HeartbeatTimer
  | PeerTimer
  | ScheduleTimer

definition handle_input :: "('s, 'tz) session_env \<Rightarrow> task_input \<Rightarrow> ('s, 'tz, unit, 'e) session_comp" where
  "handle_input env i = (case i of
      AdminInput r \<Rightarrow> handle_admin_request env r
    | EventInput e \<Rightarrow> handle_session_event env e
    | OutboundInput om confirm \<Rightarrow> handle_outbound_message env om confirm
    | HeartbeatTimer \<Rightarrow> handle_heartbeat_timeout env
    | PeerTimer \<Rightarrow> handle_peer_timeout env
    | ScheduleTimer \<Rightarrow> handle_schedule_check env)"

text \<open>An input can be next when its channel has it; a timer when its deadline exists and has passed. The type
  \<open>NonZeroU64\<close> of an administrative number is the condition on it.\<close>

definition input_enabled :: "('s, 'tz) session_env \<Rightarrow> ('s, 'tz) session \<Rightarrow> task_input \<Rightarrow> bool" where
  "input_enabled env s i \<longleftrightarrow>
     (let now = monotonic (env_clock env (ctx_clock (sess_ctx s))) in
      case i of
        AdminInput (SetNextTargetSeqNum n _) \<Rightarrow> n \<noteq> 0
      | HeartbeatTimer \<Rightarrow> (case heartbeat_deadline (sess_state s) of None \<Rightarrow> False | Some d \<Rightarrow> d \<le> now)
      | PeerTimer \<Rightarrow> (case peer_deadline (sess_state s) of None \<Rightarrow> False | Some d \<Rightarrow> d \<le> now)
      | ScheduleTimer \<Rightarrow> sess_schedule_check s \<le> now
      | _ \<Rightarrow> True)"

inductive session_step :: "('s, 'tz) session_env \<Rightarrow> ('s, 'tz) session \<Rightarrow> task_input \<Rightarrow> ('s, 'tz) session \<Rightarrow> bool"
  for env where
  step: "input_enabled env s i \<Longrightarrow> handle_input env i s = ((Ok () :: (unit, unit) outcome), s') \<Longrightarrow> session_step env s i s'"

inductive_simps session_step_simp: "session_step env s i s'"

inductive session_run :: "('s, 'tz) session_env \<Rightarrow> ('s, 'tz) session \<Rightarrow> task_input list \<Rightarrow> ('s, 'tz) session \<Rightarrow> bool"
  for env where
  run_nil: "session_run env s [] s"
| run_cons: "session_step env s i s' \<Longrightarrow> session_run env s' is s'' \<Longrightarrow> session_run env s (i # is) s''"

inductive_cases session_runE: "session_run env s is s'"

end
