(* ===== verification/Session_Invariants.thy ===== *)
theory Session_Invariants
  imports Session Message_Roundtrip
begin

text \<open>
  What every handler of the session task keeps, whatever the store, the clock and the application do: the
  configuration, the message builder and the schedule do not change; the history only grows, and what is
  added to it for a writer is for the writer of the current connection; and the bookkeeping of a resend stays within its
  bounds. Each operation has one lemma, proved along its text with the rules of \<open>ensures\<close>.
\<close>

section \<open>The invariant\<close>

definition effects_ok :: "writer_ref set \<Rightarrow> (message \<Rightarrow> bool) \<Rightarrow> effect list \<Rightarrow> bool" where
  "effects_ok W D es \<longleftrightarrow> (\<forall>w x. ToWriter w x \<in> set es \<longrightarrow> w \<in> W) \<and> (\<forall>m. OnInboundMessage m \<in> set es \<longrightarrow> D m)"

lemma effects_ok_simps [simp]:
  "effects_ok W D []" "effects_ok W D (es @ fs) \<longleftrightarrow> effects_ok W D es \<and> effects_ok W D fs"
  "effects_ok W D [e] \<longleftrightarrow> (\<forall>w x. e = ToWriter w x \<longrightarrow> w \<in> W) \<and> (\<forall>m. e = OnInboundMessage m \<longrightarrow> D m)"
  by (auto simp: effects_ok_def)

text \<open>The context started as \<open>c0\<close>, and since then only the writers \<open>W\<close> were used.\<close>

definition ctx_inv :: "writer_ref set \<Rightarrow> (message \<Rightarrow> bool) \<Rightarrow> 's session_ctx \<Rightarrow> 's session_ctx \<Rightarrow> bool" where
  "ctx_inv W D c0 c \<longleftrightarrow> ctx_config c = ctx_config c0 \<and> ctx_builder c = ctx_builder c0
     \<and> ctx_message_config c = ctx_message_config c0
     \<and> (\<exists>es. ctx_trace c = ctx_trace c0 @ es \<and> effects_ok W D es)"

definition resend_ok :: "awaiting_resend_state \<Rightarrow> bool" where
  "resend_ok s \<longleftrightarrow> 1 \<le> resend_attempts s \<and> resend_attempts s \<le> MAX_RESEND_ATTEMPTS
     \<and> list_all (\<lambda>m. \<exists>n. get_msg_seq_num m = (Ok n :: (u64, unit) outcome)) (inbound_queue s)"

definition state_ok :: "writer_ref set \<Rightarrow> session_state \<Rightarrow> bool" where
  "state_ok W st \<longleftrightarrow> set_option (get_writer st) \<subseteq> W \<and> (\<forall>s. st = AwaitingResend s \<longrightarrow> resend_ok s)"

definition transition_ok :: "writer_ref set \<Rightarrow> transition_result \<Rightarrow> bool" where
  "transition_ok W t \<longleftrightarrow> (case t of Stay \<Rightarrow> True | TransitionTo st \<Rightarrow> state_ok W st)"

definition result_ok :: "writer_ref set \<Rightarrow> verification_result \<Rightarrow> bool" where
  "result_ok W r \<longleftrightarrow> (case r of Passed \<Rightarrow> True | Issue t \<Rightarrow> transition_ok W t)"

definition outcome_ok :: "writer_ref set \<Rightarrow> verification_outcome \<Rightarrow> bool" where
  "outcome_ok W r \<longleftrightarrow> (case r of Handled t \<Rightarrow> transition_ok W t | _ \<Rightarrow> True)"

text \<open>\<open>session_kept W I sch s\<close>: the context satisfies \<open>I\<close>, the schedule is still \<open>sch\<close>, and the state holds no writer
  outside \<open>W\<close>. \<open>session_inv\<close> is the case in which the context is compared with the one of \<open>s0\<close>.\<close>

definition session_kept ::
    "writer_ref set \<Rightarrow> ('s session_ctx \<Rightarrow> bool) \<Rightarrow> 'tz session_schedule \<Rightarrow> ('s, 'tz) session \<Rightarrow> bool" where
  "session_kept W I sch s \<longleftrightarrow> I (sess_ctx s) \<and> sess_schedule s = sch \<and> state_ok W (sess_state s)"

abbreviation session_inv :: "writer_ref set \<Rightarrow> (message \<Rightarrow> bool) \<Rightarrow> ('s, 'tz) session \<Rightarrow> ('s, 'tz) session \<Rightarrow> bool" where
  "session_inv W D s0 \<equiv> session_kept W (ctx_inv W D (sess_ctx s0)) (sess_schedule s0)"

lemmas session_inv_def = session_kept_def

lemma transition_ok_simps [simp]:
  "transition_ok W Stay" "transition_ok W (TransitionTo st) = state_ok W st"
  "result_ok W Passed" "result_ok W (Issue t) = transition_ok W t"
  "outcome_ok W VerifyOk" "outcome_ok W (VerifyGap e a)" "outcome_ok W (Handled t) = transition_ok W t"
  by (simp_all add: transition_ok_def result_ok_def outcome_ok_def)

lemma state_ok_simps [simp]:
  "state_ok W (Disconnected d)" "state_ok W (Active a) = (act_writer a \<in> W)"
  "state_ok W (AwaitingLogon l) = (logon_writer l \<in> W)" "state_ok W (AwaitingLogout o') = (logout_writer o' \<in> W)"
  "state_ok W (AwaitingResend r) = (resend_writer r \<in> W \<and> resend_ok r)"
  "state_ok W (new_disconnected b t)" "state_ok W (new_active now w hb) = (w \<in> W)"
  by (auto simp: state_ok_def get_writer_def new_disconnected_def new_active_def)

lemma resend_ok_new [simp]: "resend_ok (AwaitingResendState_new w b e)"
  by (simp add: resend_ok_def AwaitingResendState_new_def MAX_RESEND_ATTEMPTS_def)

lemma resend_writer_new [simp]: "resend_writer (AwaitingResendState_new w b e) = w"
  by (simp add: AwaitingResendState_new_def)

section \<open>Shared facts\<close>

lemma ensures_and_then [ensures_intros]: "keeps P m \<Longrightarrow> ensures P n R \<Longrightarrow> ensures P (and_then m n) R"
  unfolding and_then_def by (rule keeps_bind)

lemma ensures_gets [ensures_intros]: "keeps P (gets g)"
  by (simp add: ensures_def comp_simps)

lemma ensures_send_context [ensures_intros]: "ensures P m Q \<Longrightarrow> ensures P (with_send_context x m) Q"
  unfolding with_send_context_def by (rule ensures_map_err)

lemma ensures_attempt: "ensures P m Q \<Longrightarrow> ensures P (attempt m) (\<lambda>r. \<forall>a. r = Ok a \<longrightarrow> Q a)"
  unfolding ensures_def attempt_def by (auto split: prod.split outcome.split)

lemmas keeps_attempt [ensures_intros] = ensures_keeps [OF ensures_attempt]

lemma ensures_with_store: "(\<And>c. I c \<Longrightarrow> I (c\<lparr>ctx_store := snd (m (ctx_store c))\<rparr>)) \<Longrightarrow> keeps I (with_store m)"
  unfolding ensures_def with_store_def by (simp add: case_prod_beta)

lemma state_ok_timers:
  "state_ok W st \<Longrightarrow> state_ok W (state_reset_heartbeat_timer now hb st)"
  "state_ok W st \<Longrightarrow> state_ok W (state_reset_peer_timer now hb i st)"
  by (cases st; simp add: state_reset_heartbeat_timer_def state_reset_peer_timer_def)+

lemma transition_ok_logout: "state_ok W st \<Longrightarrow> transition_ok W (try_transition_to_awaiting_logout now t rc st)"
  by (cases st) (simp_all add: try_transition_to_awaiting_logout_def get_writer_def)

lemma transition_ok_peer: "transition_ok W (state_on_peer_logout st)" "transition_ok W (state_on_disconnect st r)"
  by (cases st; simp add: state_on_peer_logout_def state_on_disconnect_def)+

lemma resend_update_ok:
  "resend_ok s \<Longrightarrow> resend_update b e s = (Success, s') \<Longrightarrow> resend_ok s' \<and> resend_writer s' = resend_writer s"
  by (auto simp: resend_update_def resend_ok_def MAX_RESEND_ATTEMPTS_def Let_def split: if_splits)

lemma resend_ok_queue:
  "resend_ok s \<Longrightarrow> get_msg_seq_num m = (Ok n :: (u64, 'e) outcome) \<Longrightarrow> resend_ok (s\<lparr>inbound_queue := inbound_queue s @ [m]\<rparr>)"
  by (auto simp: resend_ok_def get_msg_seq_num_def split: outcome.splits)

lemma pre_process_ok:
  assumes "state_ok W st" and "pre_process_inbound m st = (Ok (d, st') :: (_, 'e) outcome)"
  shows "state_ok W st' \<and> (\<forall>m'. d = Accept m' \<longrightarrow> m' = m)"
  using assms
  by (cases st) (auto simp: pre_process_inbound_def resend_pre_process_inbound_def logon_pre_process_inbound_def Let_def
      intro: resend_ok_queue split: outcome.splits if_splits)

lemma try_complete_ok:
  "state_ok W (AwaitingResend s) \<Longrightarrow> try_complete now n hb s = Some (st, ms) \<Longrightarrow> state_ok W st"
  by (auto simp: try_complete_def split: if_splits)

lemma register_ok: "state_ok W st \<Longrightarrow> register_schedule_awaiter r st = (st', a) \<Longrightarrow> state_ok W st'"
  by (cases st) (auto simp: register_schedule_awaiter_def split: if_splits)

lemma session_kept_state: "session_kept W I sch s \<Longrightarrow> state_ok W (sess_state s)"
  by (simp add: session_kept_def)

lemma session_kept_writer: "session_kept W I sch s \<Longrightarrow> get_writer (sess_state s) = Some w \<Longrightarrow> w \<in> W"
  by (auto simp: session_kept_def state_ok_def)

text \<open>The writers an input may use: the one of the state, and one that is being connected.\<close>

definition input_writers :: "task_input \<Rightarrow> writer_ref set" where
  "input_writers i = (case i of EventInput (Connected w) \<Rightarrow> {w} | _ \<Rightarrow> {})"

section \<open>The handlers keep an invariant\<close>

text \<open>
  What has to be shown of a predicate \<open>I\<close> on the context so that every handler of the task keeps it. \<open>W\<close> are the writers in use,
  \<open>outbound\<close> the messages that may be sent, \<open>allowed\<close> the effects that may enter the history and \<open>stored\<close> the messages
  the store may hold. The laws are about the primitive operations on the context only; the lemmas follow the code.
\<close>

locale kept_invariant =
  fixes env :: "('s, 'tz) session_env" and W :: "writer_ref set" and cfg :: session_config and mb :: message_builder
    and mc :: msg_config and outbound :: "outbound_message \<Rightarrow> bool" and allowed :: "effect \<Rightarrow> bool"
    and stored :: "bytes \<Rightarrow> bool" and I :: "'s session_ctx \<Rightarrow> bool"
  assumes same_config: "I c \<Longrightarrow> ctx_config c = cfg \<and> ctx_builder c = mb \<and> ctx_message_config c = mc"
    and keep_clock: "I c \<Longrightarrow> I (c\<lparr>ctx_clock := k\<rparr>)"
    and keep_emit: "I c \<Longrightarrow> allowed e \<Longrightarrow> I (c\<lparr>ctx_trace := ctx_trace c @ [e]\<rparr>)"
    and keep_prepare: "outbound om \<Longrightarrow>
      ensures I (prepare_message env om) (\<lambda>r. \<forall>w \<in> W. allowed (ToWriter w (SendMessage (snd r))))"
    and keep_inc_target: "I c \<Longrightarrow> I (c\<lparr>ctx_store := snd (increment_target_seq_number (env_store env) (ctx_store c))\<rparr>)"
    and keep_set_target: "I c \<Longrightarrow> I (c\<lparr>ctx_store := snd (set_target_seq_number (env_store env) n (ctx_store c))\<rparr>)"
    and keep_reset: "I c \<Longrightarrow> I (c\<lparr>ctx_store := snd (store_reset (env_store env) created (ctx_store c))\<rparr>)"
    and slice_stored: "I c \<Longrightarrow> store_get_slice (env_store env) lo hi (ctx_store c) = Ok msgs \<Longrightarrow> list_all stored msgs"
    and allow_reset: "w \<in> W \<Longrightarrow>
      generate_message now (begin_string cfg) (sender_comp_id cfg) (target_comp_id cfg) n (SequenceReset True n')
        = (Ok raw :: (bytes, session_operation_error) outcome) \<Longrightarrow> allowed (ToWriter w (SendMessage raw))"
    and allow_resend: "w \<in> W \<Longrightarrow> stored msg \<Longrightarrow>
      build_message mb msg = (Ok parsed :: (parsed_message, session_operation_error) outcome) \<Longrightarrow>
      into_message parsed = Some m \<Longrightarrow> allowed (ToWriter w (SendMessage (fst (encode mc (snd (prepare_message_for_resend now m))))))"
    and allow_disconnect: "w \<in> W \<Longrightarrow> allowed (ToWriter w Disconnect)"
    and allow_other: "\<forall>w x. e \<noteq> ToWriter w x \<Longrightarrow> \<forall>m. e \<noteq> OnInboundMessage m \<Longrightarrow> allowed e"
    and engine_outbound: "engine_message om \<Longrightarrow> outbound om"
begin

lemmas kept_allowed [simp] = allow_disconnect allow_other engine_outbound

lemma kept_emit [ensures_intros]: "allowed e \<Longrightarrow> keeps I (emit e)"
  unfolding emit_def by (rule ensures_modify) (auto intro: keep_emit)

lemma kept_read_clock [ensures_intros]: "keeps I (read_clock env)"
  by (rule ensuresI) (auto simp: read_clock_def intro: keep_clock)

lemma kept_store [ensures_intros]:
  "keeps I (with_store (increment_target_seq_number (env_store env)))"
  "keeps I (with_store (set_target_seq_number (env_store env) n))"
  "keeps I (with_store (store_reset (env_store env) now))"
  by (rule ensures_with_store, erule keep_inc_target keep_set_target keep_reset)+

lemma kept_send_raw [ensures_intros]:
  "allowed (ToWriter w (SendMessage raw)) \<Longrightarrow> keeps I (send_raw_message w raw)" "w \<in> W \<Longrightarrow> keeps I (writer_disconnect w)"
  unfolding send_raw_message_def writer_disconnect_def by (rule kept_emit; simp)+

lemma kept_send [ensures_intros]: "w \<in> W \<Longrightarrow> outbound om \<Longrightarrow> keeps I (send_message env w om)"
  unfolding send_message_def
  by (rule ensures_bind [OF keep_prepare]) (auto intro!: ensures_intros)

lemma kept_sequence_reset [ensures_intros]: "w \<in> W \<Longrightarrow> keeps I (send_sequence_reset env w b e)"
  unfolding send_sequence_reset_def
  by (rule ensures_bind_gets, rule keeps_bind [OF kept_read_clock], rule ensures_bind
      [where Q = "\<lambda>raw. allowed (ToWriter w (SendMessage raw))"])
    (auto dest: same_config intro: allow_reset intro!: ensures_intros)

lemma kept_resend_loop [ensures_intros]:
  assumes "w \<in> W"
  shows "list_all stored msgs \<Longrightarrow> keeps I (resend_loop env w msgs start n)"
proof (induction msgs arbitrary: start n)
  case Nil
  show ?case using assms by (cases start) (auto intro!: ensures_intros)
next
  case (Cons msg msgs)
  have step: "keeps I (case prepare_message_for_resend (wall now) m of (Panic, _) \<Rightarrow> panic
      | (_, prepared) \<Rightarrow> bind_comp (gets ctx_message_config) (\<lambda>cfg.
          and_then (send_raw_message w (fst (encode cfg prepared))) (resend_loop env w msgs None k)))"
    if "build_message mb msg = (Ok parsed :: (parsed_message, session_operation_error) outcome)" "into_message parsed = Some m"
    for parsed m now k
    using Cons allow_resend [OF assms _ that, of "wall now"]
    by (auto intro!: ensures_intros dest!: same_config split: prod.split outcome.split)
  have tail: "keeps I (case into_message parsed of
       None \<Rightarrow> throw (StoredMessageParse (''failed to build message for raw message: '' @ debug_bytes msg))
     | Some message \<Rightarrow>
         bind_comp (lift_outcome (get_msg_seq_num message)) (\<lambda>sequence_number.
         case msg_type_of message of
           Ok mt \<Rightarrow>
             if is_admin mt then
               resend_loop env w msgs (case start of None \<Rightarrow> Some sequence_number | Some b \<Rightarrow> Some b) sequence_number
             else
               and_then (case start of None \<Rightarrow> ret () | Some b \<Rightarrow> send_sequence_reset env w b sequence_number)
               (bind_comp (read_clock env) (\<lambda>now.
                case prepare_message_for_resend (wall now) message of
                  (Panic, _) \<Rightarrow> panic
                | (_, prepared) \<Rightarrow>
                    bind_comp (gets ctx_message_config) (\<lambda>cfg.
                    and_then (send_raw_message w (fst (encode cfg prepared)))
                    (resend_loop env w msgs None sequence_number))))
         | _ \<Rightarrow> throw (MissingField ''MSG_TYPE'')))"
    if "build_message mb msg = (Ok parsed :: (parsed_message, session_operation_error) outcome)" for parsed
    using assms Cons
    by (cases "into_message parsed")
      (auto intro!: ensures_intros keeps_bind step [OF that] split: option.split outcome.split)
  show ?case
    unfolding resend_loop.simps
    by (rule ensures_bind_gets, rule ensures_bind [where Q = "\<lambda>parsed. build_message mb msg = Ok parsed"])
      (auto dest: same_config intro!: ensures_intros tail)
qed

lemma kept_resend_messages [ensures_intros]:
  assumes "w \<in> W"
  shows "keeps I (resend_messages env w b e)"
  unfolding resend_messages_def
proof (rule ensures_bind_gets)
  fix c assume c: "I c"
  show "keeps I (bind_comp (map_err StoreFailed (lift_outcome (store_get_slice (env_store env) b e (ctx_store c))))
      (\<lambda>messages. resend_loop env w messages None 0))"
    by (rule ensures_bind [where Q = "list_all stored"])
      (use assms c in \<open>auto intro!: ensures_intros intro: slice_stored\<close>)
qed

lemma kept_try [ensures_intros]:
  "w \<in> W \<Longrightarrow> outbound om \<Longrightarrow> keeps I (try_send env w om)" "w \<in> W \<Longrightarrow> keeps I (try_send_logout env w r)"
  "keeps I (try_increment_target env)"
proof -
  show "w \<in> W \<Longrightarrow> outbound om \<Longrightarrow> keeps I (try_send env w om)"
    unfolding try_send_def by (intro ensures_intros)
  show "keeps I (try_increment_target env)"
    unfolding try_increment_target_def by (intro ensures_intros)
  show "w \<in> W \<Longrightarrow> keeps I (try_send_logout env w r)"
    unfolding try_send_logout_def
    by (rule ensures_log_err, rule ensures_bind [OF keep_prepare]) (auto intro!: ensures_intros)
qed

lemma kept_verification_error [ensures_intros]:
  assumes "w \<in> W"
  shows "ensures I (handle_verification_error env w err) (transition_ok W)"
  using assms
  by (cases err)
    (auto simp: handle_verification_error_def handle_sequence_number_too_low_def handle_incorrect_begin_string_def
      handle_incorrect_comp_id_def handle_sending_time_accuracy_problem_def handle_original_sending_time_missing_def Let_def
      intro!: ensures_intros)

lemma kept_verify_with_ctx: "keeps I (verify_message_with_ctx env m flags)"
  unfolding verify_message_with_ctx_def by (intro ensures_intros keeps_bind TrueI)

lemma kept_verify [ensures_intros]:
  assumes "w \<in> W"
  shows "ensures I (verify_and_handle_errors env w m flags
      :: ('s session_ctx, verification_outcome, 'e) comp) (outcome_ok W)"
proof (rule ensuresI)
  fix c :: "'s session_ctx" and r :: "(verification_outcome, 'e) outcome" and c'
  assume c: "I c" and run: "verify_and_handle_errors env w m flags c = (r, c')"
  obtain v c1 where v: "verify_message_with_ctx env m flags c = (v, c1)" by fastforce
  have c1: "I c1" using ensuresD [OF kept_verify_with_ctx c v] .
  show "I c' \<and> (\<forall>a. r = Ok a \<longrightarrow> outcome_ok W a)"
  proof (cases "\<exists>err. v = Err (InvalidMessage err)")
    case True
    then obtain err where err: "v = Err (InvalidMessage err)" by blast
    have "ensures I (bind_comp (handle_verification_error env w err) (\<lambda>t. ret (Handled t))
        :: ('s session_ctx, verification_outcome, 'e) comp) (outcome_ok W)"
      by (rule ensures_bind [OF kept_verification_error [OF assms]]) (auto intro!: ensures_intros)
    with run v err c1 show ?thesis by (fastforce simp: verify_and_handle_errors_def ensures_def)
  next
    case False
    with run v c1 show ?thesis
      by (auto simp: verify_and_handle_errors_def split: outcome.splits verification_issue.splits)
  qed
qed

lemma kept_invalid_msg_type [ensures_intros]: "w \<in> W \<Longrightarrow> keeps I (handle_invalid_msg_type env w m mt)"
  unfolding handle_invalid_msg_type_def by (auto intro!: ensures_intros split: outcome.split)

lemma kept_inbound [ensures_intros]:
  "w \<in> W \<Longrightarrow> keeps I (inbound_on_test_request env w m)"
  "w \<in> W \<Longrightarrow> keeps I (inbound_on_sequence_reset env w m)"
  "w \<in> W \<Longrightarrow> keeps I (inbound_on_resend_request env w m)"
  unfolding inbound_on_test_request_def inbound_on_sequence_reset_def inbound_on_resend_request_def Let_def
  by (auto intro!: ensures_intros keeps_bind split: outcome.split)

lemma kept_verify_or_request [ensures_intros]:
  assumes "w \<in> W"
  shows "ensures I (verify_or_request_resend env w m flags) (result_ok W)"
  unfolding verify_or_request_resend_def
  by (rule ensures_bind [OF kept_verify [OF assms]])
    (use assms in \<open>auto intro!: ensures_intros split: verification_outcome.split\<close>)

lemma kept_awaiting_logout [ensures_intros]:
  assumes "logout_writer s \<in> W"
  shows "ensures I (awaiting_logout_handle_verification_issue env s m flags) (result_ok W)"
  unfolding awaiting_logout_handle_verification_issue_def
  by (rule ensures_bind [OF kept_verify [OF assms]])
    (auto intro!: ensures_intros split: verification_outcome.split)

lemma kept_read_instants [ensures_intros]: "keeps I (read_instants env)"
  unfolding read_instants_def by (intro ensures_intros keeps_bind TrueI)

lemma kept_peer_logon [ensures_intros]:
  assumes "state_ok W st"
  shows "ensures I (state_on_peer_logon env st) (transition_ok W)"
  using assms by (cases st) (auto simp: state_on_peer_logon_def awaiting_logon_on_peer_logon_def intro!: ensures_intros keeps_bind)

lemma kept_set_next_target [ensures_intros]: "keeps I (try_set_next_target_seq_num env st n)"
  by (cases st) (auto simp: try_set_next_target_seq_num_def intro!: ensures_intros)

lemma kept_in_ctx [ensures_intros]:
  assumes "ensures I m Q"
  shows "ensures (session_kept W I sch) (in_ctx m) Q"
proof (rule ensuresI)
  fix s r s' assume s: "session_kept W I sch s" and "in_ctx m s = (r, s')"
  then obtain c where c: "m (sess_ctx s) = (r, c)" "s' = s\<lparr>sess_ctx := c\<rparr>"
    by (auto simp: in_ctx_def split: prod.splits)
  then show "session_kept W I sch s' \<and> (\<forall>a. r = Ok a \<longrightarrow> Q a)"
    using s assms by (fastforce simp: session_kept_def ensures_def)
qed

lemma kept_set_state [ensures_intros]: "state_ok W st \<Longrightarrow> keeps (session_kept W I sch) (set_state st)"
  unfolding set_state_def by (rule ensures_modify) (auto simp: session_kept_def)

lemma kept_if_writer [ensures_intros]:
  "(\<And>w. w \<in> W \<Longrightarrow> keeps (session_kept W I sch) (f w)) \<Longrightarrow> keeps (session_kept W I sch) (if_writer f)"
  unfolding if_writer_def
  by (rule ensures_bind_gets) (auto intro!: ensures_pure intro: session_kept_writer split: option.split)

lemma kept_apply_transition [ensures_intros]:
  "transition_ok W t \<Longrightarrow> keeps (session_kept W I sch) (apply_transition t)"
  unfolding apply_transition_def by (cases t) (auto intro!: ensures_intros)

lemma kept_timers [ensures_intros]:
  "keeps (session_kept W I sch) (reset_heartbeat_timer env)" "keeps (session_kept W I sch) (reset_peer_timer env i)"
  unfolding reset_heartbeat_timer_def reset_peer_timer_def
  by (auto intro!: ensures_intros keeps_bind simp: session_kept_def state_ok_timers)

lemma kept_disconnect_writer [ensures_intros]: "keeps (session_kept W I sch) disconnect_writer"
  unfolding disconnect_writer_def by (auto intro!: ensures_intros)

lemma kept_session_send [ensures_intros]: "outbound om \<Longrightarrow> keeps (session_kept W I sch) (session_send_message env om)"
  unfolding session_send_message_def
  by (rule ensures_bind [OF kept_in_ctx [OF keep_prepare]])
    (auto simp: session_kept_def intro!: ensures_intros keeps_bind split: session_state.split)

lemma kept_logout [ensures_intros]:
  "keeps (session_kept W I sch) (send_logout env r)" "keeps (session_kept W I sch) (logout_and_terminate env r)"
  unfolding logout_and_terminate_def send_logout_def by (auto intro!: ensures_intros)

lemma kept_graceful_logout [ensures_intros]:
  "ensures (session_kept W I sch) (initiate_graceful_logout env r rc) (transition_ok W)"
  unfolding initiate_graceful_logout_def
  by (auto intro!: ensures_intros keeps_bind simp: session_kept_def transition_ok_logout split: transition_result.split)

lemma kept_awaiting_resend [ensures_intros]:
  assumes "resend_writer s \<in> W" and "resend_ok s"
  shows "ensures (session_kept W I sch) (awaiting_resend_handle_verification_issue env s m flags) (result_ok W)"
  unfolding awaiting_resend_handle_verification_issue_def
  by (rule ensures_bind [OF kept_in_ctx [OF kept_verify [OF assms(1)]]])
    (use assms in \<open>auto intro!: ensures_intros dest: resend_update_ok
      split: verification_outcome.split prod.split awaiting_resend_outcome.split\<close>)

lemma kept_verification_issue [ensures_intros]:
  "ensures (session_kept W I sch) (handle_verification_issue env m flags) (result_ok W)"
  unfolding handle_verification_issue_def active_handle_verification_issue_def awaiting_logon_handle_verification_issue_def
  by (auto intro!: ensures_intros simp: session_kept_def split: session_state.split)

lemma kept_increment [ensures_intros]: "keeps (session_kept W I sch) (increment_target env)"
  unfolding increment_target_def by (intro ensures_intros)

lemma kept_on_logon [ensures_intros]: "keeps (session_kept W I sch) (on_logon env)"
  unfolding on_logon_def
proof (rule ensures_bind_gets)
  fix s assume "session_kept W I sch s"
  then have "state_ok W (sess_state s)" by (simp add: session_kept_def)
  then show "keeps (session_kept W I sch) (bind_comp (in_ctx (state_on_peer_logon env (sess_state s))) apply_transition)"
    by (rule ensures_bind [OF kept_in_ctx [OF kept_peer_logon]]) (rule ensures_intros)
qed

lemma kept_on_logout [ensures_intros]: "keeps (session_kept W I sch) (on_logout env)"
  unfolding on_logout_def by (auto intro!: ensures_intros simp: transition_ok_peer)

lemma kept_admin_messages [ensures_intros]:
  "keeps (session_kept W I sch) (on_heartbeat env m)" "keeps (session_kept W I sch) (on_test_request env m)"
  "keeps (session_kept W I sch) (on_reject env)" "keeps (session_kept W I sch) (on_sequence_reset env m)"
  unfolding on_heartbeat_def on_test_request_def on_reject_def on_sequence_reset_def
  by (auto intro!: ensures_intros split: option.split outcome.split)

lemma kept_on_resend_request [ensures_intros]: "keeps (session_kept W I sch) (on_resend_request env m)"
proof -
  have "ensures (session_kept W I sch) (lift_outcome (get_msg_seq_num m :: (u64, session_operation_error) outcome))
      (\<lambda>n. get_msg_seq_num m = (Ok n :: (u64, session_operation_error) outcome))"
    by (rule ensures_lift_outcome)
  then show ?thesis
    unfolding on_resend_request_def
    by (auto intro!: ensures_intros ensures_bind [where Q = "\<lambda>n. get_msg_seq_num m = Ok n"] resend_ok_queue
        simp: session_kept_def split: session_state.split)
qed

lemma kept_app_message [ensures_intros]: "allowed (OnInboundMessage m) \<Longrightarrow> keeps (session_kept W I sch) (process_app_message env m)"
  unfolding process_app_message_def
  by (auto intro!: ensures_intros keeps_bind split: inbound_decision.split outcome.split)

lemma kept_dispatch [ensures_intros]: "allowed (OnInboundMessage m) \<Longrightarrow> keeps (session_kept W I sch) (dispatch_message env mt m)"
  unfolding dispatch_message_def by (simp add: ensures_intros)

lemma kept_process_accepted [ensures_intros]:
  assumes "allowed (OnInboundMessage m)"
  shows "keeps (session_kept W I sch) (process_accepted env m)"
proof (cases "msg_type_of m")
  case (Ok mt)
  have "keeps (session_kept W I sch) (case r of Issue t \<Rightarrow> apply_transition t | Passed \<Rightarrow> dispatch_message env mt m)"
    if "result_ok W r" for r
    using that assms by (cases r) (auto intro!: ensures_intros)
  then have "keeps (session_kept W I sch) (bind_comp (handle_verification_issue env m flags) (\<lambda>r. case r of
      Issue t \<Rightarrow> apply_transition t | Passed \<Rightarrow> dispatch_message env mt m))" for flags
    by (rule ensures_bind [OF kept_verification_issue])
  then have "keeps (session_kept W I sch) (bind_comp (lift_outcome (for_message m)) (\<lambda>flags.
      bind_comp (handle_verification_issue env m flags) (\<lambda>r. case r of
        Issue t \<Rightarrow> apply_transition t | Passed \<Rightarrow> dispatch_message env mt m)))"
    by (rule keeps_bind [OF ensures_lift_outcome [OF TrueI]])
  then show ?thesis using Ok by (simp add: process_accepted_def)
qed (simp_all add: process_accepted_def ensures_intros)

lemma kept_process_message [ensures_intros]:
  assumes "allowed (OnInboundMessage m0)"
  shows "keeps (session_kept W I sch) (process_message env m0)"
  unfolding process_message_def
proof (rule ensures_bind_gets)
  fix s assume s: "session_kept W I sch s"
  have "ensures (session_kept W I sch) (lift_outcome (pre_process_inbound m0 (sess_state s))) 
      (\<lambda>(d, st'). state_ok W st' \<and> (\<forall>m'. d = Accept m' \<longrightarrow> m' = m0))"
    by (rule ensures_lift_outcome) (auto dest: pre_process_ok [OF session_kept_state [OF s]])
  then show "keeps (session_kept W I sch) (bind_comp (lift_outcome (pre_process_inbound m0 (sess_state s)))
      (\<lambda>(decision, st'). and_then (set_state st') (case decision of
        Queued \<Rightarrow> ret () | DisconnectWriter \<Rightarrow> disconnect_writer | Accept m \<Rightarrow> process_accepted env m)))"
    by (rule ensures_bind) (use assms in \<open>auto intro!: ensures_intros split: pre_process_decision.split\<close>)
qed

end

text \<open>The handlers of the task take messages from the wire and the resend queue, so any inbound message may be delivered.\<close>

locale kept_task = kept_invariant +
  assumes allow_inbound [simp]: "allowed (OnInboundMessage m)"
begin

lemma kept_backlog [ensures_intros]: "keeps (session_kept W I sch) (process_backlog env ms)"
  by (induction ms) (auto intro!: ensures_intros)

lemma kept_check_end [ensures_intros]: "keeps (session_kept W I sch) (check_end_of_resend env)"
  unfolding check_end_of_resend_def
proof (rule ensures_bind_gets)
  fix s assume "session_kept W I sch s"
  then have st: "state_ok W (sess_state s)" by (rule session_kept_state)
  show "keeps (session_kept W I sch) (case sess_state s of
      AwaitingResend s \<Rightarrow>
        bind_comp (in_ctx (read_instants env)) (\<lambda>now.
        bind_comp (gets (\<lambda>x. try_complete now (next_target_seq_number (env_store env) (ctx_store (sess_ctx x)))
          (heartbeat_interval (ctx_config (sess_ctx x))) s)) (\<lambda>completed. case completed of
            None \<Rightarrow> ret ()
          | Some (new_state, backlog) \<Rightarrow>
              and_then (apply_transition (TransitionTo new_state)) (process_backlog env backlog)))
    | _ \<Rightarrow> ret ())"
    using st
    by (auto intro!: ensures_intros keeps_bind dest!: try_complete_ok [rotated] split: session_state.split option.split)
qed

lemma kept_reject_invalid [ensures_intros]: "keeps (session_kept W I sch) (reject_invalid env m r t x)"
  unfolding reject_invalid_def by (auto intro!: ensures_intros split: outcome.split)

lemma kept_on_incoming [ensures_intros]: "keeps (session_kept W I sch) (on_incoming env raw)"
  unfolding on_incoming_def
  by (auto intro!: ensures_intros keeps_bind split: parsed_message.split invalid_reason.split)

lemma kept_send_logon [ensures_intros]: "keeps (session_kept W I sch) (send_logon env)"
  unfolding send_logon_def by (auto intro!: ensures_intros keeps_bind simp: session_kept_def)

lemma kept_on_connect [ensures_intros]: "w \<in> W \<Longrightarrow> keeps (session_kept W I sch) (on_connect env w)"
  unfolding on_connect_def by (auto intro!: ensures_intros keeps_bind)

lemma kept_on_disconnect [ensures_intros]: "keeps (session_kept W I sch) (on_disconnect r)"
  unfolding on_disconnect_def by (auto intro!: ensures_intros simp: transition_ok_peer)

lemma kept_send_app [ensures_intros]: "outbound om \<Longrightarrow> keeps (session_kept W I sch) (send_app_message env om)"
  unfolding send_app_message_def by (auto intro!: ensures_intros keeps_bind split: outbound_decision.split)

lemma kept_reset_store [ensures_intros]: "keeps (session_kept W I sch) (reset_store_or_stop env)"
  unfolding reset_store_or_stop_def
  by (auto intro!: ensures_intros keeps_bind split: outcome.split)

lemma kept_graceful_logged [ensures_intros]: "keeps (session_kept W I sch) (graceful_logout_logged env r rc)"
  unfolding graceful_logout_logged_def
  by (rule ensures_bind [OF ensures_attempt [OF kept_graceful_logout]])
    (auto intro!: ensures_intros split: outcome.split)

lemma kept_notify [ensures_intros]: "keeps (session_kept W I sch) notify_awaiter"
  unfolding notify_awaiter_def
  by (auto intro!: ensures_intros simp: notify_schedule_awaiter_def session_kept_def split: session_state.splits option.split)

lemma kept_schedule_check [ensures_intros]: "keeps (session_kept W I sch) (handle_schedule_check env)"
  unfolding handle_schedule_check_def
  by (auto intro!: ensures_intros keeps_bind simp: session_kept_def split: outcome.split session_period_comparison.split)

lemma kept_event:
  assumes "input_writers (EventInput e) \<subseteq> W"
  shows "keeps (session_kept W I sch) (handle_session_event env e)"
  unfolding handle_session_event_def
proof (rule ensures_and_then [OF kept_schedule_check])
  have keep: "keeps (session_kept W I sch) (case register_schedule_awaiter r (sess_state s) of (st, answer) \<Rightarrow>
      and_then (set_state st) (case answer of None \<Rightarrow> ret () | Some a \<Rightarrow> in_ctx (emit (Answer r (ScheduleAnswer a)))))"
    if "session_kept W I sch s" for r s
    using register_ok [OF session_kept_state [OF that]]
    by (auto intro!: ensures_intros split: prod.split option.split)
  show "keeps (session_kept W I sch) (case e of
        FixMessageReceived raw \<Rightarrow>
          bind_comp (attempt (on_incoming env raw)) (\<lambda>r. case r of
            Err err \<Rightarrow>
              and_then (logout_and_terminate env ''internal error'')
              (apply_transition (TransitionTo (new_disconnected True (display_error err))))
          | _ \<Rightarrow> ret ())
      | DisconnectedEvent r \<Rightarrow> on_disconnect r
      | Connected w \<Rightarrow> log_err (on_connect env w)
      | ShouldReconnect r \<Rightarrow>
          bind_comp (gets (\<lambda>s. should_reconnect (sess_state s))) (\<lambda>b. in_ctx (emit (Answer r (ShouldReconnectAnswer b))))
      | AwaitSchedule r \<Rightarrow>
          bind_comp (gets (\<lambda>s. register_schedule_awaiter r (sess_state s))) (\<lambda>(st, answer).
          and_then (set_state st)
          (case answer of None \<Rightarrow> ret () | Some a \<Rightarrow> in_ctx (emit (Answer r (ScheduleAnswer a))))))"
    using assms keep
    by (cases e) (auto intro!: ensures_intros keeps_bind simp: input_writers_def split: outcome.split)
qed

lemma kept_handle_input:
  assumes "input_writers i \<subseteq> W" and "\<And>om r. i = OutboundInput om r \<Longrightarrow> outbound om"
  shows "keeps (session_kept W I sch) (handle_input env i)"
  using assms kept_event
  by (cases i)
    (auto simp: handle_input_def handle_admin_request_def handle_outbound_message_def handle_heartbeat_timeout_def
      handle_peer_timeout_def session_kept_def intro!: ensures_intros keeps_bind
      split: admin_request.split option.split)

end

section \<open>The history of a session\<close>

definition history_allowed :: "writer_ref set \<Rightarrow> (message \<Rightarrow> bool) \<Rightarrow> effect \<Rightarrow> bool" where
  "history_allowed W D e \<longleftrightarrow> (\<forall>w x. e = ToWriter w x \<longrightarrow> w \<in> W) \<and> (\<forall>m. e = OnInboundMessage m \<longrightarrow> D m)"

lemma ctx_inv_update [simp]:
  "ctx_inv W D c0 (c\<lparr>ctx_clock := k\<rparr>) = ctx_inv W D c0 c" "ctx_inv W D c0 (c\<lparr>ctx_store := st\<rparr>) = ctx_inv W D c0 c"
  by (simp_all add: ctx_inv_def)

interpretation history: kept_invariant env W "ctx_config c0" "ctx_builder c0" "ctx_message_config c0" "\<lambda>_. True"
  "history_allowed W D" "\<lambda>_. True" "ctx_inv W D c0" for env W D c0
proof
  fix c e assume "ctx_inv W D c0 c" "history_allowed W D e"
  then show "ctx_inv W D c0 (c\<lparr>ctx_trace := ctx_trace c @ [e]\<rparr>)" by (auto simp: ctx_inv_def history_allowed_def)
next
  fix om
  have "keeps (ctx_inv W D c0) (with_store m)" for m :: "('a, unit, store_error) comp"
    by (rule ensures_with_store) simp
  moreover have "keeps (ctx_inv W D c0) (read_clock env)"
    by (rule ensuresI) (auto simp: read_clock_def)
  ultimately have "keeps (ctx_inv W D c0) (prepare_message env om)"
    unfolding prepare_message_def by (intro ensures_intros keeps_bind TrueI) auto
  then show "ensures (ctx_inv W D c0) (prepare_message env om) (\<lambda>r. \<forall>w \<in> W. history_allowed W D (ToWriter w (SendMessage (snd r))))"
    by (rule ensures_weaken) (auto simp: history_allowed_def)
qed (auto simp: history_allowed_def ctx_inv_def list_all_iff)

interpretation history_task: kept_task env W "ctx_config c0" "ctx_builder c0" "ctx_message_config c0" "\<lambda>_. True"
  "history_allowed W (\<lambda>_. True)" "\<lambda>_. True" "ctx_inv W (\<lambda>_. True) c0" for env W c0
  by unfold_locales (simp add: history_allowed_def)

section \<open>Steps and runs\<close>

lemma session_inv_refl: "state_ok W (sess_state s) \<Longrightarrow> session_inv W D s s"
  by (auto simp: session_inv_def ctx_inv_def intro: exI [of _ "[]"])

lemma session_inv_trans:
  assumes "session_inv V D s0 s" and "session_inv W D s s'" and "V \<subseteq> W"
  shows "session_inv W D s0 s'"
proof -
  obtain es fs where "ctx_trace (sess_ctx s) = ctx_trace (sess_ctx s0) @ es" "effects_ok V D es"
    "ctx_trace (sess_ctx s') = ctx_trace (sess_ctx s) @ fs" "effects_ok W D fs"
    using assms by (auto simp: session_inv_def ctx_inv_def)
  moreover from this assms(3) have "effects_ok W D (es @ fs)" by (auto simp: effects_ok_def)
  ultimately show ?thesis using assms(1,2) by (simp add: session_inv_def ctx_inv_def)
qed

lemma step_inv:
  assumes "session_step env s i s'" and "state_ok W (sess_state s)" and "input_writers i \<subseteq> W"
  shows "session_inv W (\<lambda>_. True) s s'"
  using assms(1) ensuresD [OF history_task.kept_handle_input [OF assms(3)] session_inv_refl [OF assms(2)]]
  by (auto simp: session_step_simp)

lemma run_inv:
  assumes "session_run env s is s'" and "state_ok W (sess_state s)" and "\<forall>i \<in> set is. input_writers i \<subseteq> W"
  shows "session_inv W (\<lambda>_. True) s s'"
  using assms
proof (induction rule: session_run.induct)
  case (run_nil s)
  then show ?case by (simp add: session_inv_refl)
next
  case (run_cons s i s' "is" s'')
  have one: "session_inv W (\<lambda>_. True) s s'" 
    by (rule step_inv [OF run_cons.hyps(1)]) (use run_cons.prems in simp_all)
  with run_cons have "session_inv W (\<lambda>_. True) s' s''" by (simp add: session_inv_def)
  with one show ?case by (rule session_inv_trans) simp
qed

section \<open>Properties\<close>

text \<open>No stray writes. Handling one input of any kind, whatever the store, the clock and the application do, only
  extends the history, and every message or disconnect it adds is for the writer the session held when
  the input arrived or for the one just being connected; the configuration, the message builder and the
  schedule stay as they are.\<close>

theorem step_uses_current_writer:
  assumes "session_step env s i s'" and "\<forall>r. sess_state s = AwaitingResend r \<longrightarrow> resend_ok r"
  shows "\<exists>es. ctx_trace (sess_ctx s') = ctx_trace (sess_ctx s) @ es
    \<and> (\<forall>w x. ToWriter w x \<in> set es \<longrightarrow> get_writer (sess_state s) = Some w \<or> i = EventInput (Connected w))
    \<and> (\<forall>w. get_writer (sess_state s') = Some w \<longrightarrow> get_writer (sess_state s) = Some w \<or> i = EventInput (Connected w))
    \<and> ctx_config (sess_ctx s') = ctx_config (sess_ctx s) \<and> ctx_builder (sess_ctx s') = ctx_builder (sess_ctx s)
    \<and> sess_schedule s' = sess_schedule s"
proof -
  let ?W = "set_option (get_writer (sess_state s)) \<union> input_writers i"
  have "session_inv ?W (\<lambda>_. True) s s'"
    using assms by (intro step_inv) (auto simp: state_ok_def)
  moreover have "w \<in> input_writers i \<longleftrightarrow> i = EventInput (Connected w)" for w
    by (auto simp: input_writers_def split: task_input.splits session_event.splits)
  ultimately show ?thesis by (fastforce simp: session_inv_def ctx_inv_def effects_ok_def state_ok_def)
qed

text \<open>C8. Reachable states. In every state a session reaches from its creation, a pending resend has been requested
  at least once and at most \<open>MAX_RESEND_ATTEMPTS\<close> times and every message queued behind it has a readable MsgSeqNum; and
  everything ever written went to a writer that a \<open>Connected\<close> event had registered.\<close>

theorem reachable_bounds:
  assumes "Session_new env cfg mb validate sch st now = Ok s0" and "session_run env s0 is s"
  shows "(\<forall>r. sess_state s = AwaitingResend r \<longrightarrow>
        1 \<le> resend_attempts r \<and> resend_attempts r \<le> 3
        \<and> (\<forall>m \<in> set (inbound_queue r). \<exists>n. get_msg_seq_num m = (Ok n :: (u64, unit) outcome)))
    \<and> (\<forall>w x. ToWriter w x \<in> set (ctx_trace (sess_ctx s)) \<longrightarrow> EventInput (Connected w) \<in> set is)
    \<and> ctx_config (sess_ctx s) = cfg \<and> ctx_builder (sess_ctx s) = mb"
proof -
  let ?W = "\<Union> (input_writers ` set is)"
  have new: "sess_state s0 = new_disconnected True ''initialising''" "ctx_trace (sess_ctx s0) = []"
    "ctx_config (sess_ctx s0) = cfg" "ctx_builder (sess_ctx s0) = mb"
    using assms(1) by (auto simp: Session_new_def split: outcome.splits)
  have "session_inv ?W (\<lambda>_. True) s0 s"
    by (rule run_inv [OF assms(2)]) (auto simp: new)
  moreover have "w \<in> ?W \<longleftrightarrow> EventInput (Connected w) \<in> set is" for w
    by (fastforce simp: input_writers_def split: task_input.splits session_event.splits)
  ultimately show ?thesis
    by (auto simp: session_inv_def ctx_inv_def effects_ok_def resend_ok_def MAX_RESEND_ATTEMPTS_def list_all_iff new)
qed

section \<open>Witnesses\<close>

text \<open>A session over the in-memory store with a clock that stands still, an application that accepts everything
  and no schedule.\<close>

definition sample_env :: "(memory_store, unit) session_env" where
  "sample_env = \<lparr>env_store = InMemoryMessageStore,
     env_clock = (\<lambda>_. \<lparr>wall = sample_now, wall_utc = 0, monotonic = 0\<rparr>), env_to_chrono_utc = (\<lambda>_. None),
     env_tz = utc_zone, app_on_inbound_message = (\<lambda>_ _. AcceptInbound), app_on_outbound_message = (\<lambda>_ _. Send)\<rparr>"

definition sample_session :: "session_state \<Rightarrow> (memory_store, unit) session" where
  "sample_session st = \<lparr>sess_ctx = \<lparr>ctx_config = sample_config, ctx_store = mem_default 0, ctx_builder = sample_builder,
       ctx_message_config = default_config, ctx_clock = 0, ctx_trace = []\<rparr>,
     sess_schedule = NonStop, sess_state = st, sess_schedule_check = 1000000000, sess_reset_on_next_logon = False\<rparr>"

lemma sample_session_new:
  "Session_new sample_env sample_config sample_builder True None (mem_default 0) 0
     = Ok (sample_session (new_disconnected True ''initialising''))"
  by (simp add: Session_new_def schedule_try_from_opt_def sample_session_def default_config_def from_secs_def
      SCHEDULE_CHECK_INTERVAL_def)

lemma sample_info_step:
  "session_step sample_env (sample_session st) (AdminInput (RequestSessionInfo 5))
     (snd (handle_input sample_env (AdminInput (RequestSessionInfo 5)) (sample_session st) :: (unit, unit) outcome \<times> _))"
  unfolding session_step_simp
  by (simp add: input_enabled_def handle_input_def handle_admin_request_def comp_simps in_ctx_def emit_def)

theorem step_uses_current_writer_witness:
  "\<exists>es. ctx_trace (sess_ctx (snd (handle_input sample_env (AdminInput (RequestSessionInfo 5))
      (sample_session (AwaitingResend (AwaitingResendState_new 3 1 4))) :: (unit, unit) outcome \<times> _))) = es
    \<and> (\<forall>w x. ToWriter w x \<in> set es \<longrightarrow> w = 3)"
  using step_uses_current_writer [OF sample_info_step, of "AwaitingResend (AwaitingResendState_new 3 1 4)"]
  by (auto simp: sample_session_def get_writer_def)

theorem reachable_bounds_witness:
  "\<exists>s. session_run sample_env (sample_session (new_disconnected True ''initialising'')) [AdminInput (RequestSessionInfo 5)] s
    \<and> ctx_config (sess_ctx s) = sample_config"
proof -
  let ?s0 = "sample_session (new_disconnected True ''initialising'')"
  obtain s where run: "session_run sample_env ?s0 [AdminInput (RequestSessionInfo 5)] s"
    using run_cons [OF sample_info_step run_nil] by blast
  with reachable_bounds [OF sample_session_new run] show ?thesis by blast
qed

end
