(* ===== verification/Session_Behaviour.thy ===== *)
theory Session_Behaviour
  imports Session_Invariants
begin

text \<open>
  What a session does with the messages of its peer and of its application, over any store that keeps the store
  contract and any clock that reports valid times. The locale \<open>session_laws\<close> states what the session relies on and proves how
  sending and verifying act on the context; the properties are read off it.
\<close>

section \<open>What the session relies on\<close>

text \<open>\<open>raw\<close> is \<open>om\<close> written under the number \<open>n\<close> at some time.\<close>

definition generated :: "session_config \<Rightarrow> u64 \<Rightarrow> outbound_message \<Rightarrow> bytes \<Rightarrow> bool" where
  "generated cfg n om raw \<longleftrightarrow>
     (\<exists>now. generate_message now (begin_string cfg) (sender_comp_id cfg) (target_comp_id cfg) n om = (Ok raw :: (bytes, unit) outcome))"

text \<open>The abstract store after \<open>om\<close> was persisted as \<open>raw\<close>.\<close>

definition persisted :: "abs_store \<Rightarrow> bytes \<Rightarrow> abs_store" where
  "persisted a raw = a\<lparr>abs_sender := abs_sender a + 1, abs_messages := (abs_messages a)(abs_sender a + 1 \<mapsto> raw)\<rparr>"

lemma persisted_simps [simp]:
  "abs_sender (persisted a raw) = abs_sender a + 1" "abs_target (persisted a raw) = abs_target a"
  "abs_created (persisted a raw) = abs_created a"
  "abs_messages (persisted a raw) = (abs_messages a)(abs_sender a + 1 \<mapsto> raw)"
  by (simp_all add: persisted_def)

lemma generate_message_cases:
  assumes "generate_message now bs s t n om = (Ok raw :: (bytes, 'e) outcome)"
  shows "generate_message now bs s t n om = (Ok raw :: (bytes, 'f) outcome)"
  using assms by (auto simp: generate_message_def Let_def split: outcome.splits)

locale session_laws = store_spec "env_store env" abs invar "\<lambda>_ _. True"
  for env :: "('s, 'tz) session_env" and abs :: "'s \<Rightarrow> abs_store" and invar :: "'s \<Rightarrow> bool" +
  assumes clock_ok: "\<exists>t. utc_now (wall (env_clock env i)) = Ok t"
begin

lemma prepare_ok:
  assumes "invar (ctx_store c)" and "outbound_laws om"
  obtains raw st where
    "prepare_message env om c = (Ok (abs_sender (abs (ctx_store c)) + 1, raw), c\<lparr>ctx_store := st, ctx_clock := ctx_clock c + 1\<rparr>)"
    "generated (ctx_config c) (abs_sender (abs (ctx_store c)) + 1) om raw"
    "invar st" "abs st = persisted (abs (ctx_store c)) raw"
proof -
  let ?n = "abs_sender (abs (ctx_store c)) + 1" and ?cfg = "ctx_config c"
  obtain t where t: "utc_now (wall (env_clock env (ctx_clock c))) = Ok t" using clock_ok by blast
  obtain raw where raw: "generate_message (wall (env_clock env (ctx_clock c))) (begin_string ?cfg)
      (sender_comp_id ?cfg) (target_comp_id ?cfg) ?n om = (Ok raw :: (bytes, unit) outcome)"
    using outbound_laws.generate_ok [OF assms(2) t] by blast
  then have raw': "generate_message (wall (env_clock env (ctx_clock c))) (begin_string ?cfg)
      (sender_comp_id ?cfg) (target_comp_id ?cfg) ?n om = (Ok raw :: (bytes, internal_send_error) outcome)"
    by (rule generate_message_cases)
  obtain s1 where s1: "increment_sender_seq_number (env_store env) (ctx_store c) = (Ok (), s1)" "invar s1"
      "abs s1 = (abs (ctx_store c))\<lparr>abs_sender := ?n\<rparr>"
    using inc_sender_spec [OF assms(1)] by blast
  obtain s2 where s2: "store_add (env_store env) ?n raw s1 = (Ok (), s2)" "invar s2"
      "abs s2 = (abs s1)\<lparr>abs_messages := (abs_messages (abs s1))(?n \<mapsto> raw)\<rparr>"
    using add_spec [OF s1(2) TrueI] by blast
  have "prepare_message env om c = (Ok (?n, raw), c\<lparr>ctx_store := s2, ctx_clock := ctx_clock c + 1\<rparr>)"
    using raw' s1(1) s2(1) next_sender_spec [OF assms(1)]
    by (simp add: prepare_message_def and_then_def comp_simps read_clock_def with_store_def)
  moreover have "generated ?cfg ?n om raw" using raw by (auto simp: generated_def)
  moreover have "abs s2 = persisted (abs (ctx_store c)) raw" using s1(3) s2(3) by (simp add: persisted_def)
  ultimately show ?thesis using that s2(2) by blast
qed

lemma send_ok:
  assumes "invar (ctx_store c)" and "outbound_laws om"
  obtains raw st where
    "send_message env w om c = (Ok (abs_sender (abs (ctx_store c)) + 1),
       c\<lparr>ctx_store := st, ctx_clock := ctx_clock c + 1, ctx_trace := ctx_trace c @ [ToWriter w (SendMessage raw)]\<rparr>)"
    "generated (ctx_config c) (abs_sender (abs (ctx_store c)) + 1) om raw"
    "invar st" "abs st = persisted (abs (ctx_store c)) raw"
  by (rule prepare_ok [OF assms])
    (simp add: that send_message_def and_then_def comp_simps send_raw_message_def emit_def)

lemma verify_with_ctx:
  assumes "invar (ctx_store c)"
  shows "verify_message_with_ctx env m flags c =
    (verify_message (env_to_chrono_utc env) (wall (env_clock env (ctx_clock c))) m (ctx_config c)
       (if requires_sequence_number flags then Some (abs_target (abs (ctx_store c)) + 1) else None) flags,
     c\<lparr>ctx_clock := ctx_clock c + 1\<rparr>)"
  using next_target_spec [OF assms]
  by (simp add: verify_message_with_ctx_def comp_simps read_clock_def)

lemma inc_target_ok:
  assumes "invar (ctx_store c)"
  obtains st where "with_store (increment_target_seq_number (env_store env)) c = (Ok (), c\<lparr>ctx_store := st\<rparr>)"
    "invar st" "abs st = (abs (ctx_store c))\<lparr>abs_target := abs_target (abs (ctx_store c)) + 1\<rparr>"
  using inc_target_spec [OF assms] by (auto simp: with_store_def)

end

lemma mem_session_laws:
  assumes "env_store env = InMemoryMessageStore" and "\<And>i. \<exists>t. utc_now (wall (env_clock env i)) = Ok t"
  shows "session_laws env mem_abs (\<lambda>_. True)"
  using mem.store_spec_axioms assms by (simp add: session_laws_def session_laws_axioms_def)

interpretation sample: session_laws sample_env mem_abs "\<lambda>_. True"
  by (rule mem_session_laws) (auto simp: sample_env_def sample_now_ok)

section \<open>Evaluation\<close>

lemma in_ctx_eq: "m (sess_ctx s) = (r, c) \<Longrightarrow> in_ctx m s = (r, s\<lparr>sess_ctx := c\<rparr>)"
  by (simp add: in_ctx_def)

lemma bind_eq: "m s = (Ok a, s') \<Longrightarrow> bind_comp m f s = f a s'"
  by (simp add: bind_comp_def)

lemma and_then_eq: "m s = (Ok a, s') \<Longrightarrow> and_then m n s = n s'"
  by (simp add: and_then_def bind_comp_def)

lemma apply_transition_to:
  "as_status (sess_state s) \<noteq> as_status st \<Longrightarrow> apply_transition (TransitionTo st) s =
     (Ok (), s\<lparr>sess_state := st, sess_ctx := (sess_ctx s)
        \<lparr>ctx_trace := ctx_trace (sess_ctx s) @ [OnStateChange (as_status (sess_state s)) (as_status st)]\<rparr>\<rparr>)"
  by (simp add: apply_transition_def and_then_def comp_simps set_state_def in_ctx_def emit_def)

lemma process_active:
  assumes "sess_state s = Active a" and "msg_type_of m = Ok mt" and "for_message m = Ok flags"
  shows "process_message env m s =
    bind_comp (in_ctx (active_handle_verification_issue env a m flags)) (\<lambda>result. case result of
      Issue transition \<Rightarrow> apply_transition transition | Passed \<Rightarrow> dispatch_message env mt m) s"
proof -
  have same: "s\<lparr>sess_state := Active a\<rparr> = s" using assms(1) by (cases s) simp
  show ?thesis
    using assms
    by (simp add: same process_message_def pre_process_inbound_def process_accepted_def handle_verification_issue_def
        and_then_def comp_simps set_state_def)
qed

section \<open>Properties\<close>

text \<open>C9. A gap is answered with one resend request. When an active session gets an authentic message above the expected
  number (of a type that is checked for it), it sends one ResendRequest for the range from the expected number to the
  one received, waits for the resend from then on, tells the application about the new state and nothing
  else, and leaves its target number where it was.\<close>

theorem gap_requests_resend:
  assumes laws: "session_laws env content invar" and inv: "invar (ctx_store (sess_ctx s))" and active: "sess_state s = Active a"
    and mt: "msg_type_of m = Ok mt" and flags: "for_message m = Ok flags" "check_too_high flags"
    and auth: "authentic (env_to_chrono_utc env) (wall (env_clock env (ctx_clock (sess_ctx s)))) m (ctx_config (sess_ctx s)) flags"
    and gap: "e = abs_target (content (ctx_store (sess_ctx s))) + 1" "n = msg_seq_num_or_default m" "e < n"
  shows "\<exists>s' raw. process_message env m s = (Ok (), s')
    \<and> sess_state s' = AwaitingResend (AwaitingResendState_new (act_writer a) e n)
    \<and> generated (ctx_config (sess_ctx s)) (abs_sender (content (ctx_store (sess_ctx s))) + 1) (ResendRequest e n) raw
    \<and> ctx_trace (sess_ctx s') = ctx_trace (sess_ctx s) @
        [ToWriter (act_writer a) (SendMessage raw), OnStateChange StatusActive (StatusAwaitingResend e n 1)]
    \<and> invar (ctx_store (sess_ctx s')) \<and> content (ctx_store (sess_ctx s')) = persisted (content (ctx_store (sess_ctx s))) raw"
proof -
  let ?c = "sess_ctx s" and ?w = "act_writer a"
  let ?c1 = "?c\<lparr>ctx_clock := ctx_clock ?c + 1\<rparr>"
  obtain t where t: "utc_now (wall (env_clock env (ctx_clock ?c))) = Ok t"
    using session_laws.clock_ok [OF laws] by blast
  have "verify_message_with_ctx env m flags ?c = (Err (SequenceGap e n), ?c1)"
    using session_laws.verify_with_ctx [OF laws inv, of m flags] verify_authentic [OF t auth, of "Some e"] gap flags(2)
    by (simp add: requires_sequence_number_def check_sequence_number_def)
  then have verify: "verify_and_handle_errors env ?w m flags ?c =
      (Ok (VerifyGap e n) :: (verification_outcome, session_operation_error) outcome, ?c1)"
    by (simp add: verify_and_handle_errors_def)
  have inv1: "invar (ctx_store ?c1)" using inv by simp
  obtain raw st where send: "send_message env ?w (ResendRequest e n) ?c1 = (Ok (abs_sender (content (ctx_store ?c)) + 1),
       ?c1\<lparr>ctx_store := st, ctx_clock := ctx_clock ?c1 + 1, ctx_trace := ctx_trace ?c @ [ToWriter ?w (SendMessage raw)]\<rparr>)"
    "generated (ctx_config ?c) (abs_sender (content (ctx_store ?c)) + 1) (ResendRequest e n) raw"
    "invar st" "content st = persisted (content (ctx_store ?c)) raw"
    by (rule session_laws.send_ok [OF laws inv1 resend_request.outbound_laws_axioms, of ?w e n]) simp
  have "active_handle_verification_issue env a m flags ?c =
      (Ok (Issue (TransitionTo (AwaitingResend (AwaitingResendState_new ?w e n)))),
       ?c\<lparr>ctx_store := st, ctx_clock := ctx_clock ?c + 2, ctx_trace := ctx_trace ?c @ [ToWriter ?w (SendMessage raw)]\<rparr>)"
    using verify send(1)
    by (simp add: active_handle_verification_issue_def verify_or_request_resend_def with_send_context_def
        and_then_def comp_simps)
  then show ?thesis
    using send(2-4) active
    by (simp add: process_active [OF active mt flags(1)] bind_eq [OF in_ctx_eq] apply_transition_to)
      (simp add: as_status_def AwaitingResendState_new_def apply_transition_to)
qed

lemma sample_inbound_type: "msg_type_of (sample_inbound n) = Ok ''D''"
proof -
  have "str_deserialize ''D'' = Ok ''D''" by code_simp
  then show ?thesis by (simp add: msg_type_of_def part_get_def sample_inbound_def get_raw_msg_set Message_new_def)
qed

lemma sample_inbound_flags:
  "for_message (sample_inbound n) = Ok \<lparr>check_too_high = True, check_too_low = True, check_orig_sending_time = False\<rparr>"
  using sample_inbound_type [of n] by (simp add: for_message_def msg_type_of_def sample_inbound_fields)

definition sample_active :: active_state where
  "sample_active = \<lparr>act_writer = 3, act_heartbeat_deadline = 30, act_peer_deadline = 36, sent_test_request_id = None\<rparr>"

lemma sample_session_simps [simp]:
  "sess_ctx (sample_session st) = \<lparr>ctx_config = sample_config, ctx_store = mem_default 0, ctx_builder = sample_builder,
       ctx_message_config = default_config, ctx_clock = 0, ctx_trace = []\<rparr>"
  "sess_state (sample_session st) = st"
  "mem_abs (mem_default 0) = \<lparr>abs_sender = 0, abs_target = 0, abs_created = 0, abs_messages = Map.empty\<rparr>"
  by (simp_all add: sample_session_def mem_abs_def mem_default_def)

lemma sample_authentic:
  "\<not> check_orig_sending_time flags \<Longrightarrow>
   authentic (env_to_chrono_utc sample_env) (wall (env_clock sample_env i)) (sample_inbound n) sample_config flags"
  using sample_inbound_authentic by (simp add: sample_env_def)

theorem gap_requests_resend_witness:
  "\<exists>s' raw. process_message sample_env (sample_inbound 7) (sample_session (Active sample_active)) = (Ok (), s')
    \<and> sess_state s' = AwaitingResend (AwaitingResendState_new 3 1 7)
    \<and> ctx_trace (sess_ctx s') = [ToWriter 3 (SendMessage raw), OnStateChange StatusActive (StatusAwaitingResend 1 7 1)]"
proof -
  let ?s = "sample_session (Active sample_active)"
  have auth: "authentic (env_to_chrono_utc sample_env) (wall (env_clock sample_env (ctx_clock (sess_ctx ?s))))
      (sample_inbound 7) (ctx_config (sess_ctx ?s))
      \<lparr>check_too_high = True, check_too_low = True, check_orig_sending_time = False\<rparr>"
    by (simp add: sample_authentic)
  have gap: "1 = abs_target (mem_abs (ctx_store (sess_ctx ?s))) + 1" "7 = msg_seq_num_or_default (sample_inbound 7)" "(1::u64) < 7"
    by (simp_all add: sample_inbound_fields)
  from gap_requests_resend [OF sample.session_laws_axioms TrueI sample_session_simps(2) sample_inbound_type sample_inbound_flags
      _ auth gap]
  show ?thesis by (auto simp: sample_active_def)
qed

lemma verified_passes:
  assumes laws: "session_laws env content invar" and inv: "invar (ctx_store c)"
    and auth: "authentic (env_to_chrono_utc env) (wall (env_clock env (ctx_clock c))) m (ctx_config c) flags"
    and num: "check_sequence_number (msg_seq_num_or_default m) (abs_target (content (ctx_store c)) + 1) (poss_dup m)
      (check_too_high flags) (check_too_low flags) = Ok ()"
  shows "active_handle_verification_issue env a m flags c = (Ok Passed, c\<lparr>ctx_clock := ctx_clock c + 1\<rparr>)"
proof -
  obtain t where t: "utc_now (wall (env_clock env (ctx_clock c))) = Ok t"
    using session_laws.clock_ok [OF laws] by blast
  have "verify_message_with_ctx env m flags c = (Ok (), c\<lparr>ctx_clock := ctx_clock c + 1\<rparr>)"
    using session_laws.verify_with_ctx [OF laws inv, of m flags] verify_authentic [OF t auth] num
    by (simp split: option.split)
  then show ?thesis
    by (simp add: active_handle_verification_issue_def verify_or_request_resend_def verify_and_handle_errors_def comp_simps)
qed

text \<open>What an active session does with a message that passes.\<close>

lemma process_active_passed:
  assumes "session_laws env content invar" and "invar (ctx_store (sess_ctx s))" and "sess_state s = Active a"
    and "msg_type_of m = Ok mt" and "for_message m = Ok flags"
    and "authentic (env_to_chrono_utc env) (wall (env_clock env (ctx_clock (sess_ctx s)))) m (ctx_config (sess_ctx s)) flags"
    and "check_sequence_number (msg_seq_num_or_default m) (abs_target (content (ctx_store (sess_ctx s))) + 1) (poss_dup m)
      (check_too_high flags) (check_too_low flags) = Ok ()"
  shows "process_message env m s = dispatch_message env mt m
    (s\<lparr>sess_ctx := (sess_ctx s)\<lparr>ctx_clock := ctx_clock (sess_ctx s) + 1\<rparr>\<rparr>)"
  using verified_passes [OF assms(1,2,6,7), of a]
  by (simp add: process_active [OF assms(3-5)] bind_eq [OF in_ctx_eq])

lemma in_order_aux:
  assumes laws: "session_laws env content invar" and inv: "invar (ctx_store (sess_ctx s))" and active: "sess_state s = Active a"
    and mt: "msg_type_of m = Ok mt" "\<not> is_admin mt" and flags: "for_message m = Ok flags"
    and auth: "authentic (env_to_chrono_utc env) (wall (env_clock env (ctx_clock (sess_ctx s)))) m (ctx_config (sess_ctx s)) flags"
    and n: "msg_seq_num_or_default m = content_target + 1" "content_target = abs_target (content (ctx_store (sess_ctx s)))"
    and app: "app_on_inbound_message env (ctx_trace (sess_ctx s)) m = AcceptInbound"
  shows "\<exists>s'. process_message env m s = (Ok (), s') \<and> sess_state s' = Active a
    \<and> ctx_trace (sess_ctx s') = ctx_trace (sess_ctx s) @ [OnInboundMessage m] \<and> invar (ctx_store (sess_ctx s'))
    \<and> content (ctx_store (sess_ctx s')) = (content (ctx_store (sess_ctx s)))\<lparr>abs_target := content_target + 1\<rparr>"
proof -
  let ?c = "sess_ctx s"
  let ?c1 = "?c\<lparr>ctx_clock := ctx_clock ?c + 1\<rparr>"
  let ?c2 = "?c1\<lparr>ctx_trace := ctx_trace ?c @ [OnInboundMessage m]\<rparr>"
  have run: "process_message env m s = process_app_message env m (s\<lparr>sess_ctx := ?c1\<rparr>)"
    using process_active_passed [OF laws inv active mt(1) flags auth] mt(2) n
    by (simp add: check_sequence_number_def dispatch_message_def is_admin_def ADMIN_TYPES_def)
  have inv2: "invar (ctx_store ?c2)" using inv by simp
  obtain st where st: "with_store (increment_target_seq_number (env_store env)) ?c2 = (Ok (), ?c2\<lparr>ctx_store := st\<rparr>)"
    "invar st" "content st = (content (ctx_store ?c))\<lparr>abs_target := content_target + 1\<rparr>"
    by (rule session_laws.inc_target_ok [OF laws inv2]) (simp add: n(2))
  have "increment_target env (s\<lparr>sess_ctx := ?c2\<rparr>) = (Ok (), s\<lparr>sess_ctx := ?c2\<lparr>ctx_store := st\<rparr>\<rparr>)"
    using st(1) by (simp add: increment_target_def in_ctx_def map_err_def)
  then have "process_message env m s = (Ok (), s\<lparr>sess_ctx := ?c2\<lparr>ctx_store := st\<rparr>\<rparr>)"
    using app by (simp add: run process_app_message_def and_then_def bind_comp_def gets_def ret_def in_ctx_def emit_def modify_def)
  then show ?thesis using st active by simp
qed


lemma sample_in_order:
  fixes n :: u64
  defines "s \<equiv> sample_session (Active sample_active)"
  shows "\<not> is_admin ''D''"
    "authentic (env_to_chrono_utc sample_env) (wall (env_clock sample_env (ctx_clock (sess_ctx s)))) (sample_inbound n)
      (ctx_config (sess_ctx s)) \<lparr>check_too_high = True, check_too_low = True, check_orig_sending_time = False\<rparr>"
    "msg_seq_num_or_default (sample_inbound 1) = 0 + 1" "0 = abs_target (mem_abs (ctx_store (sess_ctx s)))"
    "app_on_inbound_message sample_env (ctx_trace (sess_ctx s)) (sample_inbound n) = AcceptInbound"
  by (simp_all add: s_def sample_authentic sample_inbound_fields is_admin_def ADMIN_TYPES_def) (simp add: sample_env_def)


lemma in_order_sample:
  "\<exists>s'. process_message sample_env (sample_inbound 1) (sample_session (Active sample_active)) = (Ok (), s')
    \<and> ctx_trace (sess_ctx s') = [OnInboundMessage (sample_inbound 1)]"
  using in_order_aux [OF sample.session_laws_axioms TrueI sample_session_simps(2) sample_inbound_type
      sample_in_order(1) sample_inbound_flags sample_in_order(2-5)]
  by auto

text \<open>While the session is connected, a message passes verification only by \<open>verify_message\<close> accepting it against the
  number the store expects.\<close>

lemma verify_and_handle_ok:
  "verify_and_handle_errors env w m flags c = (Ok VerifyOk, c') \<Longrightarrow> \<exists>c1. verify_message_with_ctx env m flags c = (Ok (), c1)"
  by (auto simp: verify_and_handle_errors_def comp_simps split: prod.splits outcome.splits verification_issue.splits)

lemma in_ctx_Ok: "in_ctx m s = (Ok a, s') \<Longrightarrow> \<exists>c. m (sess_ctx s) = (Ok a, c)"
  by (auto simp: in_ctx_def split: prod.splits)

lemma passed_outcome:
  assumes "bind_comp m (\<lambda>outcome. case outcome of VerifyOk \<Rightarrow> ret Passed | Handled t \<Rightarrow> ret (Issue t) | VerifyGap e n \<Rightarrow> f e n) c
      = (Ok Passed, c')"
    and "\<And>e n c c'. f e n c \<noteq> (Ok Passed, c')"
  shows "\<exists>c1. m c = (Ok VerifyOk, c1)"
proof -
  obtain x c1 where "m c = (Ok x, c1)"
    "(case x of VerifyOk \<Rightarrow> ret Passed | Handled t \<Rightarrow> ret (Issue t) | VerifyGap e n \<Rightarrow> f e n) c1 = (Ok Passed, c')"
    using assms(1) by (auto simp: bind_comp_Ok)
  with assms(2) show ?thesis by (cases x) (auto simp: ret_def)
qed

lemma verify_or_request_passed:
  assumes "verify_or_request_resend env w m flags c = (Ok Passed, c')"
  shows "\<exists>c1. verify_message_with_ctx env m flags c = (Ok (), c1)"
proof -
  have "\<exists>c1. verify_and_handle_errors env w m flags c = ((Ok VerifyOk :: (verification_outcome, session_operation_error) outcome), c1)"
    using assms unfolding verify_or_request_resend_def
    by (rule passed_outcome) (auto simp: and_then_def comp_simps split: prod.splits outcome.splits)
  then show ?thesis by (auto dest: verify_and_handle_ok)
qed

lemma passed_is_verified:
  assumes "handle_verification_issue env m flags s = (Ok Passed, s')" and "is_connected (sess_state s)"
  shows "\<exists>c. verify_message_with_ctx env m flags (sess_ctx s) = (Ok (), c)"
proof (cases "sess_state s")
  case (AwaitingResend r)
  with assms(1) have "awaiting_resend_handle_verification_issue env r m flags s = (Ok Passed, s')"
    by (simp add: handle_verification_issue_def gets_def bind_comp_def)
  then have "\<exists>s1. in_ctx (verify_and_handle_errors env (resend_writer r) m flags) s
      = ((Ok VerifyOk :: (verification_outcome, session_operation_error) outcome), s1)"
    unfolding awaiting_resend_handle_verification_issue_def
    by (rule passed_outcome) (auto simp: and_then_def comp_simps split: prod.splits awaiting_resend_outcome.splits outcome.splits)
  then show ?thesis by (auto dest!: in_ctx_Ok verify_and_handle_ok)
next
  case (AwaitingLogon l)
  with assms(1) obtain c where "verify_or_request_resend env (logon_writer l) m flags (sess_ctx s) = (Ok Passed, c)"
    by (auto simp: handle_verification_issue_def awaiting_logon_handle_verification_issue_def gets_def bind_comp_def dest!: in_ctx_Ok)
  then show ?thesis by (rule verify_or_request_passed)
next
  case (Active a)
  with assms(1) obtain c where "verify_or_request_resend env (act_writer a) m flags (sess_ctx s) = (Ok Passed, c)"
    by (auto simp: handle_verification_issue_def active_handle_verification_issue_def gets_def bind_comp_def dest!: in_ctx_Ok)
  then show ?thesis by (rule verify_or_request_passed)
next
  case (AwaitingLogout l)
  with assms(1) obtain c where "awaiting_logout_handle_verification_issue env l m flags (sess_ctx s) = (Ok Passed, c)"
    by (auto simp: handle_verification_issue_def gets_def bind_comp_def dest!: in_ctx_Ok)
  then have "\<exists>c1. verify_and_handle_errors env (logout_writer l) m flags (sess_ctx s)
      = ((Ok VerifyOk :: (verification_outcome, session_operation_error) outcome), c1)"
    unfolding awaiting_logout_handle_verification_issue_def
    by (rule passed_outcome) (auto simp: ret_def)
  then show ?thesis by (auto dest: verify_and_handle_ok)
next
  case (Disconnected d)
  with assms(2) show ?thesis by (simp add: is_connected_def get_writer_def)
qed

lemma ensures_dispatch_admin: "is_admin mt \<Longrightarrow> keeps (session_inv W D s0) (dispatch_message env mt m)"
  unfolding dispatch_message_def is_admin_def ADMIN_TYPES_def by (auto intro!: ensures_intros)

text \<open>\<open>quiet s s'\<close>: from \<open>s\<close> to \<open>s'\<close> no message was handed to the application.\<close>

abbreviation quiet :: "('s, 'tz) session \<Rightarrow> ('s, 'tz) session \<Rightarrow> bool" where
  "quiet s s' \<equiv> session_inv UNIV (\<lambda>_. False) s s'"

lemma quiet_steps:
  "ensures (quiet s0) m Q \<Longrightarrow> quiet s0 s \<Longrightarrow> m s = (r, s') \<Longrightarrow> quiet s0 s'"
  by (rule ensuresD)

lemma accepted_loud:
  assumes run: "process_accepted env m s = (r, s')" and ok: "state_ok UNIV (sess_state s)" and loud: "\<not> quiet s s'"
  shows "\<exists>mt flags s1. msg_type_of m = Ok mt \<and> \<not> is_admin mt \<and> for_message m = Ok flags
    \<and> handle_verification_issue env m flags s = (Ok Passed, s1)"
proof -
  have here: "quiet s s" using ok by (rule session_inv_refl)
  obtain mt flags where mt: "msg_type_of m = Ok mt" and flags: "for_message m = Ok flags"
    using run loud here
    by (auto simp: process_accepted_def comp_simps for_message_def msg_type_of_def split: outcome.splits)
  obtain v s1 where v: "handle_verification_issue env m flags s = (v, s1)" by fastforce
  have quiet1: "quiet s s1" by (rule quiet_steps [OF history.kept_verification_issue here v])
  have rest: "(case v of Ok result \<Rightarrow> (case result of Issue t \<Rightarrow> apply_transition t | Passed \<Rightarrow> dispatch_message env mt m) s1
      | Err e \<Rightarrow> (Err e, s1) | Panic \<Rightarrow> (Panic, s1)) = (r, s')"
    using run mt flags v by (simp add: process_accepted_def comp_simps split: outcome.splits)
  have passed: "v = Ok Passed"
  proof (rule ccontr)
    assume not: "v \<noteq> Ok Passed"
    show False
    proof (cases v)
      case (Ok result)
      with not obtain t where t: "result = Issue t" by (cases result) auto
      have "result_ok UNIV result" using history.kept_verification_issue [of UNIV "\<lambda>_. False" "sess_ctx s" "sess_schedule s" env m flags] here v Ok
        by (auto simp: ensures_def)
      then have "keeps (quiet s) (apply_transition t)" using t by (simp add: history.kept_apply_transition)
      with rest Ok t loud quiet1 quiet_steps show False by fastforce
    qed (use rest loud quiet1 in auto)
  qed
  moreover have "\<not> is_admin mt"
    using ensures_dispatch_admin [of mt UNIV "\<lambda>_. False" s env m] rest passed loud quiet1 quiet_steps by fastforce
  ultimately show ?thesis using mt flags v by blast
qed

text \<open>C3. The application sees only what is next. While the session is connected, a message handed to the application is the
  message being processed, it passed authentication, and it carries exactly the number the store expects; nothing is
  delivered from a gap, twice or out of order, in any state and whatever the application and the clock do.\<close>

theorem delivered_only_in_sequence:
  assumes laws: "session_laws env content invar" and inv: "invar (ctx_store (sess_ctx s))"
    and connected: "is_connected (sess_state s)" and ok: "\<forall>r. sess_state s = AwaitingResend r \<longrightarrow> resend_ok r"
    and run: "process_message env m s = (r, s')"
    and delivered: "ctx_trace (sess_ctx s') = ctx_trace (sess_ctx s) @ es" "OnInboundMessage m' \<in> set es"
  shows "m' = m \<and> msg_seq_num_or_default m = abs_target (content (ctx_store (sess_ctx s))) + 1
    \<and> (\<exists>flags. for_message m = Ok flags
         \<and> authentic (env_to_chrono_utc env) (wall (env_clock env (ctx_clock (sess_ctx s)))) m (ctx_config (sess_ctx s)) flags)"
proof -
  have st: "state_ok UNIV (sess_state s)" using ok by (simp add: state_ok_def)
  have "session_inv UNIV (\<lambda>x. x = m) s s'"
    by (rule ensuresD [OF history.kept_process_message session_inv_refl [OF st] run]) (simp add: history_allowed_def)
  then have same: "m' = m" using delivered by (auto simp: session_inv_def ctx_inv_def effects_ok_def)
  have loud: "\<not> quiet s s'" using delivered by (auto simp: session_inv_def ctx_inv_def effects_ok_def)
  have here: "quiet s s" using st by (rule session_inv_refl)
  obtain d st' where pre: "pre_process_inbound m (sess_state s) = (Ok (d, st') :: (_, session_operation_error) outcome)"
    using run loud here by (auto simp: process_message_def comp_simps split: outcome.splits)
  define s1 where "s1 = s\<lparr>sess_state := st'\<rparr>"
  have ok1: "state_ok UNIV st'" and d: "\<forall>m'. d = Accept m' \<longrightarrow> m' = m" using pre_process_ok [OF st pre] by auto
  have quiet1: "quiet s s1" using here ok1 by (simp add: session_inv_def s1_def)
  have rest: "(case d of Queued \<Rightarrow> ret () | DisconnectWriter \<Rightarrow> disconnect_writer | Accept m \<Rightarrow> process_accepted env m) s1 = (r, s')"
    using run pre by (simp add: process_message_def comp_simps and_then_def set_state_def s1_def)
  have "d = Accept m"
  proof (cases d)
    case DisconnectWriter
    have "keeps (quiet s) (disconnect_writer :: ('a, 'b, unit, session_operation_error) session_comp)" by (rule ensures_intros)
    with DisconnectWriter rest loud quiet1 show ?thesis by (fastforce dest: quiet_steps)
  qed (use rest loud quiet1 d in \<open>auto simp: ret_def\<close>)
  then have acc: "process_accepted env m s1 = (r, s')" using rest by simp
  have "\<not> quiet s1 s'" using loud quiet1 session_inv_trans by blast
  from accepted_loud [OF acc _ this] ok1 obtain mt flags s2 where
    mt: "msg_type_of m = Ok mt" "\<not> is_admin mt" "for_message m = Ok flags"
    and v: "handle_verification_issue env m flags s1 = (Ok Passed, s2)"
    by (auto simp: s1_def)
  have "is_connected st'"
    using pre connected
    by (auto simp: pre_process_inbound_def is_connected_def get_writer_def resend_pre_process_inbound_def Let_def
        split: session_state.splits outcome.splits if_splits)
  with passed_is_verified [OF v] obtain c where "verify_message_with_ctx env m flags (sess_ctx s) = (Ok (), c)"
    by (auto simp: s1_def)
  moreover have high: "check_too_high flags" "check_too_low flags"
    using mt by (auto simp: for_message_def msg_type_of_def is_admin_def ADMIN_TYPES_def Let_def)
  ultimately have ver: "verify_message (env_to_chrono_utc env) (wall (env_clock env (ctx_clock (sess_ctx s)))) m (ctx_config (sess_ctx s))
      (Some (abs_target (content (ctx_store (sess_ctx s))) + 1)) flags = Ok ()"
    using session_laws.verify_with_ctx [OF laws inv, of m flags] by (simp add: requires_sequence_number_def)
  obtain t where t: "utc_now (wall (env_clock env (ctx_clock (sess_ctx s)))) = Ok t"
    using session_laws.clock_ok [OF laws] by blast
  have auth: "authentic (env_to_chrono_utc env) (wall (env_clock env (ctx_clock (sess_ctx s)))) m (ctx_config (sess_ctx s)) flags"
    using verify_not_authentic [OF t] ver by (metis outcome.distinct(1))
  then show ?thesis
    using same mt(3) ver verify_authentic [OF t auth] high by (auto simp: check_sequence_number_def split: if_splits)
qed

theorem delivered_only_in_sequence_witness:
  "\<exists>s'. process_message sample_env (sample_inbound 1) (sample_session (Active sample_active)) = (Ok (), s')
    \<and> msg_seq_num_or_default (sample_inbound 1) = abs_target (mem_abs (mem_default 0)) + 1"
proof -
  let ?s = "sample_session (Active sample_active)"
  obtain s' where run: "process_message sample_env (sample_inbound 1) ?s = (Ok (), s')"
      "ctx_trace (sess_ctx s') = [OnInboundMessage (sample_inbound 1)]"
    using in_order_sample by blast
  have "is_connected (sess_state ?s)" by (simp add: is_connected_def get_writer_def)
  from delivered_only_in_sequence [OF sample.session_laws_axioms TrueI this _ run(1), where es = "[OnInboundMessage (sample_inbound 1)]"]
    run show ?thesis by auto
qed

text \<open>After a disconnect nothing is verified. A message that is still in the channel when the session has gone to
  \<open>Disconnected\<close> skips every check: whatever its comp IDs, times and number, an application message is handed to the
  application and moves the target number on.\<close>

theorem disconnected_delivers_unverified:
  assumes laws: "session_laws env content invar" and inv: "invar (ctx_store (sess_ctx s))"
    and st: "sess_state s = Disconnected d" and mt: "msg_type_of m = Ok mt" "\<not> is_admin mt"
    and app: "app_on_inbound_message env (ctx_trace (sess_ctx s)) m = AcceptInbound"
  shows "\<exists>s'. process_message env m s = (Ok (), s')
    \<and> ctx_trace (sess_ctx s') = ctx_trace (sess_ctx s) @ [OnInboundMessage m]
    \<and> abs_target (content (ctx_store (sess_ctx s'))) = abs_target (content (ctx_store (sess_ctx s))) + 1"
proof -
  let ?c = "(sess_ctx s)\<lparr>ctx_trace := ctx_trace (sess_ctx s) @ [OnInboundMessage m]\<rparr>"
  have same: "s\<lparr>sess_state := Disconnected d\<rparr> = s" using st by (cases s) simp
  obtain flags where "for_message m = Ok flags" using mt(1) by (auto simp: for_message_def msg_type_of_def Let_def)
  then have run: "process_message env m s = process_app_message env m s"
    using st mt
    by (simp add: process_message_def pre_process_inbound_def process_accepted_def handle_verification_issue_def
        and_then_def comp_simps set_state_def same dispatch_message_def is_admin_def ADMIN_TYPES_def)
  have "invar (ctx_store ?c)" using inv by simp
  from session_laws.inc_target_ok [OF laws this] obtain x where
    x: "with_store (increment_target_seq_number (env_store env)) ?c = (Ok (), ?c\<lparr>ctx_store := x\<rparr>)"
      "content x = (content (ctx_store ?c))\<lparr>abs_target := abs_target (content (ctx_store ?c)) + 1\<rparr>"
    by metis
  have "increment_target env (s\<lparr>sess_ctx := ?c\<rparr>) = (Ok (), s\<lparr>sess_ctx := ?c\<lparr>ctx_store := x\<rparr>\<rparr>)"
    using x(1) by (simp add: increment_target_def in_ctx_def map_err_def)
  then have "process_message env m s = (Ok (), s\<lparr>sess_ctx := ?c\<lparr>ctx_store := x\<rparr>\<rparr>)"
    using app by (simp add: run process_app_message_def and_then_def bind_comp_def gets_def ret_def in_ctx_def emit_def modify_def)
  then show ?thesis using x(2) by simp
qed

theorem disconnected_delivers_unverified_witness:
  "\<exists>s'. process_message sample_env (sample_inbound 7) (sample_session (new_disconnected False ''sequence number too low'')) = (Ok (), s')
    \<and> ctx_trace (sess_ctx s') = [OnInboundMessage (sample_inbound 7)]"
proof -
  let ?s = "sample_session (new_disconnected False ''sequence number too low'')"
  have st: "sess_state ?s = Disconnected \<lparr>reconnect = False, schedule_awaiter = None, disconnect_reason = ''sequence number too low''\<rparr>"
    by (simp add: new_disconnected_def)
  have app: "app_on_inbound_message sample_env (ctx_trace (sess_ctx ?s)) (sample_inbound 7) = AcceptInbound"
    by (simp add: sample_env_def)
  from disconnected_delivers_unverified [OF sample.session_laws_axioms TrueI st sample_inbound_type sample_in_order(1) app]
  show ?thesis by auto
qed

end
