(* ===== verification/Session_Recovery.thy ===== *)
theory Session_Recovery
  imports Session_Behaviour
begin

text \<open>
  How a session keeps its numbers in step with its peer: messages below the expected number, SequenceReset, and the
  answer to a ResendRequest, which is compared with a plan that says what to replay and what to skip. The last part shows
  inbound messages that end the session task.
\<close>

section \<open>Numbers that are too low\<close>



section \<open>SequenceReset\<close>

text \<open>C4. A SequenceReset moves forward or not at all. With a readable MsgSeqNum the handler always returns; a NewSeqNo above
  the expected number becomes the expected number, and nothing is sent; any other NewSeqNo, or none, is answered with
  one Reject that names the message and leaves the target number where it was.\<close>

theorem sequence_reset_forward:
  assumes laws: "session_laws env content invar" and inv: "invar (ctx_store c)"
    and k: "get_msg_seq_num m = (Ok k :: (u64, session_operation_error) outcome)"
  shows "\<exists>c'. inbound_on_sequence_reset env w m c = (Ok (), c') \<and> invar (ctx_store c') \<and>
    (case msg_get u64_deserialize NEW_SEQ_NO m of
       Ok n \<Rightarrow>
         if abs_target (content (ctx_store c)) + 1 < n
         then next_target_seq_number (env_store env) (ctx_store c') = n \<and> ctx_trace c' = ctx_trace c
           \<and> content (ctx_store c') = (content (ctx_store c))\<lparr>abs_target := n - 1\<rparr>
         else \<exists>raw rj. rej_ref_seq_num rj = k \<and> rej_session_reject_reason rj = Some ValueIsIncorrect
           \<and> generated (ctx_config c) (abs_sender (content (ctx_store c)) + 1) (Reject rj) raw
           \<and> ctx_trace c' = ctx_trace c @ [ToWriter w (SendMessage raw)]
           \<and> content (ctx_store c') = persisted (content (ctx_store c)) raw
     | _ \<Rightarrow> \<exists>raw rj. rej_ref_seq_num rj = k \<and> rej_session_reject_reason rj = Some RequiredTagMissing
           \<and> generated (ctx_config c) (abs_sender (content (ctx_store c)) + 1) (Reject rj) raw
           \<and> ctx_trace c' = ctx_trace c @ [ToWriter w (SendMessage raw)]
           \<and> content (ctx_store c') = persisted (content (ctx_store c)) raw)"
proof -
  have reject: "\<exists>c' raw. and_then (with_send_context x (send_message env w (Reject (with_reason r t (Reject_new k))))) (ret ()) c
      = (Ok (), c') \<and> invar (ctx_store c')
      \<and> generated (ctx_config c) (abs_sender (content (ctx_store c)) + 1) (Reject (with_reason r t (Reject_new k))) raw
      \<and> ctx_trace c' = ctx_trace c @ [ToWriter w (SendMessage raw)]
      \<and> content (ctx_store c') = persisted (content (ctx_store c)) raw" for x r t
    by (rule session_laws.send_ok [OF laws inv reject.outbound_laws_axioms, of w "with_reason r t (Reject_new k)"])
      (auto simp: and_then_def comp_simps with_send_context_def)
  have rej: "rej_ref_seq_num (with_reason r t (Reject_new k)) = k"
    "rej_session_reject_reason (with_reason r t (Reject_new k)) = Some r" for r t
    by (simp_all add: with_reason_def Reject_new_def)
  show ?thesis
  proof (cases "msg_get u64_deserialize NEW_SEQ_NO m")
    case (Ok n)
    show ?thesis
    proof (cases "abs_target (content (ctx_store c)) + 1 < n")
      case True
      obtain st where st: "set_target_seq_number (env_store env) (n - 1) (ctx_store c) = (Ok (), st)" "invar st"
        "content st = (content (ctx_store c))\<lparr>abs_target := n - 1\<rparr>"
        using store_spec.set_target_spec [OF session_laws.axioms(1) [OF laws] inv] by blast
      then have "inbound_on_sequence_reset env w m c = (Ok (), c\<lparr>ctx_store := st\<rparr>)"
        using k Ok True [unfolded not_le [symmetric]] store_spec.next_target_spec [OF session_laws.axioms(1) [OF laws] inv]
        by (auto simp: inbound_on_sequence_reset_def comp_simps with_store_def simp del: session_fields)
      with st True Ok store_spec.next_target_spec [OF session_laws.axioms(1) [OF laws] st(2)] show ?thesis by simp
    next
      case False
      then have "inbound_on_sequence_reset env w m c =
          and_then (with_send_context ''reject for invalid sequence reset'' (send_message env w (Reject (with_reason ValueIsIncorrect
            (''attempt to lower sequence number, invalid value NewSeqNo(36)='' @ show_u64 n) (Reject_new k))))) (ret ()) c"
        using k Ok store_spec.next_target_spec [OF session_laws.axioms(1) [OF laws] inv]
        by (simp add: inbound_on_sequence_reset_def comp_simps not_less del: session_fields)
      with reject [of "''reject for invalid sequence reset''"] rej Ok False show ?thesis by (simp del: session_fields) metis
    qed
  next
    case (Err x)
    then have "inbound_on_sequence_reset env w m c =
        and_then (with_send_context ''reject for missing NEW_SEQ_NO'' (send_message env w (Reject (with_reason RequiredTagMissing
          ''missing NewSeqNo tag in sequence reset message'' (Reject_new k))))) (ret ()) c"
      using k by (simp add: inbound_on_sequence_reset_def comp_simps del: session_fields)
    with reject [of "''reject for missing NEW_SEQ_NO''"] rej Err show ?thesis by (simp del: session_fields) metis
  next
    case Panic
    then have "inbound_on_sequence_reset env w m c =
        and_then (with_send_context ''reject for missing NEW_SEQ_NO'' (send_message env w (Reject (with_reason RequiredTagMissing
          ''missing NewSeqNo tag in sequence reset message'' (Reject_new k))))) (ret ()) c"
      using k by (simp add: inbound_on_sequence_reset_def comp_simps del: session_fields)
    with reject [of "''reject for missing NEW_SEQ_NO''"] rej Panic show ?thesis by (simp del: session_fields) metis
  qed
qed

lemma sample_seq_num: "part_get u64_deserialize MSG_SEQ_NUM (header (sample_inbound n)) = Ok n"
  by (simp add: part_get_def sample_inbound_def get_raw_msg_set u64_field.roundtrip)

theorem sequence_reset_forward_witness:
  "\<exists>c'. inbound_on_sequence_reset sample_env 3 (msg_set NEW_SEQ_NO (u64_serialize 9) (sample_inbound 1))
      (sess_ctx (sample_session (Active sample_active))) = (Ok (), c')
    \<and> next_target_seq_number InMemoryMessageStore (ctx_store c') = 9"
proof -
  let ?m = "msg_set NEW_SEQ_NO (u64_serialize 9) (sample_inbound 1)"
  have k: "get_msg_seq_num ?m = Ok 1"
    using sample_seq_num [of 1] by (simp add: get_msg_seq_num_def)
  have "msg_get u64_deserialize NEW_SEQ_NO ?m = Ok 9"
    by (simp add: msg_get_def part_get_def get_raw_msg_set u64_field.roundtrip)
  with sequence_reset_forward [OF sample.session_laws_axioms TrueI k, where w = 3 and c = "sess_ctx (sample_session (Active sample_active))"]
  show ?thesis by (auto simp: sample_env_def)
qed

section \<open>Answering a ResendRequest\<close>

text \<open>
  The plan of a resend: application messages are replayed one by one, each run of administrative messages before one is skipped
  by a gap fill up to that message, and a run at the end by a gap fill up to its own last number.
\<close>

datatype resend_item = GapFill u64 u64 | Replay u64 message

fun resend_plan :: "(u64 \<times> bytes \<times> message) list \<Rightarrow> u64 option \<Rightarrow> u64 \<Rightarrow> resend_item list" where
  "resend_plan [] start n = (case start of None \<Rightarrow> [] | Some b \<Rightarrow> [GapFill b n])"
| "resend_plan ((n, mt, m) # ms) start _ =
     (if is_admin mt then resend_plan ms (case start of None \<Rightarrow> Some n | Some b \<Rightarrow> Some b) n
      else (case start of None \<Rightarrow> [] | Some b \<Rightarrow> [GapFill b n]) @ Replay n m # resend_plan ms None n)"

text \<open>A stored message and what the builder reads from it.\<close>

definition readable :: "message_builder \<Rightarrow> bytes \<Rightarrow> u64 \<times> bytes \<times> message \<Rightarrow> bool" where
  "readable mb raw x \<longleftrightarrow> (case x of (n, mt, m) \<Rightarrow>
     (\<exists>p. build_message mb raw = (Ok p :: (parsed_message, session_operation_error) outcome) \<and> into_message p = Some m)
     \<and> get_msg_seq_num m = (Ok n :: (u64, session_operation_error) outcome) \<and> msg_type_of m = Ok mt)"

definition written :: "session_config \<Rightarrow> msg_config \<Rightarrow> resend_item \<Rightarrow> bytes \<Rightarrow> bool" where
  "written cfg mc item raw \<longleftrightarrow> (case item of
      GapFill b e \<Rightarrow> generated cfg b (SequenceReset True e) raw
    | Replay _ m \<Rightarrow> \<exists>now r m'. prepare_message_for_resend now m = (r, m') \<and> r \<noteq> Panic \<and> raw = fst (encode mc m'))"

text \<open>What a run of the loop changes: the clock moves on and \<open>outs\<close> is handed to the writer.\<close>

definition wrote :: "writer_ref \<Rightarrow> bytes list \<Rightarrow> 's session_ctx \<Rightarrow> 's session_ctx \<Rightarrow> bool" where
  "wrote w outs c c' \<longleftrightarrow>
     (\<exists>k. c' = c\<lparr>ctx_clock := k, ctx_trace := ctx_trace c @ map (\<lambda>r. ToWriter w (SendMessage r)) outs\<rparr>)"

lemma wrote_nil: "wrote w [] c c"
  by (auto simp: wrote_def intro!: exI [of _ "ctx_clock c"])

lemma wrote_one: "wrote w [r] c (c\<lparr>ctx_clock := k, ctx_trace := ctx_trace c @ [ToWriter w (SendMessage r)]\<rparr>)"
  by (auto simp: wrote_def)

lemma wrote_append: "wrote w xs c c1 \<Longrightarrow> wrote w ys c1 c2 \<Longrightarrow> wrote w (xs @ ys) c c2"
  by (auto simp: wrote_def)

lemma wrote_keeps:
  assumes "wrote w outs c c'"
  shows "ctx_config c' = ctx_config c" "ctx_message_config c' = ctx_message_config c" "ctx_builder c' = ctx_builder c"
    "ctx_store c' = ctx_store c"
  using assms by (auto simp: wrote_def)

context session_laws
begin

lemma sequence_reset_ok:
  obtains raw where "send_sequence_reset env w b e c =
      (Ok (), c\<lparr>ctx_clock := ctx_clock c + 1, ctx_trace := ctx_trace c @ [ToWriter w (SendMessage raw)]\<rparr>)"
    "generated (ctx_config c) b (SequenceReset True e) raw"
proof -
  let ?cfg = "ctx_config c"
  obtain t where t: "utc_now (wall (env_clock env (ctx_clock c))) = Ok t" using clock_ok by blast
  obtain raw where raw: "generate_message (wall (env_clock env (ctx_clock c))) (begin_string ?cfg) (sender_comp_id ?cfg)
      (target_comp_id ?cfg) b (SequenceReset True e) = (Ok raw :: (bytes, unit) outcome)"
    using outbound_laws.generate_ok [OF sequence_reset.outbound_laws_axioms t] by blast
  moreover from raw have "generate_message (wall (env_clock env (ctx_clock c))) (begin_string ?cfg) (sender_comp_id ?cfg)
      (target_comp_id ?cfg) b (SequenceReset True e) = (Ok raw :: (bytes, session_operation_error) outcome)"
    by (rule generate_message_cases)
  ultimately show ?thesis
    using that [of raw]
    by (auto simp: generated_def send_sequence_reset_def comp_simps read_clock_def send_raw_message_def emit_def)
qed

lemma prepare_no_panic: "fst (prepare_message_for_resend (wall (env_clock env i)) m) \<noteq> Panic"
  using clock_ok [of i]
  by (auto simp: prepare_message_for_resend_def Let_def split: option.splits prod.splits)

lemma gap_fill_ok:
  "\<exists>c' outs. (case start of None \<Rightarrow> ret () | Some b \<Rightarrow> send_sequence_reset env w b e) c = (Ok (), c') \<and> wrote w outs c c'
    \<and> list_all2 (written (ctx_config c) mc) (case start of None \<Rightarrow> [] | Some b \<Rightarrow> [GapFill b e]) outs"
proof (cases start)
  case None
  then show ?thesis using wrote_nil by (auto simp: ret_def)
next
  case (Some b)
  obtain raw where "send_sequence_reset env w b e c =
      (Ok (), c\<lparr>ctx_clock := ctx_clock c + 1, ctx_trace := ctx_trace c @ [ToWriter w (SendMessage raw)]\<rparr>)"
    "generated (ctx_config c) b (SequenceReset True e) raw"
    by (rule sequence_reset_ok)
  with Some wrote_one show ?thesis by (fastforce simp: written_def)
qed

lemma replay_ok:
  "\<exists>c' out. (bind_comp (read_clock env) (\<lambda>now. case prepare_message_for_resend (wall now) m of
        (Panic, _) \<Rightarrow> panic
      | (_, prepared) \<Rightarrow> bind_comp (gets ctx_message_config) (\<lambda>cfg.
          and_then (send_raw_message w (fst (encode cfg prepared))) rest))) c = rest c'
    \<and> wrote w [out] c c' \<and> written cfg (ctx_message_config c) (Replay k m) out"
proof -
  let ?now = "wall (env_clock env (ctx_clock c))"
  obtain r m' where p: "prepare_message_for_resend ?now m = (r, m')" by (cases "prepare_message_for_resend ?now m")
  with prepare_no_panic [of "ctx_clock c" m] have r: "r \<noteq> Panic" by simp
  let ?out = "fst (encode (ctx_message_config c) m')"
  have "written cfg (ctx_message_config c) (Replay k m) ?out"
    using p r by (auto simp: written_def)
  with p r wrote_one show ?thesis
    by (cases r) (fastforce simp: comp_simps and_then_def read_clock_def send_raw_message_def emit_def)+
qed

lemma resend_loop_plan:
  assumes "list_all2 (readable mb) raws xs" and "ctx_builder c = mb"
  shows "\<exists>c' outs. resend_loop env w raws start n c = (Ok (), c') \<and> wrote w outs c c'
    \<and> list_all2 (written (ctx_config c) (ctx_message_config c)) (resend_plan xs start n) outs"
  using assms
proof (induction raws xs arbitrary: c start n rule: list_all2_induct)
  case Nil
  show ?case using gap_fill_ok by simp
next
  case (Cons raw raws x xs)
  obtain k mt m where x: "x = (k, mt, m)" by (cases x)
  with Cons.hyps(1) obtain p where p: "build_message mb raw = (Ok p :: (parsed_message, session_operation_error) outcome)"
      "into_message p = Some m" and k: "get_msg_seq_num m = (Ok k :: (u64, session_operation_error) outcome)"
      and mt: "msg_type_of m = Ok mt"
    by (auto simp: readable_def)
  show ?case
  proof (cases "is_admin mt")
    case True
    then show ?thesis
      using Cons.IH [OF Cons.prems, of "case start of None \<Rightarrow> Some k | Some b \<Rightarrow> Some b" k] p k mt Cons.prems
      by (simp add: x comp_simps)
  next
    case False
    obtain c1 outs1 where gap: "(case start of None \<Rightarrow> ret () | Some b \<Rightarrow> send_sequence_reset env w b k) c = (Ok (), c1)"
      "wrote w outs1 c c1"
      "list_all2 (written (ctx_config c) (ctx_message_config c)) (case start of None \<Rightarrow> [] | Some b \<Rightarrow> [GapFill b k]) outs1"
      using gap_fill_ok [where start = start and w = w and e = k and c = c] by blast
    obtain c2 out where replay: "(bind_comp (read_clock env) (\<lambda>now. case prepare_message_for_resend (wall now) m of
        (Panic, _) \<Rightarrow> panic
      | (_, prepared) \<Rightarrow> bind_comp (gets ctx_message_config) (\<lambda>cfg.
          and_then (send_raw_message w (fst (encode cfg prepared))) (resend_loop env w raws None k)))) c1 = resend_loop env w raws None k c2"
      "wrote w [out] c1 c2" "written (ctx_config c) (ctx_message_config c) (Replay k m) out"
      using replay_ok [where m = m and w = w and k = k and rest = "resend_loop env w raws None k" and c = c1 and cfg = "ctx_config c"] wrote_keeps [OF gap(2)] by fastforce
    have "ctx_builder c2 = mb" using Cons.prems wrote_keeps [OF gap(2)] wrote_keeps [OF replay(2)] by simp
    from Cons.IH [OF this, of None k] obtain c3 outs where rest: "resend_loop env w raws None k c2 = (Ok (), c3)" "wrote w outs c2 c3"
      "list_all2 (written (ctx_config c) (ctx_message_config c)) (resend_plan xs None k) outs"
      using wrote_keeps [OF gap(2)] wrote_keeps [OF replay(2)] by auto
    have "resend_loop env w (raw # raws) start n c = (Ok (), c3)"
      using p k mt False Cons.prems gap(1) replay(1) rest(1)
      by (simp add: and_then_def comp_simps split del: option.split)
    moreover have "wrote w (outs1 @ [out] @ outs) c c3"
      by (intro wrote_append [OF gap(2)] wrote_append [OF replay(2)] rest(2))
    moreover have "list_all2 (written (ctx_config c) (ctx_message_config c)) (resend_plan (x # xs) start n) (outs1 @ [out] @ outs)"
      using gap(3) replay(3) rest(3) False by (auto simp: x intro!: list_all2_appendI)
    ultimately show ?thesis by blast
  qed
qed

end

lemma resend_messages_plan:
  assumes laws: "session_laws env content invar" and inv: "invar (ctx_store c)" and cap: "capacity_ok (e - b + 1)"
    and read: "list_all2 (readable (ctx_builder c)) (slice_of (abs_messages (content (ctx_store c))) b e) xs"
  shows "\<exists>c' outs. resend_messages env w b e c = (Ok (), c') \<and> wrote w outs c c'
    \<and> list_all2 (written (ctx_config c) (ctx_message_config c)) (resend_plan xs None 0) outs"
  using session_laws.resend_loop_plan [OF laws read refl, of w None 0]
    store_spec.get_slice_spec [OF session_laws.axioms(1) [OF laws] inv cap]
  by (simp add: resend_messages_def comp_simps)


text \<open>A peer that starts at the number \<open>n\<close> takes the items one by one: each must carry the number it expects, a gap fill moves it
  to its NewSeqNo, a replayed message to the number after it.\<close>

fun peer_next :: "u64 \<Rightarrow> resend_item list \<Rightarrow> u64 option" where
  "peer_next n [] = Some n"
| "peer_next n (GapFill b e # items) = (if b = n then peer_next e items else None)"
| "peer_next n (Replay k m # items) = (if k = n then peer_next (n + 1) items else None)"

fun numbered :: "u64 \<Rightarrow> (u64 \<times> bytes \<times> message) list \<Rightarrow> bool" where
  "numbered n [] \<longleftrightarrow> True"
| "numbered n ((k, _) # xs) \<longleftrightarrow> k = n \<and> numbered (n + 1) xs"

definition ends_admin :: "(u64 \<times> bytes \<times> message) list \<Rightarrow> bool" where
  "ends_admin xs \<longleftrightarrow> xs \<noteq> [] \<and> is_admin (fst (snd (last xs)))"

lemma peer_next_plan:
  assumes "numbered n xs" and "start = None \<Longrightarrow> e = n" and "\<And>b. start = Some b \<Longrightarrow> e = b \<and> l = n - 1"
  shows "peer_next e (resend_plan xs start l) =
    Some (n + of_nat (length xs) - (if ends_admin xs \<or> xs = [] \<and> start \<noteq> None then 1 else 0))"
  using assms
proof (induction xs arbitrary: n e start l)
  case Nil
  then show ?case by (cases start) (auto simp: ends_admin_def)
next
  case (Cons x xs)
  obtain k mt m where x: "x = (k, mt, m)" by (cases x)
  with Cons.prems(1) have k: "k = n" and tl: "numbered (n + 1) xs" by auto
  have ends: "ends_admin (x # xs) \<longleftrightarrow> ends_admin xs \<or> xs = [] \<and> is_admin mt"
    by (auto simp: ends_admin_def x)
  show ?case
  proof (cases "is_admin mt")
    case True
    then have "peer_next e (resend_plan (x # xs) start l)
        = peer_next e (resend_plan xs (case start of None \<Rightarrow> Some n | Some b \<Rightarrow> Some b) n)"
      by (simp add: x k)
    also have "\<dots> = Some (n + 1 + of_nat (length xs) - (if ends_admin xs \<or> xs = [] then 1 else 0))"
      using Cons.prems(2,3) by (subst Cons.IH [OF tl]) (auto split: option.splits)
    finally show ?thesis using True by (auto simp: ends algebra_simps)
  next
    case False
    then have "peer_next e (resend_plan (x # xs) start l) = peer_next (n + 1) (resend_plan xs None n)"
      using Cons.prems(2,3) by (cases start) (auto simp: x k)
    also have "\<dots> = Some (n + 1 + of_nat (length xs) - (if ends_admin xs then 1 else 0))"
      by (subst Cons.IH [OF tl]) auto
    finally show ?thesis using False by (auto simp: ends algebra_simps)
  qed
qed


definition sample_stored :: "memory_store session_ctx" where
  "sample_stored = (sess_ctx (sample_session (Active sample_active)))\<lparr>ctx_store :=
     (mem_default 0)\<lparr>mem_messages := [7 \<mapsto> ''8=FIX.4.4|9=22|35=0|49=A|34=7|112=X1|10=215|'']\<rparr>\<rparr>"

lemma sample_stored_readable:
  "\<exists>m. list_all2 (readable (ctx_builder sample_stored)) (slice_of (abs_messages (mem_abs (ctx_store sample_stored))) 7 7) [(7, ''0'', m)]"
proof -
  let ?raw = "''8=FIX.4.4|9=22|35=0|49=A|34=7|112=X1|10=215|''"
  have slice: "slice_of (abs_messages (mem_abs (ctx_store sample_stored))) 7 7 = [?raw]"
    by (simp add: sample_stored_def mem_abs_def mem_default_def slice_of_def seq_range_def map_filter_def)
  obtain m where build: "build sample_builder ?raw = Some (Ok (ValidMsg m))"
    and hd: "\<forall>t. fm_get_raw (header m) t = fm_get_raw (header (snd (encode (config sample_builder) sample_heartbeat))) t"
    using build_encode_aux [OF sample_heartbeat_conforms(1) refl] sample_heartbeat_conforms(2) by auto
  have raw: "fm_get_raw (header m) 34 = Some ''7''" "fm_get_raw (header m) 35 = Some ''0''"
    by (simp_all only: hd) code_simp+
  have "u64_serialize 7 = ''7''" "str_deserialize ''0'' = Ok ''0''" by code_simp+
  moreover from this(1) have "u64_deserialize ''7'' = Ok 7" using u64_field.roundtrip [of 7] by simp
  ultimately have "u64_deserialize ''7'' = Ok 7" "str_deserialize ''0'' = Ok ''0''" by simp_all
  with raw have "get_msg_seq_num m = (Ok 7 :: (u64, session_operation_error) outcome)" "msg_type_of m = Ok ''0''"
    by (simp_all add: get_msg_seq_num_def msg_type_of_def part_get_def part_get_raw_def)
  with build have "readable (ctx_builder sample_stored) ?raw (7, ''0'', m)"
    by (simp add: readable_def build_message_def sample_stored_def into_message_def)
  then show ?thesis by (auto simp: slice)
qed



section \<open>Inbound messages that end the task\<close>

text \<open>A SequenceReset in reset mode is not checked for its number, and the handler takes a MsgSeqNum for granted: an authentic
  one without it ends the task of an active session.\<close>

theorem sequence_reset_without_number_panics:
  assumes laws: "session_laws env content invar" and inv: "invar (ctx_store (sess_ctx s))" and active: "sess_state s = Active a"
    and mt: "msg_type_of m = Ok ''4''" and mode: "unwrap_or False (msg_get bool_deserialize GAP_FILL_FLAG m) = False"
    and auth: "authentic (env_to_chrono_utc env) (wall (env_clock env (ctx_clock (sess_ctx s)))) m (ctx_config (sess_ctx s))
      \<lparr>check_too_high = False, check_too_low = False, check_orig_sending_time = False\<rparr>"
    and no: "part_get_raw MSG_SEQ_NUM (header m) = None"
  shows "fst (process_message env m s) = Panic"
proof -
  have flags: "for_message m = Ok \<lparr>check_too_high = False, check_too_low = False, check_orig_sending_time = False\<rparr>"
    using mt mode by (simp add: for_message_def msg_type_of_def Let_def)
  have "get_msg_seq_num m = (Panic :: (u64, session_operation_error) outcome)" using no by (simp add: get_msg_seq_num_def part_get_def)
  then show ?thesis
    using process_active_passed [OF laws inv active mt flags auth] active
    by (simp add: check_sequence_number_def dispatch_message_def on_sequence_reset_def if_writer_def get_writer_def
        inbound_on_sequence_reset_def and_then_def comp_simps in_ctx_def)
qed

lemma authentic_set_other:
  assumes "def_tag d \<notin> {8, 49, 56, 52, 122}"
  shows "authentic c now (msg_set d v m) cfg flags = authentic c now m cfg flags"
  using assms by (auto simp: authentic_def part_get_def get_raw_msg_set)

lemma sample_variant_authentic:
  assumes "def_tag d \<notin> {8, 49, 56, 52, 122}" and "\<not> check_orig_sending_time flags"
  shows "authentic (env_to_chrono_utc sample_env) (wall (env_clock sample_env i)) (msg_set d v (sample_inbound n)) sample_config flags"
  using sample_authentic [OF assms(2)] by (simp only: authentic_set_other [OF assms(1)])

lemma sample_variant_type:
  "str_deserialize mt = Ok mt \<Longrightarrow> msg_type_of (msg_set MSG_TYPE mt (sample_inbound n)) = Ok mt"
  by (simp add: msg_type_of_def part_get_def get_raw_msg_set)

theorem sequence_reset_without_number_panics_witness:
  "fst (process_message sample_env (msg_set SENDING_TIME ''20240301-12:30:00.000'' (msg_set TARGET_COMP_ID ''A''
     (msg_set SENDER_COMP_ID ''B'' (Message_new ''FIX.4.4'' ''4'')))) (sample_session (Active sample_active))) = Panic"
proof -
  let ?f = "\<lparr>check_too_high = False, check_too_low = False, check_orig_sending_time = False\<rparr>"
  let ?m = "msg_set SENDING_TIME ''20240301-12:30:00.000'' (msg_set TARGET_COMP_ID ''A''
     (msg_set SENDER_COMP_ID ''B'' (Message_new ''FIX.4.4'' ''4'')))"
  have str: "str_deserialize ''4'' = Ok ''4''" by code_simp
  have mt: "msg_type_of ?m = Ok ''4''" by (simp add: msg_type_of_def part_get_def get_raw_msg_set Message_new_def str)
  have mode: "unwrap_or False (msg_get bool_deserialize GAP_FILL_FLAG ?m) = False"
    by (simp add: msg_get_def part_get_def get_raw_msg_set Message_new_def unwrap_or_def) (simp add: part_get_raw_def)
  have no: "part_get_raw MSG_SEQ_NUM (header ?m) = None"
    by (simp add: get_raw_msg_set Message_new_def) (simp add: part_get_raw_def)
  have "authentic (\<lambda>_. None) sample_now ?m sample_config ?f = authentic (\<lambda>_. None) sample_now (sample_inbound 1) sample_config ?f"
    by (simp add: authentic_def part_get_def get_raw_msg_set sample_inbound_def Message_new_def)
  then have auth: "authentic (env_to_chrono_utc sample_env)
      (wall (env_clock sample_env (ctx_clock (sess_ctx (sample_session (Active sample_active)))))) ?m
      (ctx_config (sess_ctx (sample_session (Active sample_active)))) ?f"
    using sample_inbound_authentic by (simp add: sample_env_def)
  show ?thesis
    by (rule sequence_reset_without_number_panics [OF sample.session_laws_axioms TrueI sample_session_simps(2) mt mode auth no])
qed

text \<open>A TestRequest without a readable TestReqID reaches a \<open>todo!()\<close>: an authentic one with the expected number ends the
  task of an active session.\<close>

theorem test_request_without_id_panics:
  assumes laws: "session_laws env content invar" and inv: "invar (ctx_store (sess_ctx s))" and active: "sess_state s = Active a"
    and mt: "msg_type_of m = Ok ''1''" and flags: "for_message m = Ok flags"
    and auth: "authentic (env_to_chrono_utc env) (wall (env_clock env (ctx_clock (sess_ctx s)))) m (ctx_config (sess_ctx s)) flags"
    and n: "msg_seq_num_or_default m = abs_target (content (ctx_store (sess_ctx s))) + 1"
    and no: "part_get_raw TEST_REQ_ID (body m) = None"
  shows "fst (process_message env m s) = Panic"
proof -
  have "msg_get str_deserialize TEST_REQ_ID m = Err Missing" using no by (simp add: msg_get_def part_get_def)
  then show ?thesis
    using process_active_passed [OF laws inv active mt flags auth] active n
    by (simp add: check_sequence_number_def dispatch_message_def on_test_request_def if_writer_def get_writer_def
        inbound_on_test_request_def and_then_def comp_simps in_ctx_def)
qed

theorem test_request_without_id_panics_witness:
  "fst (process_message sample_env (msg_set MSG_TYPE ''1'' (sample_inbound 1)) (sample_session (Active sample_active))) = Panic"
proof -
  let ?m = "msg_set MSG_TYPE ''1'' (sample_inbound 1)" and ?s = "sample_session (Active sample_active)"
  let ?f = "\<lparr>check_too_high = True, check_too_low = True, check_orig_sending_time = False\<rparr>"
  have mt: "msg_type_of ?m = Ok ''1''" by (rule sample_variant_type) code_simp
  have dup: "poss_dup ?m = False" using sample_inbound_fields(6) [of 1]
    by (simp add: poss_dup_def part_get_def get_raw_msg_set)
  have flags: "for_message ?m = Ok ?f" using mt dup by (simp add: for_message_def msg_type_of_def)
  have auth: "authentic (env_to_chrono_utc sample_env) (wall (env_clock sample_env (ctx_clock (sess_ctx ?s)))) ?m
      (ctx_config (sess_ctx ?s)) ?f"
    using sample_variant_authentic [of MSG_TYPE ?f] by simp
  have n: "msg_seq_num_or_default ?m = abs_target (mem_abs (ctx_store (sess_ctx ?s))) + 1"
    using sample_seq_num [of 1] by (simp add: msg_seq_num_or_default_def part_get_def get_raw_msg_set unwrap_or_def)
  have no: "part_get_raw TEST_REQ_ID (body ?m) = None"
    by (simp add: get_raw_msg_set sample_inbound_def Message_new_def) (simp add: part_get_raw_def)
  show ?thesis
    by (rule test_request_without_id_panics [OF sample.session_laws_axioms TrueI sample_session_simps(2) mt flags auth n no])
qed



end
