(* ===== verification/Session_Timers.thy ===== *)
theory Session_Timers
  imports Session_Behaviour
begin

text \<open>
  What the timers of the session task do: a peer that falls silent is tested and then dropped, an unanswered test keeps the peer
  timer running, and the schedule check starts a new store when a new session period has begun.
\<close>

section \<open>Sending in a state\<close>

context session_laws
begin

text \<open>A message an active session sends, with everything that changes.\<close>

lemma active_send:
  assumes "invar (ctx_store (sess_ctx s))" and "sess_state s = Active a" and "outbound_laws om"
    and "message_type om \<noteq> Logon_MSG_TYPE"
  obtains raw st where
    "session_send_message env om s = (Ok (abs_sender (abs (ctx_store (sess_ctx s))) + 1),
       s\<lparr>sess_ctx := (sess_ctx s)\<lparr>ctx_store := st, ctx_clock := ctx_clock (sess_ctx s) + 2,
            ctx_trace := ctx_trace (sess_ctx s) @ [ToWriter (act_writer a) (SendMessage raw)]\<rparr>,
         sess_state := Active (a\<lparr>act_heartbeat_deadline := monotonic (env_clock env (ctx_clock (sess_ctx s) + 1))
           + from_secs (unat (heartbeat_interval (ctx_config (sess_ctx s))))\<rparr>)\<rparr>)"
    "generated (ctx_config (sess_ctx s)) (abs_sender (abs (ctx_store (sess_ctx s))) + 1) om raw"
    "invar st" "abs st = persisted (abs (ctx_store (sess_ctx s))) raw"
proof (rule prepare_ok [OF assms(1,3)])
  fix raw st
  let ?c = "sess_ctx s"
  assume p: "prepare_message env om ?c =
      (Ok (abs_sender (abs (ctx_store ?c)) + 1, raw), ?c\<lparr>ctx_store := st, ctx_clock := ctx_clock ?c + 1\<rparr>)"
    and rest: "generated (ctx_config ?c) (abs_sender (abs (ctx_store ?c)) + 1) om raw" "invar st"
      "abs st = persisted (abs (ctx_store ?c)) raw"
  show ?thesis
    by (rule that [OF _ rest])
      (use assms(2,4) in \<open>simp add: session_send_message_def p and_then_def comp_simps in_ctx_def
        send_raw_message_def emit_def reset_heartbeat_timer_def read_clock_def state_reset_heartbeat_timer_def\<close>)
qed

text \<open>Whatever the state, a message the engine sends is persisted under the next number and the writer stays the same.\<close>

lemma any_send:
  assumes "invar (ctx_store (sess_ctx s))" and "outbound_laws om"
  obtains raw s' es where "session_send_message env om s = (Ok (abs_sender (abs (ctx_store (sess_ctx s))) + 1), s')"
    "invar (ctx_store (sess_ctx s'))" "abs (ctx_store (sess_ctx s')) = persisted (abs (ctx_store (sess_ctx s))) raw"
    "get_writer (sess_state s') = get_writer (sess_state s)" "ctx_trace (sess_ctx s') = ctx_trace (sess_ctx s) @ es"
    "sess_schedule s' = sess_schedule s"
proof (rule prepare_ok [OF assms])
  fix raw st
  let ?c = "sess_ctx s"
  assume p: "prepare_message env om ?c =
      (Ok (abs_sender (abs (ctx_store ?c)) + 1, raw), ?c\<lparr>ctx_store := st, ctx_clock := ctx_clock ?c + 1\<rparr>)"
    and rest: "generated (ctx_config ?c) (abs_sender (abs (ctx_store ?c)) + 1) om raw" "invar st"
      "abs st = persisted (abs (ctx_store ?c)) raw"
  have "\<exists>s' es. session_send_message env om s = (Ok (abs_sender (abs (ctx_store ?c)) + 1), s') \<and> ctx_store (sess_ctx s') = st
      \<and> get_writer (sess_state s') = get_writer (sess_state s) \<and> ctx_trace (sess_ctx s') = ctx_trace ?c @ es
      \<and> sess_schedule s' = sess_schedule s"
    by (cases "sess_state s")
      (auto simp: session_send_message_def p and_then_def comp_simps in_ctx_def set_state_def send_raw_message_def emit_def
        reset_heartbeat_timer_def read_clock_def state_reset_heartbeat_timer_def get_writer_def)
  with rest(2,3) show ?thesis using that by metis
qed

end

section \<open>The peer timer\<close>

context session_laws
begin

lemma peer_timeout_tests:
  fixes s :: "('s, 'tz) session"
  assumes "invar (ctx_store (sess_ctx s))" and "sess_state s = Active a" and "sent_test_request_id a = None"
  defines "c \<equiv> sess_ctx s"
  defines "req_id \<equiv> ''TEST_'' @ show_u64 (abs_target (abs (ctx_store c)) + 1)"
  obtains raw s' where "handle_peer_timeout env s = (Ok (), s')"
    "generated (ctx_config c) (abs_sender (abs (ctx_store c)) + 1) (TestRequest req_id) raw"
    "invar (ctx_store (sess_ctx s'))" "abs (ctx_store (sess_ctx s')) = persisted (abs (ctx_store c)) raw"
    "ctx_trace (sess_ctx s') = ctx_trace c @ [ToWriter (act_writer a) (SendMessage raw)]"
    "ctx_config (sess_ctx s') = ctx_config c" "ctx_clock (sess_ctx s') = ctx_clock c + 3"
    "\<exists>h. sess_state s' = Active (a\<lparr>act_heartbeat_deadline := h, act_peer_deadline := monotonic (env_clock env (ctx_clock c + 2))
       + from_secs (calculate_peer_interval (heartbeat_interval (ctx_config c))), sent_test_request_id := Some req_id\<rparr>)"
proof -
  obtain raw st where send: "session_send_message env (TestRequest req_id) s = (Ok (abs_sender (abs (ctx_store c)) + 1),
       s\<lparr>sess_ctx := c\<lparr>ctx_store := st, ctx_clock := ctx_clock c + 2,
            ctx_trace := ctx_trace c @ [ToWriter (act_writer a) (SendMessage raw)]\<rparr>,
         sess_state := Active (a\<lparr>act_heartbeat_deadline := monotonic (env_clock env (ctx_clock c + 1))
           + from_secs (unat (heartbeat_interval (ctx_config c)))\<rparr>)\<rparr>)"
    and rest: "generated (ctx_config c) (abs_sender (abs (ctx_store c)) + 1) (TestRequest req_id) raw" "invar st"
      "abs st = persisted (abs (ctx_store c)) raw"
    unfolding c_def by (rule active_send [OF assms(1,2) test_request.outbound_laws_axioms]) simp
  have "next_target_seq_number (env_store env) (ctx_store c) = abs_target (abs (ctx_store c)) + 1"
    unfolding c_def by (rule next_target_spec [OF assms(1)])
  then show ?thesis
    by (intro that [OF _ rest(1)])
      (use assms(2,3) send rest(2,3) in \<open>auto simp: handle_peer_timeout_def is_expecting_test_response_def expected_test_response_id_def
        is_awaiting_logon_def is_awaiting_logout_def and_then_def comp_simps req_id_def reset_peer_timer_def in_ctx_def read_clock_def
        state_reset_peer_timer_def c_def [symmetric]\<close>)
qed

lemma peer_timeout_logs_out:
  fixes s :: "('s, 'tz) session"
  assumes "invar (ctx_store (sess_ctx s))" and "sess_state s = Active a" and "sent_test_request_id a = Some req_id"
  defines "c \<equiv> sess_ctx s"
  obtains raw s' where "handle_peer_timeout env s = (Ok (), s')"
    "generated (ctx_config c) (abs_sender (abs (ctx_store c)) + 1) (Logout (Some ''peer timeout'')) raw"
    "invar (ctx_store (sess_ctx s'))" "abs (ctx_store (sess_ctx s')) = persisted (abs (ctx_store c)) raw"
    "ctx_trace (sess_ctx s') = ctx_trace c @ [ToWriter (act_writer a) (SendMessage raw), ToWriter (act_writer a) Disconnect]"
    "ctx_config (sess_ctx s') = ctx_config c" "ctx_clock (sess_ctx s') = ctx_clock c + 2"
    "\<exists>h. sess_state s' = Active (a\<lparr>act_heartbeat_deadline := h\<rparr>)"
proof -
  obtain raw st where send: "session_send_message env (Logout (Some ''peer timeout'')) s = (Ok (abs_sender (abs (ctx_store c)) + 1),
       s\<lparr>sess_ctx := c\<lparr>ctx_store := st, ctx_clock := ctx_clock c + 2,
            ctx_trace := ctx_trace c @ [ToWriter (act_writer a) (SendMessage raw)]\<rparr>,
         sess_state := Active (a\<lparr>act_heartbeat_deadline := monotonic (env_clock env (ctx_clock c + 1))
           + from_secs (unat (heartbeat_interval (ctx_config c)))\<rparr>)\<rparr>)"
    and rest: "generated (ctx_config c) (abs_sender (abs (ctx_store c)) + 1) (Logout (Some ''peer timeout'')) raw" "invar st"
      "abs st = persisted (abs (ctx_store c)) raw"
    unfolding c_def by (rule active_send [OF assms(1,2) logout.outbound_laws_axioms]) simp
  show ?thesis
    by (intro that [OF _ rest(1)])
      (use assms(2,3) send rest(2,3) in \<open>auto simp: handle_peer_timeout_def is_expecting_test_response_def expected_test_response_id_def
        logout_and_terminate_def send_logout_def with_send_context_def disconnect_writer_def if_writer_def get_writer_def
        writer_disconnect_def emit_def and_then_def comp_simps in_ctx_def c_def [symmetric]\<close>)
qed

end

lemma peer_timer_step:
  assumes "handle_peer_timeout env s = (Ok () :: (unit, unit) outcome, s')" and "sess_state s = Active a"
    and "act_peer_deadline a \<le> monotonic (env_clock env (ctx_clock (sess_ctx s)))"
  shows "session_step env s PeerTimer s'"
  using assms by (simp add: session_step_simp input_enabled_def handle_input_def peer_deadline_def)


text \<open>A clock that advances by a thousand seconds with every reading.\<close>

definition sample_running :: "(memory_store, unit) session_env" where
  "sample_running = sample_env\<lparr>env_clock := (\<lambda>i. \<lparr>wall = sample_now, wall_utc = 0, monotonic = (i + 1) * 1000000000000\<rparr>)\<rparr>"

interpretation running: session_laws sample_running mem_abs "\<lambda>_. True"
  by (rule mem_session_laws) (auto simp: sample_running_def sample_env_def sample_now_ok)


text \<open>An unanswered test does not stop the timer. The Logout leaves the state and the deadline of an active session
  as they are, so until the disconnect is reported back the peer timer keeps firing: for every \<open>k\<close> the task may take \<open>k\<close> such
  steps, each of which persists and writes one more Logout.\<close>

theorem unanswered_test_repeats_logout:
  assumes laws: "session_laws env content invar" and inv: "invar (ctx_store (sess_ctx s))" and active: "sess_state s = Active a"
    and tested: "sent_test_request_id a = Some req_id"
    and late: "\<And>i. ctx_clock (sess_ctx s) \<le> i \<Longrightarrow> act_peer_deadline a \<le> monotonic (env_clock env i)"
  shows "\<exists>s' h. session_run env s (replicate k PeerTimer) s' \<and> sess_state s' = Active (a\<lparr>act_heartbeat_deadline := h\<rparr>)
    \<and> abs_sender (content (ctx_store (sess_ctx s'))) = abs_sender (content (ctx_store (sess_ctx s))) + of_nat k
    \<and> length (ctx_trace (sess_ctx s')) = length (ctx_trace (sess_ctx s)) + 2 * k"
  using inv active tested late
proof (induction k arbitrary: s a)
  case 0
  then show ?case by (intro exI [of _ s] exI [of _ "act_heartbeat_deadline a"]) (simp add: run_nil)
next
  case (Suc k)
  let ?c = "sess_ctx s"
  obtain raw s1 h where s1: "handle_peer_timeout env s = (Ok () :: (unit, unit) outcome, s1)"
    "invar (ctx_store (sess_ctx s1))" "content (ctx_store (sess_ctx s1)) = persisted (content (ctx_store ?c)) raw"
    "ctx_trace (sess_ctx s1) = ctx_trace ?c @ [ToWriter (act_writer a) (SendMessage raw), ToWriter (act_writer a) Disconnect]"
    "ctx_clock (sess_ctx s1) = ctx_clock ?c + 2" "sess_state s1 = Active (a\<lparr>act_heartbeat_deadline := h\<rparr>)"
    by (rule session_laws.peer_timeout_logs_out [OF laws Suc.prems(1-3)]) blast
  have step: "session_step env s PeerTimer s1"
    using s1(1) Suc.prems(2) Suc.prems(4) [OF order_refl] by (rule peer_timer_step)
  obtain s' h' where "session_run env s1 (replicate k PeerTimer) s'" "sess_state s' = Active (a\<lparr>act_heartbeat_deadline := h'\<rparr>)"
    "abs_sender (content (ctx_store (sess_ctx s'))) = abs_sender (content (ctx_store (sess_ctx s1))) + of_nat k"
    "length (ctx_trace (sess_ctx s')) = length (ctx_trace (sess_ctx s1)) + 2 * k"
    using Suc.IH [OF s1(2,6)] Suc.prems(3,4) s1(5) by fastforce
  with step s1(3,4) show ?case by (auto simp: algebra_simps intro: run_cons)
qed

theorem unanswered_test_repeats_logout_witness:
  "\<exists>s'. session_run sample_running (sample_session (Active (sample_active\<lparr>sent_test_request_id := Some ''T''\<rparr>)))
      (replicate 5 PeerTimer) s' \<and> length (ctx_trace (sess_ctx s')) = 10"
  using unanswered_test_repeats_logout [OF running.session_laws_axioms TrueI sample_session_simps(2),
      of "sample_active\<lparr>sent_test_request_id := Some ''T''\<rparr>" "''T''" 5]
  by (auto simp: sample_running_def sample_active_def)

section \<open>The schedule check\<close>

lemma notify_awaiter_keeps:
  obtains s' es where "notify_awaiter s = (Ok () :: (unit, 'e) outcome, s')" "ctx_store (sess_ctx s') = ctx_store (sess_ctx s)"
    "get_writer (sess_state s') = get_writer (sess_state s)" "sess_schedule s' = sess_schedule s"
    "ctx_trace (sess_ctx s') = ctx_trace (sess_ctx s) @ es"
proof -
  have "\<exists>s' es. notify_awaiter s = (Ok () :: (unit, 'e) outcome, s') \<and> ctx_store (sess_ctx s') = ctx_store (sess_ctx s)
      \<and> get_writer (sess_state s') = get_writer (sess_state s) \<and> sess_schedule s' = sess_schedule s
      \<and> ctx_trace (sess_ctx s') = ctx_trace (sess_ctx s) @ es"
    by (cases "sess_state s")
      (auto simp: notify_awaiter_def notify_schedule_awaiter_def comp_simps and_then_def set_state_def in_ctx_def emit_def
        get_writer_def split: option.split)
  with that show ?thesis by blast
qed

context session_laws
begin

lemma logout_and_terminate_ok:
  fixes s :: "('s, 'tz) session"
  assumes "invar (ctx_store (sess_ctx s))"
  obtains s' es raw where "logout_and_terminate env r s = (Ok (), s')" "invar (ctx_store (sess_ctx s'))"
    "abs (ctx_store (sess_ctx s')) = persisted (abs (ctx_store (sess_ctx s))) raw"
    "ctx_trace (sess_ctx s') = ctx_trace (sess_ctx s) @ es"
    "\<And>w. get_writer (sess_state s) = Some w \<Longrightarrow> ToWriter w Disconnect \<in> set es"
proof (rule any_send [OF assms logout.outbound_laws_axioms, of "Some r"])
  fix raw s1 es
  assume send: "session_send_message env (Logout (Some r)) s = (Ok (abs_sender (abs (ctx_store (sess_ctx s))) + 1), s1)"
    and rest: "invar (ctx_store (sess_ctx s1))" "abs (ctx_store (sess_ctx s1)) = persisted (abs (ctx_store (sess_ctx s))) raw"
    and w: "get_writer (sess_state s1) = get_writer (sess_state s)"
    and es: "ctx_trace (sess_ctx s1) = ctx_trace (sess_ctx s) @ es"
  have run: "logout_and_terminate env r s = (Ok (), case get_writer (sess_state s) of None \<Rightarrow> s1
      | Some w \<Rightarrow> s1\<lparr>sess_ctx := (sess_ctx s1)\<lparr>ctx_trace := ctx_trace (sess_ctx s1) @ [ToWriter w Disconnect]\<rparr>\<rparr>)"
    by (simp add: logout_and_terminate_def send_logout_def with_send_context_def send disconnect_writer_def if_writer_def w
        and_then_def comp_simps writer_disconnect_def emit_def in_ctx_def split: option.split)
  show ?thesis
    by (rule that [OF run, of raw "es @ (case get_writer (sess_state s) of None \<Rightarrow> [] | Some w \<Rightarrow> [ToWriter w Disconnect])"])
      (use rest es in \<open>auto split: option.split\<close>)
qed

lemma reset_store_ok:
  assumes "invar (ctx_store (sess_ctx s))"
  obtains s' where "reset_store_or_stop env s = (Ok (), s')" "invar (ctx_store (sess_ctx s'))"
    "abs (ctx_store (sess_ctx s')) = \<lparr>abs_sender = 0, abs_target = 0,
       abs_created = wall_utc (env_clock env (ctx_clock (sess_ctx s))), abs_messages = Map.empty\<rparr>"
    "ctx_trace (sess_ctx s') = ctx_trace (sess_ctx s)"
proof -
  obtain st where st: "store_reset (env_store env) (wall_utc (env_clock env (ctx_clock (sess_ctx s)))) (ctx_store (sess_ctx s)) = (Ok (), st)"
    "invar st" "abs st = \<lparr>abs_sender = 0, abs_target = 0,
       abs_created = wall_utc (env_clock env (ctx_clock (sess_ctx s))), abs_messages = Map.empty\<rparr>"
    using reset_spec [OF assms] by blast
  show ?thesis
    by (rule that [where s' = "s\<lparr>sess_ctx := (sess_ctx s)\<lparr>ctx_clock := ctx_clock (sess_ctx s) + 1, ctx_store := st\<rparr>\<rparr>"])
      (simp_all add: reset_store_or_stop_def comp_simps in_ctx_def read_clock_def attempt_def with_store_def st)
qed

end

text \<open>A new period starts a new store. If the schedule is active and the store dates from another session period, or from outside
  the schedule, the schedule check disconnects the writer if there is one and empties the store: both counters are at
  one, no message is kept, and the creation time is the current one. This holds in every state of the session.\<close>

theorem new_period_resets_store:
  assumes laws: "session_laws env content invar" and inv: "invar (ctx_store (sess_ctx s))"
    and now: "now = wall_utc (env_clock env (ctx_clock (sess_ctx s)))" and active: "is_active_at (env_tz env) (sess_schedule s) now"
    and other: "is_same_session_period (env_tz env) now (sess_schedule s) (abs_created (content (ctx_store (sess_ctx s)))) now = Ok p"
      "p \<noteq> SamePeriod"
  shows "\<exists>s' es i. handle_schedule_check env s = (Ok () :: (unit, 'e) outcome, s')
    \<and> next_sender_seq_number (env_store env) (ctx_store (sess_ctx s')) = 1
    \<and> next_target_seq_number (env_store env) (ctx_store (sess_ctx s')) = 1
    \<and> content (ctx_store (sess_ctx s')) =
        \<lparr>abs_sender = 0, abs_target = 0, abs_created = wall_utc (env_clock env i), abs_messages = Map.empty\<rparr>
    \<and> ctx_trace (sess_ctx s') = ctx_trace (sess_ctx s) @ es
    \<and> (\<forall>w. get_writer (sess_state s) = Some w \<longrightarrow> ToWriter w Disconnect \<in> set es)"
proof -
  let ?s0 = "s\<lparr>sess_ctx := (sess_ctx s)\<lparr>ctx_clock := ctx_clock (sess_ctx s) + 1\<rparr>\<rparr>"
  let ?reason = "if p = DifferentPeriod then ''session period changed'' else ''creation time outside schedule''"
  obtain s1 es1 where s1: "notify_awaiter ?s0 = (Ok () :: (unit, 'e) outcome, s1)"
    "ctx_store (sess_ctx s1) = ctx_store (sess_ctx s)" "get_writer (sess_state s1) = get_writer (sess_state s)"
    "sess_schedule s1 = sess_schedule s" "ctx_trace (sess_ctx s1) = ctx_trace (sess_ctx s) @ es1"
    by (rule notify_awaiter_keeps [of ?s0]) (auto simp del: session_fields)
  have inv1: "invar (ctx_store (sess_ctx s1))" using inv s1(2) by simp
  obtain s2 es2 where s2: "logout_and_terminate env ?reason s1 = (Ok () :: (unit, 'e) outcome, s2)" "invar (ctx_store (sess_ctx s2))"
    "ctx_trace (sess_ctx s2) = ctx_trace (sess_ctx s1) @ es2"
    "\<And>w. get_writer (sess_state s1) = Some w \<Longrightarrow> ToWriter w Disconnect \<in> set es2"
    by (rule session_laws.logout_and_terminate_ok [OF laws inv1]) blast
  obtain s3 i where s3: "reset_store_or_stop env s2 = (Ok () :: (unit, 'e) outcome, s3)" "invar (ctx_store (sess_ctx s3))"
    "content (ctx_store (sess_ctx s3)) = \<lparr>abs_sender = 0, abs_target = 0,
       abs_created = wall_utc (env_clock env i), abs_messages = Map.empty\<rparr>" "ctx_trace (sess_ctx s3) = ctx_trace (sess_ctx s2)"
    by (rule session_laws.reset_store_ok [OF laws s2(2)]) blast
  have created: "creation_time (env_store env) (ctx_store (sess_ctx s1)) = abs_created (content (ctx_store (sess_ctx s)))"
    using store_spec.creation_spec [OF session_laws.axioms(1) [OF laws] inv] s1(2) by simp
  have "handle_schedule_check env s = (Ok () :: (unit, 'e) outcome,
      s3\<lparr>sess_ctx := (sess_ctx s3)\<lparr>ctx_clock := ctx_clock (sess_ctx s3) + 1\<rparr>, sess_schedule_check :=
        monotonic (env_clock env (ctx_clock (sess_ctx s3))) + from_secs SCHEDULE_CHECK_INTERVAL\<rparr>)"
    using active other s1(1,4) s2(1) s3(1) created
    by (cases p) (auto simp: handle_schedule_check_def comp_simps and_then_def in_ctx_def read_clock_def now)
  then show ?thesis
    using s1(3,5) s2(3,4) s3(3,4) store_spec.next_sender_spec [OF session_laws.axioms(1) [OF laws] s3(2)]
      store_spec.next_target_spec [OF session_laws.axioms(1) [OF laws] s3(2)]
    by (intro exI [of _ "s3\<lparr>sess_ctx := _, sess_schedule_check := _\<rparr>"] exI [of _ "es1 @ es2"] exI [of _ i]) auto
qed

text \<open>Noon, under a schedule from nine to five; the store of the sample session was created at midnight.\<close>

definition sample_noon :: "(memory_store, unit) session_env" where
  "sample_noon = sample_env\<lparr>env_clock := (\<lambda>i. \<lparr>wall = sample_now, wall_utc = 43200000000000, monotonic = 0\<rparr>)\<rparr>"

interpretation noon: session_laws sample_noon mem_abs "\<lambda>_. True"
  by (rule mem_session_laws) (auto simp: sample_noon_def sample_env_def sample_now_ok)

theorem new_period_resets_store_witness:
  "\<exists>s'. handle_schedule_check sample_noon ((sample_session (Active sample_active))
        \<lparr>sess_schedule := Daily (NaiveTime 32400 0) (NaiveTime 61200 0) ()\<rparr>) = (Ok () :: (unit, unit) outcome, s')
    \<and> next_sender_seq_number InMemoryMessageStore (ctx_store (sess_ctx s')) = 1
    \<and> ToWriter 3 Disconnect \<in> set (ctx_trace (sess_ctx s'))"
proof -
  let ?s = "(sample_session (Active sample_active))\<lparr>sess_schedule := Daily (NaiveTime 32400 0) (NaiveTime 61200 0) ()\<rparr>"
  have env: "env_tz sample_noon = utc_zone" "env_store sample_noon = InMemoryMessageStore"
    by (simp_all add: sample_noon_def sample_env_def)
  have at: "is_active_at utc_zone (sess_schedule ?s) 43200000000000" "\<not> is_active_at utc_zone (sess_schedule ?s) 0"
    by (simp_all add: is_active_at_def check_daily_schedule_def utc_zone_def epoch_def less_naive_time_def less_eq_naive_time_def)
  have now: "(43200000000000 :: utc) = wall_utc (env_clock sample_noon (ctx_clock (sess_ctx ?s)))" by (simp add: sample_noon_def)
  have other: "is_same_session_period utc_zone 43200000000000 (sess_schedule ?s)
      (abs_created (mem_abs (ctx_store (sess_ctx ?s)))) 43200000000000 = Ok (OutsideSessionTime First)"
    using at by (simp add: is_same_session_period_def mem_abs_def mem_default_def)
  show ?thesis
    using new_period_resets_store [OF noon.session_laws_axioms TrueI now, where p = "OutsideSessionTime First" and 'e = unit]
      at(1) other by (fastforce simp: env get_writer_def sample_active_def)
qed

end
