(* ===== verification/Quickfix_Reader.thy ===== *)
theory Quickfix_Reader
  imports Dictionary
begin

text \<open>
  Reading a QuickFIX specification into a dictionary (\<^verbatim>\<open>hotfix-dictionary/src/quickfix.rs\<close>). The XML parser \<^verbatim>\<open>roxmltree\<close>
  is a parameter from the text to the tree of its document; the tree is the data type \<open>xml_node\<close>. A missing attribute that
  the reader unwraps is a panic, one it checks is an error.
\<close>

section \<open>The document\<close>

text \<open>An element with its name, its attributes and its children, or a node that is not one (text, a comment).\<close>

datatype xml_node = Element (tag_name: string) (attributes: "(string \<times> string) list") (children: "xml_node list") | OtherNode

definition is_element :: "xml_node \<Rightarrow> bool" where
  "is_element n \<longleftrightarrow> (case n of Element _ _ _ \<Rightarrow> True | OtherNode \<Rightarrow> False)"

definition attribute :: "string \<Rightarrow> xml_node \<Rightarrow> string option" where
  "attribute a n = (case n of Element _ as _ \<Rightarrow> map_of as a | OtherNode \<Rightarrow> None)"

definition has_tag_name :: "string \<Rightarrow> xml_node \<Rightarrow> bool" where
  "has_tag_name t n \<longleftrightarrow> (case n of Element t' _ _ \<Rightarrow> t' = t | OtherNode \<Rightarrow> False)"

definition node_children :: "xml_node \<Rightarrow> xml_node list" where
  "node_children n = (case n of Element _ _ cs \<Rightarrow> cs | OtherNode \<Rightarrow> [])"

definition node_tag :: "xml_node \<Rightarrow> string" where
  "node_tag n = (case n of Element t _ _ \<Rightarrow> t | OtherNode \<Rightarrow> [])"

datatype parse_error = InvalidFormat | InvalidData string

type_synonym 'a reader = "(dictionary, 'a, parse_error) comp"

text \<open>\<open>ok_or(err)?\<close>, and \<open>unwrap\<close> or a panicking \<open>unwrap_or_else\<close>.\<close>

definition ok_or :: "parse_error \<Rightarrow> 'a option \<Rightarrow> ('st, 'a, parse_error) comp" where
  "ok_or e x = (case x of None \<Rightarrow> throw e | Some a \<Rightarrow> ret a)"

definition unwrapped :: "'a option \<Rightarrow> ('st, 'a, 'e) comp" where
  "unwrapped x = (case x of None \<Rightarrow> panic | Some a \<Rightarrow> ret a)"

section \<open>Fields\<close>

definition import_datatype :: "xml_node \<Rightarrow> string reader" where
  "import_datatype node =
     bind_comp (unwrapped (attribute ''type'' node)) (\<lambda>quickfix_name.
     bind_comp (unwrapped (from_quickfix_name quickfix_name)) (\<lambda>dt.
     bind_comp (modify (\<lambda>d. if datatype_by_name d (datatype_name dt) = None
         then add_datatype \<lparr>dt_datatype = dt, dt_description = [], dt_examples = []\<rparr> d else d)) (\<lambda>_.
     ret (datatype_name dt))))"

fun enum_values :: "xml_node list \<Rightarrow> field_enum_data list reader" where
  "enum_values [] = ret []"
| "enum_values (child # cs) =
     (if is_element child then
        bind_comp (unwrapped (attribute ''enum'' child)) (\<lambda>variant.
        bind_comp (unwrapped (attribute ''description'' child)) (\<lambda>description.
        bind_comp (enum_values cs) (\<lambda>vs.
        ret (\<lparr>fe_value = variant, fe_description = description\<rparr> # vs))))
      else enum_values cs)"

definition value_restrictions_from_node :: "xml_node \<Rightarrow> field_enum_data list option reader" where
  "value_restrictions_from_node node =
     bind_comp (enum_values (node_children node)) (\<lambda>vs. ret (if vs = [] then None else Some vs))"

definition import_field :: "xml_node \<Rightarrow> unit reader" where
  "import_field node =
     (if node_tag node \<noteq> ''field'' then throw InvalidFormat
      else
        bind_comp (import_datatype node) (\<lambda>data_type_name.
        bind_comp (value_restrictions_from_node node) (\<lambda>value_restrictions.
        bind_comp (ok_or InvalidFormat (attribute ''name'' node)) (\<lambda>name.
        bind_comp (ok_or InvalidFormat (attribute ''number'' node)) (\<lambda>number.
        bind_comp (ok_or InvalidFormat (parse_u32 number)) (\<lambda>t.
        modify (add_field \<lparr>fd_name = name, fd_tag = t, fd_data_type_name = data_type_name, fd_associated_data_tag = None,
          fd_value_restrictions = value_restrictions, fd_required = True, fd_description = None\<rparr>)))))))"

section \<open>Layouts\<close>

text \<open>The tag a field or group name stands for: an unknown name and the tag zero panic.\<close>

definition named_tag :: "string \<Rightarrow> tag reader" where
  "named_tag name =
     bind_comp (gets (\<lambda>d. field_by_name d name)) (\<lambda>f.
     bind_comp (unwrapped f) (\<lambda>f. lift_outcome (Field_tag f)))"

definition new_component :: "string \<Rightarrow> layout_item list \<Rightarrow> component_data" where
  "new_component name items = \<lparr>cd_id = 0, cd_component_type = FixmlBlock False False False, cd_layout_items = items, cd_name = name\<rparr>"

lemma size_node_children: "size_list size (node_children n) \<le> size n"
  by (cases n) (auto simp: node_children_def)

text \<open>\<open>import_layout_item\<close>, its loops over the elements among the children, and \<open>import_component\<close>, which does nothing for a
  node that only refers to a component.\<close>

function (sequential) import_layout_item :: "xml_node \<Rightarrow> layout_item reader"
  and import_layout_items :: "xml_node list \<Rightarrow> layout_item list reader"
  and import_component :: "xml_node \<Rightarrow> string \<Rightarrow> unit reader" where
  "import_layout_item node =
     bind_comp (unwrapped (attribute ''name'' node)) (\<lambda>name.
     bind_comp (unwrapped (attribute ''required'' node)) (\<lambda>required.
     bind_comp (if node_tag node = ''field'' then bind_comp (named_tag name) (\<lambda>t. ret (FieldItem t))
       else if node_tag node = ''component'' then bind_comp (import_component node name) (\<lambda>_. ret (ComponentItem name))
       else if node_tag node = ''group'' then
         bind_comp (named_tag name) (\<lambda>t.
         bind_comp (import_layout_items (node_children node)) (\<lambda>items. ret (GroupItem t items)))
       else throw InvalidFormat) (\<lambda>kind.
     ret (LayoutItem (required = ''Y'') kind))))"
| "import_layout_items [] = ret []"
| "import_layout_items (child # cs) =
     (if is_element child then
        bind_comp (import_layout_item child) (\<lambda>item.
        bind_comp (import_layout_items cs) (\<lambda>items. ret (item # items)))
      else import_layout_items cs)"
| "import_component node name =
     (if attribute ''required'' node \<noteq> None then ret ()
      else
        bind_comp (import_layout_items (node_children node)) (\<lambda>items.
        modify (add_component (new_component name items))))"
  by pat_completeness auto

termination
  by (relation "measure (\<lambda>x. case x of Inl n \<Rightarrow> 3 * size n + 3
      | Inr (Inl ns) \<Rightarrow> 3 * size_list size ns + 1 | Inr (Inr (n, _)) \<Rightarrow> 3 * size n + 2)")
    (use size_node_children in \<open>auto simp: less_Suc_eq_le intro: le_SucI\<close>)

declare import_layout_item.simps [simp del] import_component.simps [simp del]

definition import_message :: "xml_node \<Rightarrow> unit reader" where
  "import_message node =
     bind_comp (import_layout_items (node_children node)) (\<lambda>items.
     bind_comp (ok_or InvalidFormat (attribute ''name'' node)) (\<lambda>name.
     bind_comp (ok_or InvalidFormat (attribute ''msgtype'' node)) (\<lambda>mt.
     modify (add_message \<lparr>md_component_id = 0, md_msg_type = mt, md_name = name, md_layout_items = items, md_required = True,
       md_description = []\<rparr>))))"

section \<open>The reader\<close>

record quickfix_reader =
  node_with_header :: xml_node
  node_with_trailer :: xml_node
  node_with_components :: xml_node
  node_with_messages :: xml_node
  node_with_fields :: xml_node
  reader_version :: string

definition find_tagged_child :: "xml_node \<Rightarrow> string \<Rightarrow> (unit, xml_node, parse_error) comp" where
  "find_tagged_child root t =
     ok_or (InvalidData (''<'' @ t @ ''> tag not found'')) (List.find (has_tag_name t) (node_children root))"

definition QuickFixReader_empty :: "xml_node \<Rightarrow> (unit, quickfix_reader, parse_error) comp" where
  "QuickFixReader_empty root =
     bind_comp (ok_or (InvalidData ''No version attribute.'') (attribute ''type'' root)) (\<lambda>version_type.
     bind_comp (ok_or (InvalidData ''No major version attribute.'') (attribute ''major'' root)) (\<lambda>version_major.
     bind_comp (ok_or (InvalidData ''No minor version attribute.'') (attribute ''minor'' root)) (\<lambda>version_minor.
     let version_sp = (case attribute ''servicepack'' root of None \<Rightarrow> ''0'' | Some sp \<Rightarrow> sp);
         version = version_type @ ''.'' @ version_major @ ''.'' @ version_minor
           @ (if version_sp \<noteq> ''0'' then ''-SP'' @ version_sp else []) in
     bind_comp (find_tagged_child root ''header'') (\<lambda>header_node.
     bind_comp (find_tagged_child root ''trailer'') (\<lambda>trailer_node.
     bind_comp (find_tagged_child root ''messages'') (\<lambda>messages_node.
     bind_comp (find_tagged_child root ''components'') (\<lambda>components_node.
     bind_comp (find_tagged_child root ''fields'') (\<lambda>fields_node.
     ret \<lparr>node_with_header = header_node, node_with_trailer = trailer_node, node_with_components = components_node,
       node_with_messages = messages_node, node_with_fields = fields_node, reader_version = version\<rparr>))))))))"

text \<open>A loop over the elements among the children.\<close>

fun for_elements :: "(xml_node \<Rightarrow> unit reader) \<Rightarrow> xml_node list \<Rightarrow> unit reader" where
  "for_elements f [] = ret ()"
| "for_elements f (child # cs) =
     bind_comp (if is_element child then f child else ret ()) (\<lambda>_. for_elements f cs)"

definition QuickFixReader_import :: "quickfix_reader \<Rightarrow> unit reader" where
  "QuickFixReader_import r =
     bind_comp (for_elements import_field (node_children (node_with_fields r))) (\<lambda>_.
     bind_comp (for_elements (\<lambda>child. bind_comp (ok_or InvalidFormat (attribute ''name'' child)) (import_component child))
       (node_children (node_with_components r))) (\<lambda>_.
     bind_comp (for_elements import_message (node_children (node_with_messages r))) (\<lambda>_.
     bind_comp (import_component (node_with_header r) ''StandardHeader'') (\<lambda>_.
     import_component (node_with_trailer r) ''StandardTrailer''))))"

definition QuickFixReader_new :: "xml_node \<Rightarrow> (dictionary, parse_error) outcome" where
  "QuickFixReader_new root = (case QuickFixReader_empty root () of
      (Ok r, _) \<Rightarrow> (case QuickFixReader_import r (Dictionary_new (reader_version r)) of
          (Ok _, d) \<Rightarrow> Ok d
        | (Err e, _) \<Rightarrow> Err e
        | (Panic, _) \<Rightarrow> Panic)
    | (Err e, _) \<Rightarrow> Err e
    | (Panic, _) \<Rightarrow> Panic)"

definition from_quickfix_spec :: "(string \<Rightarrow> xml_node option) \<Rightarrow> string \<Rightarrow> (dictionary, parse_error) outcome" where
  "from_quickfix_spec parse input = (case parse input of
      None \<Rightarrow> Err InvalidFormat
    | Some root \<Rightarrow> QuickFixReader_new root)"

definition load_from_file ::
    "(string \<Rightarrow> xml_node option) \<Rightarrow> (string \<Rightarrow> string option) \<Rightarrow> string \<Rightarrow> (dictionary, parse_error) outcome" where
  "load_from_file parse read_to_string path = (case read_to_string path of
      None \<Rightarrow> Panic
    | Some spec \<Rightarrow> from_quickfix_spec parse spec)"

section \<open>Well-formed dictionaries\<close>

text \<open>
  The entries of a field are filed under its tag and its name, and its data type is known. Every tag a layout mentions is that of
  a known field; a component it mentions need not be there.
\<close>

definition tag_known :: "(tag \<times> field_data) list \<Rightarrow> tag \<Rightarrow> bool" where
  "tag_known fs t \<longleftrightarrow> t \<noteq> 0 \<and> (case map_of fs t of None \<Rightarrow> False | Some f \<Rightarrow> fd_tag f = t)"

primrec item_ok :: "(tag \<times> field_data) list \<Rightarrow> layout_item \<Rightarrow> bool"
  and kind_ok :: "(tag \<times> field_data) list \<Rightarrow> layout_item_kind \<Rightarrow> bool" where
  "item_ok fs (LayoutItem r k) = kind_ok fs k"
| "kind_ok fs (ComponentItem n) = True"
| "kind_ok fs (GroupItem t items) = (tag_known fs t \<and> list_all id (map (item_ok fs) items))"
| "kind_ok fs (FieldItem t) = tag_known fs t"

definition fields_ok :: "dictionary \<Rightarrow> bool" where
  "fields_ok d \<longleftrightarrow> (\<forall>n t. map_of (field_tags_by_name d) n = Some t \<longrightarrow> field_by_tag d t \<noteq> None)
     \<and> (\<forall>t f. field_by_tag d t = Some f \<longrightarrow> fd_tag f = t \<and> datatype_by_name d (fd_data_type_name f) \<noteq> None)"

definition layouts_ok :: "dictionary \<Rightarrow> bool" where
  "layouts_ok d \<longleftrightarrow> (\<forall>n c. component_by_name d n = Some c \<longrightarrow> cd_name c = n \<and> list_all (item_ok (fields_by_tags d)) (cd_layout_items c))
     \<and> (\<forall>mt m. message_by_msgtype d mt = Some m \<longrightarrow> md_msg_type m = mt \<and> list_all (item_ok (fields_by_tags d)) (md_layout_items m))
     \<and> (\<forall>n mt. map_of (message_msgtypes_by_name d) n = Some mt \<longrightarrow> message_by_msgtype d mt \<noteq> None)
     \<and> distinct (map fst (components_by_name d)) \<and> distinct (map fst (messages_by_msgtype d))"

definition dictionary_ok :: "dictionary \<Rightarrow> bool" where
  "dictionary_ok d \<longleftrightarrow> fields_ok d \<and> layouts_ok d"

lemma dictionary_ok_new: "dictionary_ok (Dictionary_new v)"
  by (simp add: dictionary_ok_def fields_ok_def layouts_ok_def Dictionary_new_def field_by_tag_def component_by_name_def
      message_by_msgtype_def)

lemma ensures_ok_or [ensures_intros]: "(\<And>a. x = Some a \<Longrightarrow> Q a) \<Longrightarrow> ensures P (ok_or e x) Q"
  by (cases x) (auto simp: ok_or_def intro: ensures_intros)

lemma ensures_unwrapped [ensures_intros]: "(\<And>a. x = Some a \<Longrightarrow> Q a) \<Longrightarrow> ensures P (unwrapped x) Q"
  by (cases x) (auto simp: unwrapped_def intro: ensures_intros)

lemma ensures_bind_option:
  "(\<And>a. x = Some a \<Longrightarrow> ensures P (f a) R) \<Longrightarrow> ensures P (bind_comp (ok_or e x) f) R"
  "(\<And>a. x = Some a \<Longrightarrow> ensures P (f a) R) \<Longrightarrow> ensures P (bind_comp (unwrapped x) f) R"
  by (cases x; simp add: ok_or_def unwrapped_def ensures_pure)+

lemma ensures_if: "(b \<Longrightarrow> ensures P m Q) \<Longrightarrow> (\<not> b \<Longrightarrow> ensures P n Q) \<Longrightarrow> ensures P (if b then m else n) Q"
  by simp

subsection \<open>Importing fields\<close>

abbreviation reading_fields :: "dictionary \<Rightarrow> bool" where
  "reading_fields d \<equiv> fields_ok d \<and> components_by_name d = [] \<and> messages_by_msgtype d = [] \<and> message_msgtypes_by_name d = []"

lemma add_datatype_simps [simp]:
  "components_by_name (add_datatype t d) = components_by_name d" "messages_by_msgtype (add_datatype t d) = messages_by_msgtype d"
  "message_msgtypes_by_name (add_datatype t d) = message_msgtypes_by_name d"
  "datatype_by_name (add_datatype t d) = (datatype_by_name d)(datatype_name (dt_datatype t) \<mapsto> t)"
  by (simp_all add: add_datatype_def datatype_by_name_def fun_eq_iff map_simps)

lemma add_field_simps [simp]:
  "components_by_name (add_field f d) = components_by_name d" "messages_by_msgtype (add_field f d) = messages_by_msgtype d"
  "message_msgtypes_by_name (add_field f d) = message_msgtypes_by_name d" "datatype_by_name (add_field f d) = datatype_by_name d"
  by (simp_all add: add_field_def datatype_by_name_def fun_eq_iff)

lemma fields_ok_add_datatype: "fields_ok d \<Longrightarrow> fields_ok (add_datatype t d)"
  by (auto simp: fields_ok_def add_datatype_def field_by_tag_def datatype_by_name_def map_simps)

lemma fields_ok_add_field:
  "fields_ok d \<Longrightarrow> datatype_by_name d (fd_data_type_name f) \<noteq> None \<Longrightarrow> fields_ok (add_field f d)"
  by (auto simp: fields_ok_def add_field_def field_by_tag_def datatype_by_name_def map_simps)

lemma ensures_enum_values [ensures_intros]: "keeps P (enum_values cs)"
  by (induction cs) (auto intro!: keeps_bind ensures_intros)

lemma ensures_value_restrictions [ensures_intros]: "keeps P (value_restrictions_from_node node)"
  unfolding value_restrictions_from_node_def by (auto intro!: keeps_bind ensures_intros)

lemma import_datatype_Ok:
  assumes "import_datatype node d = (r, d')" and "fields_ok d"
  shows "fields_ok d'" "\<And>n. r = Ok n \<Longrightarrow> datatype_by_name d' n \<noteq> None"
    "components_by_name d' = components_by_name d" "messages_by_msgtype d' = messages_by_msgtype d"
    "message_msgtypes_by_name d' = message_msgtypes_by_name d"
  using assms fields_ok_add_datatype [OF assms(2)]
  by (auto simp: import_datatype_def unwrapped_def comp_simps split: option.splits if_splits)

lemma import_field_keeps: "keeps reading_fields (import_field node)"
proof (rule ensuresI)
  fix d r d'
  assume d: "reading_fields d" and run: "import_field node d = (r, d')"
  show "reading_fields d' \<and> (\<forall>a. r = Ok a \<longrightarrow> True)"
  proof (cases "node_tag node = ''field''")
    case False
    with d run show ?thesis by (simp add: import_field_def comp_simps)
  next
    case True
    obtain x d1 where dt: "import_datatype node d = (x, d1)" by fastforce
    note ok = import_datatype_Ok [OF dt conjunct1 [OF d]]
    show ?thesis
    proof (cases x)
      case (Ok n)
      let ?P = "\<lambda>d. reading_fields d \<and> datatype_by_name d n \<noteq> None"
      let ?rest = "bind_comp (value_restrictions_from_node node) (\<lambda>value_restrictions.
        bind_comp (ok_or InvalidFormat (attribute ''name'' node)) (\<lambda>name.
        bind_comp (ok_or InvalidFormat (attribute ''number'' node)) (\<lambda>number.
        bind_comp (ok_or InvalidFormat (parse_u32 number)) (\<lambda>t.
        modify (add_field \<lparr>fd_name = name, fd_tag = t, fd_data_type_name = n, fd_associated_data_tag = None,
          fd_value_restrictions = value_restrictions, fd_required = True, fd_description = None\<rparr>)))))"
      have keeps: "keeps ?P ?rest"
        by (intro keeps_bind [OF ensures_value_restrictions] ensures_bind_option ensures_modify TrueI) (simp add: fields_ok_add_field)
      have rest: "?rest d1 = (r, d')" using run True dt Ok by (simp add: import_field_def comp_simps)
      have "?P d1" using ok d Ok by simp
      from ensuresD [OF keeps this rest] show ?thesis by simp
    qed (use run True dt ok d in \<open>auto simp: import_field_def comp_simps\<close>)
  qed
qed

subsection \<open>Importing layouts\<close>

text \<open>While layouts are read the fields stay as they are.\<close>

abbreviation reading_layouts :: "(tag \<times> field_data) list \<Rightarrow> dictionary \<Rightarrow> bool" where
  "reading_layouts fs d \<equiv> dictionary_ok d \<and> fields_by_tags d = fs"

lemma named_tag_known: "ensures (reading_layouts fs) (named_tag name) (tag_known fs)"
  unfolding named_tag_def
proof (intro ensures_bind_gets ensures_bind_option(2) ensures_lift_outcome)
  fix d f t
  assume "reading_layouts fs d" "field_by_name d name = Some f" "Field_tag f = Ok t"
  then show "tag_known fs t"
    by (auto simp: tag_known_def Field_tag_def field_by_name_def field_by_tag_def dictionary_ok_def fields_ok_def
        split: option.splits if_splits)
qed

lemma dictionary_ok_add_component:
  "dictionary_ok d \<Longrightarrow> list_all (item_ok (fields_by_tags d)) items \<Longrightarrow> dictionary_ok (add_component (new_component name items) d)"
  by (auto simp: dictionary_ok_def fields_ok_def layouts_ok_def add_component_def new_component_def component_by_name_def
      message_by_msgtype_def field_by_tag_def datatype_by_name_def map_simps distinct_im_insert)

lemma dictionary_ok_add_message:
  assumes "dictionary_ok d" and "list_all (item_ok (fields_by_tags d)) (md_layout_items m)"
  shows "dictionary_ok (add_message m d)"
  using assms
  by (auto simp: dictionary_ok_def fields_ok_def layouts_ok_def add_message_def component_by_name_def
      message_by_msgtype_def field_by_tag_def datatype_by_name_def map_simps distinct_im_insert)

lemma add_layouts_fields [simp]:
  "fields_by_tags (add_component c d) = fields_by_tags d" "fields_by_tags (add_message m d) = fields_by_tags d"
  by (simp_all add: add_component_def add_message_def)

lemma import_layout_ok:
  "ensures (reading_layouts fs) (import_layout_item node) (item_ok fs)"
  "ensures (reading_layouts fs) (import_layout_items nodes) (list_all (item_ok fs))"
  "keeps (reading_layouts fs) (import_component node name)"
proof (induction node and nodes and node name rule: import_layout_item_import_layout_items_import_component.induct)
  case (1 node)
  have "ensures (reading_layouts fs)
    (if node_tag node = ''field'' then bind_comp (named_tag name) (\<lambda>t. ret (FieldItem t))
     else if node_tag node = ''component'' then bind_comp (import_component node name) (\<lambda>_. ret (ComponentItem name))
     else if node_tag node = ''group'' then
       bind_comp (named_tag name) (\<lambda>t.
       bind_comp (import_layout_items (node_children node)) (\<lambda>items. ret (GroupItem t items)))
     else throw InvalidFormat) (kind_ok fs)" for name
    by (intro ensures_if ensures_pure keeps_bind [OF 1(1)] ensures_bind [OF named_tag_known] ensures_bind [OF 1(2)])
      (auto simp: list_all_length)
  then show ?case
    unfolding import_layout_item.simps [of node]
    by (intro ensures_bind_option(2) ensures_bind [of _ _ "kind_ok fs"] ensures_pure) auto
next
  case 2
  show ?case by (simp add: ensures_pure)
next
  case (3 child cs)
  show ?case
    by (auto intro!: ensures_bind [OF 3(1)] ensures_bind [OF 3(2)] 3(3) ensures_pure)
next
  case (4 node name)
  show ?case
    unfolding import_component.simps [of node]
    by (intro ensures_if ensures_pure TrueI ensures_bind [OF 4] ensures_modify) (auto simp: dictionary_ok_add_component)
qed

lemma import_message_keeps: "keeps (reading_layouts fs) (import_message node)"
  unfolding import_message_def
  by (intro ensures_bind [OF import_layout_ok(2)] ensures_bind_option ensures_modify TrueI) (auto simp: dictionary_ok_add_message)

lemma for_elements_keeps: "(\<And>n. keeps P (f n)) \<Longrightarrow> keeps P (for_elements f ns)"
  by (induction ns) (auto intro: keeps_bind ensures_pure)

subsection \<open>The whole document\<close>

text \<open>A component that is there stays there.\<close>

lemma add_component_stays: "component_by_name d n \<noteq> None \<Longrightarrow> component_by_name (add_component c d) n \<noteq> None"
  by (simp add: component_by_name_def add_component_def map_simps)

lemma named_tag_keeps [ensures_intros]: "keeps P (named_tag name)"
  unfolding named_tag_def by (intro ensures_bind_gets ensures_bind_option(2) ensures_lift_outcome) simp

lemma import_keeps_component:
  defines "P \<equiv> \<lambda>n d. component_by_name d n \<noteq> None"
  shows "keeps (P n) (import_layout_item node)" "keeps (P n) (import_layout_items nodes)" "keeps (P n) (import_component node name)"
proof (induction node and nodes and node name rule: import_layout_item_import_layout_items_import_component.induct)
  case (1 node)
  show ?case
    unfolding import_layout_item.simps [of node]
    by (intro ensures_bind_option(2) keeps_bind ensures_if ensures_pure TrueI keeps_bind [OF 1(1)] keeps_bind [OF 1(2)] named_tag_keeps)
next
  case 2
  show ?case by (simp add: ensures_pure)
next
  case (3 child cs)
  show ?case by (auto intro!: keeps_bind [OF 3(1)] keeps_bind [OF 3(2)] 3(3) ensures_pure)
next
  case (4 node name)
  show ?case
    unfolding import_component.simps [of node] P_def
    by (intro ensures_if ensures_pure TrueI keeps_bind [OF 4 [unfolded P_def]] ensures_modify add_component_stays)
qed

lemma import_component_there:
  assumes "import_component node name d = (Ok (), d')" and "attribute ''required'' node = None"
  shows "component_by_name d' name \<noteq> None"
  using assms
  by (auto simp: import_component.simps [of node] bind_comp_Ok comp_simps component_by_name_def add_component_def new_component_def map_simps
      split: prod.splits outcome.splits)

lemma QuickFixReader_new_OkE:
  assumes "QuickFixReader_new root = Ok d"
  obtains r d1 d2 where "QuickFixReader_empty root () = (Ok r, ())" "reading_layouts (fields_by_tags d1) d1"
    "reading_layouts (fields_by_tags d1) d2" "reading_layouts (fields_by_tags d1) d"
    "import_component (node_with_header r) ''StandardHeader'' d1 = (Ok (), d2)"
    "import_component (node_with_trailer r) ''StandardTrailer'' d2 = (Ok (), d)"
proof -
  obtain r where r: "QuickFixReader_empty root () = (Ok r, ())"
    and run: "QuickFixReader_import r (Dictionary_new (reader_version r)) = (Ok (), d)"
    using assms by (auto simp: QuickFixReader_new_def split: prod.splits outcome.splits)
  let ?comp = "\<lambda>child. bind_comp (ok_or InvalidFormat (attribute ''name'' child)) (import_component child)"
  from run obtain df dc d1 d2 where
    fields: "for_elements import_field (node_children (node_with_fields r)) (Dictionary_new (reader_version r)) = (Ok (), df)"
    and comps: "for_elements ?comp (node_children (node_with_components r)) df = (Ok (), dc)"
    and msgs: "for_elements import_message (node_children (node_with_messages r)) dc = (Ok (), d1)"
    and hd: "import_component (node_with_header r) ''StandardHeader'' d1 = (Ok (), d2)"
    and tl: "import_component (node_with_trailer r) ''StandardTrailer'' d2 = (Ok (), d)"
    unfolding QuickFixReader_import_def bind_comp_Ok by auto
  let ?fs = "fields_by_tags df"
  have "reading_fields (Dictionary_new (reader_version r))"
    using dictionary_ok_new by (simp add: dictionary_ok_def) (simp add: Dictionary_new_def)
  from ensuresD [OF for_elements_keeps [OF import_field_keeps] this fields]
  have "reading_layouts ?fs df"
    by (simp add: dictionary_ok_def layouts_ok_def component_by_name_def message_by_msgtype_def)
  have "keeps (reading_layouts ?fs) (for_elements ?comp (node_children (node_with_components r)))"
    by (intro for_elements_keeps ensures_bind_option import_layout_ok(3))
  from ensuresD [OF this \<open>reading_layouts ?fs df\<close> comps] have "reading_layouts ?fs dc" .
  from ensuresD [OF for_elements_keeps [OF import_message_keeps] this msgs] have d1: "reading_layouts ?fs d1" by simp
  from ensuresD [OF import_layout_ok(3) this hd] have d2: "reading_layouts ?fs d2" by simp
  from ensuresD [OF import_layout_ok(3) this tl] have "reading_layouts ?fs d" by simp
  with d1 d2 show ?thesis by (intro that [OF r _ _ _ hd tl]) auto
qed

lemma QuickFixReader_empty_Ok:
  "QuickFixReader_empty root () = (Ok r, ()) \<Longrightarrow> List.find (has_tag_name ''header'') (node_children root) = Some (node_with_header r)
     \<and> List.find (has_tag_name ''trailer'') (node_children root) = Some (node_with_trailer r)"
  by (auto simp: QuickFixReader_empty_def find_tagged_child_def ok_or_def comp_simps Let_def split: option.splits)

text \<open>C30. What the reader accepts is consistent. Every name and tag of a dictionary read from a specification leads to a field with that
  tag and a known data type, every field or group of a layout resolves without a panic, a message can be found under its
  name, and the header and the trailer are there unless their sections carry an attribute \<open>required\<close>.\<close>

theorem quickfix_dictionary_wf:
  assumes "from_quickfix_spec parse input = Ok d"
  shows "\<exists>root h t. parse input = Some root \<and> dictionary_ok d
    \<and> (\<forall>g f. field_by_tag d g = Some f \<longrightarrow> fix_datatype_of d f \<noteq> (Panic :: (fix_datatype, parse_error) outcome))
    \<and> List.find (has_tag_name ''header'') (node_children root) = Some h
    \<and> (attribute ''required'' h = None \<longrightarrow> component_by_name d ''StandardHeader'' \<noteq> None)
    \<and> List.find (has_tag_name ''trailer'') (node_children root) = Some t
    \<and> (attribute ''required'' t = None \<longrightarrow> component_by_name d ''StandardTrailer'' \<noteq> None)"
proof -
  obtain root where root: "parse input = Some root" "QuickFixReader_new root = Ok d"
    using assms by (auto simp: from_quickfix_spec_def split: option.splits)
  from QuickFixReader_new_OkE [OF root(2)] obtain r d1 d2 where r: "QuickFixReader_empty root () = (Ok r, ())" and ok: "dictionary_ok d"
    and hd: "import_component (node_with_header r) ''StandardHeader'' d1 = (Ok (), d2)"
    and tl: "import_component (node_with_trailer r) ''StandardTrailer'' d2 = (Ok (), d)" by blast
  have "component_by_name d ''StandardHeader'' \<noteq> None" if "attribute ''required'' (node_with_header r) = None"
    using ensuresD [OF import_keeps_component(3) _ tl] import_component_there [OF hd that] by blast
  moreover have "fix_datatype_of d f \<noteq> (Panic :: (fix_datatype, parse_error) outcome)" if "field_by_tag d g = Some f" for g f
    using ok that by (auto simp: dictionary_ok_def fields_ok_def fix_datatype_of_def split: option.splits)
  ultimately show ?thesis
    using root(1) ok QuickFixReader_empty_Ok [OF r] import_component_there [OF tl]
    by (intro exI [of _ root] exI [of _ "node_with_header r"] exI [of _ "node_with_trailer r"]) auto
qed

text \<open>A specification with a header, a trailer, two fields and one message.\<close>

definition sample_spec :: xml_node where
  "sample_spec = Element ''fix'' [(''type'', ''FIX''), (''major'', ''4''), (''minor'', ''4'')]
    [Element ''header'' [] [Element ''field'' [(''name'', ''BeginString''), (''required'', ''Y'')] []],
     Element ''trailer'' [] [],
     Element ''messages'' [] [Element ''message'' [(''name'', ''Heartbeat''), (''msgtype'', ''0'')]
       [OtherNode, Element ''field'' [(''name'', ''TestReqID''), (''required'', ''N'')] []]],
     Element ''components'' [] [],
     Element ''fields'' [] [Element ''field'' [(''number'', ''8''), (''name'', ''BeginString''), (''type'', ''STRING'')] [],
       Element ''field'' [(''number'', ''112''), (''name'', ''TestReqID''), (''type'', ''String'')] []]]"

definition sample_dictionary :: dictionary where
  "sample_dictionary = \<lparr>version = ''FIX.4.4'',
     data_types_by_name = [(''String'', \<lparr>dt_datatype = DtString, dt_description = [], dt_examples = []\<rparr>)],
     fields_by_tags =
       [(8, \<lparr>fd_name = ''BeginString'', fd_tag = 8, fd_data_type_name = ''String'', fd_associated_data_tag = None,
          fd_value_restrictions = None, fd_required = True, fd_description = None\<rparr>),
        (112, \<lparr>fd_name = ''TestReqID'', fd_tag = 112, fd_data_type_name = ''String'', fd_associated_data_tag = None,
          fd_value_restrictions = None, fd_required = True, fd_description = None\<rparr>)],
     field_tags_by_name = [(''BeginString'', 8), (''TestReqID'', 112)],
     components_by_name = [(''StandardHeader'', new_component ''StandardHeader'' [LayoutItem True (FieldItem 8)]),
       (''StandardTrailer'', new_component ''StandardTrailer'' [])],
     messages_by_msgtype = [(''0'', \<lparr>md_component_id = 0, md_msg_type = ''0'', md_name = ''Heartbeat'',
       md_layout_items = [LayoutItem False (FieldItem 112)], md_required = True, md_description = []\<rparr>)],
     message_msgtypes_by_name = [(''Heartbeat'', ''0'')]\<rparr>"

lemma sample_spec_read: "QuickFixReader_new sample_spec = Ok sample_dictionary"
proof -
  have types: "from_quickfix_name ''STRING'' = Some DtString" "from_quickfix_name ''String'' = Some DtString" by code_simp+
  have tags: "parse_u32 ''8'' = Some 8" "parse_u32 ''112'' = Some 112" by (simp_all add: bytes_simps)
  have empty: "QuickFixReader_empty sample_spec () = (Ok
      \<lparr>node_with_header = children sample_spec ! 0, node_with_trailer = children sample_spec ! 1,
       node_with_components = children sample_spec ! 3, node_with_messages = children sample_spec ! 2,
       node_with_fields = children sample_spec ! 4, reader_version = ''FIX.4.4''\<rparr>, ())"
    by (simp add: QuickFixReader_empty_def sample_spec_def find_tagged_child_def ok_or_def comp_simps attribute_def node_children_def
        has_tag_name_def)
  show ?thesis
    unfolding QuickFixReader_new_def empty
    by (simp add: QuickFixReader_import_def sample_spec_def comp_simps node_children_def is_element_def import_field_def node_tag_def
        import_datatype_def unwrapped_def ok_or_def attribute_def types tags Dictionary_new_def datatype_by_name_def add_datatype_def
        value_restrictions_from_node_def add_field_def import_component.simps import_layout_item.simps import_message_def named_tag_def
        field_by_name_def field_by_tag_def Field_tag_def add_message_def add_component_def new_component_def message_by_msgtype_def
        component_by_name_def sample_dictionary_def)
qed

theorem quickfix_dictionary_wf_witness:
  "\<exists>d. from_quickfix_spec (\<lambda>_. Some sample_spec) [] = Ok d \<and> dictionary_ok d \<and> component_by_name d ''StandardHeader'' \<noteq> None"
proof -
  obtain d where d: "from_quickfix_spec (\<lambda>_. Some sample_spec) [] = Ok d"
    using sample_spec_read by (auto simp: from_quickfix_spec_def)
  have "List.find (has_tag_name ''header'') (node_children sample_spec) = Some h \<Longrightarrow> attribute ''required'' h = None" for h
    by (auto simp: sample_spec_def node_children_def has_tag_name_def attribute_def)
  with quickfix_dictionary_wf [OF d] d show ?thesis by auto
qed

end
