(* ===== verification/Specification.thy ===== *)
theory Specification
  imports Message_Builder Quickfix_Reader
begin

text \<open>
  How \<open>MessageBuilder::new\<close> turns a dictionary into the specifications the parser works with (\<^verbatim>\<open>hotfix-message/src/builder.rs\<close>): the tags
  of the header and the trailer, and for every message its fields and its repeating groups, with components expanded.
  The expansion follows the component names of the dictionary, so its recursion is bounded by fuel: \<open>None\<close> is a call stack that
  has run out. The last part shows when a bound suffices, what the result contains, and the dictionaries it fails on.
\<close>

section \<open>Extraction\<close>

fun collect_field_tags :: "dictionary \<Rightarrow> layout_item list \<Rightarrow> tag list \<Rightarrow> (tag list, parser_error) outcome" where
  "collect_field_tags d [] tags = Ok tags"
| "collect_field_tags d (item # items) tags = (case resolve_item_kind d (item_kind item) of
      Ok (ResolvedField f) \<Rightarrow> (case Field_tag f of
          Ok t \<Rightarrow> collect_field_tags d items (List.insert t tags)
        | Err e \<Rightarrow> Err e
        | Panic \<Rightarrow> Panic)
    | Ok _ \<Rightarrow> collect_field_tags d items tags
    | Err e \<Rightarrow> Err e
    | Panic \<Rightarrow> Panic)"

definition get_tags_for_component :: "dictionary \<Rightarrow> string \<Rightarrow> (tag list, parser_error) outcome" where
  "get_tags_for_component d component_name = (case component_by_name d component_name of
      None \<Rightarrow> Err (InvalidComponent component_name)
    | Some c \<Rightarrow> collect_field_tags d (cd_layout_items c) [])"

text \<open>\<^verbatim>\<open>.flat_map(f).flatten().collect()\<close> over results: an error contributes nothing.\<close>

fun flatten_results :: "('a list, 'e) outcome option list \<Rightarrow> ('a list, 'f) outcome option" where
  "flatten_results [] = Some (Ok [])"
| "flatten_results (None # rs) = None"
| "flatten_results (Some Panic # rs) = Some Panic"
| "flatten_results (Some (Err _) # rs) = flatten_results rs"
| "flatten_results (Some (Ok xs) # rs) = (case flatten_results rs of
      Some (Ok ys) \<Rightarrow> Some (Ok (xs @ ys))
    | r \<Rightarrow> r)"

text \<open>\<^verbatim>\<open>groups.extend(f(i)?)\<close> in a loop.\<close>

fun extend_groups :: "(tag \<times> group_spec) list \<Rightarrow> ((tag \<times> group_spec) list, 'e) outcome option list
    \<Rightarrow> ((tag \<times> group_spec) list, 'e) outcome option" where
  "extend_groups acc [] = Some (Ok acc)"
| "extend_groups acc (Some (Ok gs) # rs) = extend_groups (foldl (\<lambda>m (k, g). im_insert k g m) acc gs) rs"
| "extend_groups acc (r # rs) = r"

fun extract_fields :: "nat \<Rightarrow> dictionary \<Rightarrow> layout_item \<Rightarrow> (field_spec list, parser_error) outcome option" where
  "extract_fields 0 d item = None"
| "extract_fields (Suc n) d item = (case (resolve_item_kind d (item_kind item) :: (resolved_kind, parser_error) outcome) of
      Ok (ResolvedComponent c) \<Rightarrow> (case component_by_name d (cd_name c) of
          None \<Rightarrow> Some (Err (InvalidComponent (cd_name c)))
        | Some component \<Rightarrow> flatten_results (map (\<lambda>i. extract_fields n d i) (cd_layout_items component)))
    | Ok (ResolvedField f) \<Rightarrow> Some (case Field_tag f of Ok t \<Rightarrow> Ok [FieldSpec t (required item)] | Err e \<Rightarrow> Err e | Panic \<Rightarrow> Panic)
    | Ok (ResolvedGroup f _) \<Rightarrow> Some (case Field_tag f of Ok t \<Rightarrow> Ok [FieldSpec t (required item)] | Err e \<Rightarrow> Err e | Panic \<Rightarrow> Panic)
    | Err e \<Rightarrow> Some (Err e)
    | Panic \<Rightarrow> Some Panic)"

fun extract_groups :: "nat \<Rightarrow> dictionary \<Rightarrow> layout_item \<Rightarrow> ((tag \<times> group_spec) list, parser_error) outcome option" where
  "extract_groups 0 d item = None"
| "extract_groups (Suc n) d item = (case (resolve_item_kind d (item_kind item) :: (resolved_kind, parser_error) outcome) of
      Ok (ResolvedComponent c) \<Rightarrow> (case component_by_name d (cd_name c) of
          None \<Rightarrow> Some (Err (InvalidComponent (cd_name c)))
        | Some component \<Rightarrow> extend_groups [] (map (\<lambda>i. extract_groups n d i) (cd_layout_items component)))
    | Ok (ResolvedGroup f items) \<Rightarrow> (case extend_groups [] (map (\<lambda>i. extract_groups n d i) items) of
          Some (Ok nested) \<Rightarrow> (case Field_tag f of
              Ok t \<Rightarrow> (case (flatten_results (map (\<lambda>i. extract_fields n d i) items) :: (field_spec list, parser_error) outcome option) of
                  Some (Ok fs) \<Rightarrow> Some (Ok [(t, GroupSpec t fs nested)])
                | Some (Err e) \<Rightarrow> Some (Err e)
                | Some Panic \<Rightarrow> Some Panic
                | None \<Rightarrow> None)
            | Err e \<Rightarrow> Some (Err e)
            | Panic \<Rightarrow> Some Panic)
        | r \<Rightarrow> r)
    | Ok (ResolvedField f) \<Rightarrow> Some (Ok [])
    | Err e \<Rightarrow> Some (Err e)
    | Panic \<Rightarrow> Some Panic)"

definition message_spec_of :: "nat \<Rightarrow> dictionary \<Rightarrow> message_data \<Rightarrow> (message_spec, parser_error) outcome option" where
  "message_spec_of n d m = (case flatten_results (map (extract_fields n d) (md_layout_items m)) of
      Some (Ok fs) \<Rightarrow> (case extend_groups [] (map (extract_groups n d) (md_layout_items m)) of
          Some (Ok groups) \<Rightarrow> Some (Ok \<lparr>ms_fields = fs, ms_groups = groups\<rparr>)
        | Some (Err e) \<Rightarrow> Some (Err e)
        | Some Panic \<Rightarrow> Some Panic
        | None \<Rightarrow> None)
    | Some (Err e) \<Rightarrow> Some (Err e)
    | Some Panic \<Rightarrow> Some Panic
    | None \<Rightarrow> None)"

fun build_specifications_loop :: "nat \<Rightarrow> dictionary \<Rightarrow> message_data list \<Rightarrow> (string \<times> message_spec) list
    \<Rightarrow> ((string \<times> message_spec) list, parser_error) outcome option" where
  "build_specifications_loop n d [] acc = Some (Ok acc)"
| "build_specifications_loop n d (m # ms) acc = (case message_spec_of n d m of
      Some (Ok spec) \<Rightarrow> build_specifications_loop n d ms (im_insert (md_msg_type m) spec acc)
    | Some (Err e) \<Rightarrow> Some (Err e)
    | Some Panic \<Rightarrow> Some Panic
    | None \<Rightarrow> None)"

definition build_message_specifications ::
    "nat \<Rightarrow> dictionary \<Rightarrow> ((string \<times> message_spec) list, parser_error) outcome option" where
  "build_message_specifications n d = build_specifications_loop n d (messages d) []"

definition MessageBuilder_new :: "nat \<Rightarrow> dictionary \<Rightarrow> msg_config \<Rightarrow> (message_builder, parser_error) outcome option" where
  "MessageBuilder_new n d cfg = (case get_tags_for_component d ''StandardHeader'' of
      Ok htags \<Rightarrow> (case get_tags_for_component d ''StandardTrailer'' of
          Ok ttags \<Rightarrow> (case build_message_specifications n d of
              Some (Ok specs) \<Rightarrow> Some (Ok \<lparr>dict = d, header_tags = htags, trailer_tags = ttags, message_specification = specs, config = cfg\<rparr>)
            | Some (Err e) \<Rightarrow> Some (Err e)
            | Some Panic \<Rightarrow> Some Panic
            | None \<Rightarrow> None)
        | Err e \<Rightarrow> Some (Err e)
        | Panic \<Rightarrow> Some Panic)
    | Err e \<Rightarrow> Some (Err e)
    | Panic \<Rightarrow> Some Panic)"

section \<open>Fuel\<close>

lemma flatten_results_mono:
  assumes "flatten_results (map f xs) = Some r" and "\<And>x y. x \<in> set xs \<Longrightarrow> f x = Some y \<Longrightarrow> g x = Some y"
  shows "flatten_results (map g xs) = Some r"
  using assms
proof (induction xs arbitrary: r)
  case (Cons x xs)
  from Cons.prems(1) obtain y where y: "f x = Some y" by (cases "f x") auto
  then have "g x = Some y" using Cons.prems(2) by simp
  with y Cons show ?case by (cases y) (auto split: option.splits)
qed simp

lemma extend_groups_mono:
  assumes "extend_groups acc (map f xs) = Some r" and "\<And>x y. x \<in> set xs \<Longrightarrow> f x = Some y \<Longrightarrow> g x = Some y"
  shows "extend_groups acc (map g xs) = Some r"
  using assms
proof (induction xs arbitrary: acc r)
  case (Cons x xs)
  from Cons.prems(1) obtain y where y: "f x = Some y" by (cases "f x") auto
  then have "g x = Some y" using Cons.prems(2) by simp
  with y Cons show ?case by (cases y) auto
qed simp

lemma extract_fields_mono: "extract_fields n d item = Some r \<Longrightarrow> n \<le> m \<Longrightarrow> extract_fields m d item = Some r"
proof (induction n arbitrary: m item r)
  case (Suc n)
  obtain m' where m: "m = Suc m'" "n \<le> m'" using Suc.prems(2) by (cases m) auto
  have "flatten_results (map (\<lambda>i. extract_fields m' d i) items) = Some r"
    if "flatten_results (map (\<lambda>i. extract_fields n d i) items) = Some r" for items and r :: "(field_spec list, parser_error) outcome"
    by (rule flatten_results_mono [OF that]) (rule Suc.IH [OF _ m(2)])
  then show ?case using Suc.prems(1) by (auto simp: m(1) split: outcome.splits resolved_kind.splits option.splits)
qed simp

lemma extract_groups_mono: "extract_groups n d item = Some r \<Longrightarrow> n \<le> m \<Longrightarrow> extract_groups m d item = Some r"
proof (induction n arbitrary: m item r)
  case (Suc n)
  obtain m' where m: "m = Suc m'" "n \<le> m'" using Suc.prems(2) by (cases m) auto
  have fields: "flatten_results (map (\<lambda>i. extract_fields m' d i) items) = Some r"
    if "flatten_results (map (\<lambda>i. extract_fields n d i) items) = Some r" for items and r :: "(field_spec list, parser_error) outcome"
    by (rule flatten_results_mono [OF that]) (rule extract_fields_mono [OF _ m(2)])
  have groups: "extend_groups acc (map (\<lambda>i. extract_groups m' d i) items) = Some r"
    if "extend_groups acc (map (\<lambda>i. extract_groups n d i) items) = Some r" for acc items r
    by (rule extend_groups_mono [OF that]) (rule Suc.IH [OF _ m(2)])
  show ?case
    using Suc.prems(1) fields groups
    by (auto simp: m(1) split: outcome.splits resolved_kind.splits option.splits)
qed simp

text \<open>A bound for every element of a list gives one for the list.\<close>

lemma common_bound:
  assumes "\<And>x. x \<in> set xs \<Longrightarrow> \<exists>n y. f n x = Some (Ok y)" and "\<And>n m x r. f n x = Some r \<Longrightarrow> n \<le> m \<Longrightarrow> f m x = Some r"
  shows "\<exists>n :: nat. \<forall>x \<in> set xs. \<exists>y. f n x = Some (Ok y)"
  using assms(1)
proof (induction xs)
  case (Cons x xs)
  then obtain n k y where n: "\<forall>x \<in> set xs. \<exists>y. f n x = Some (Ok y)" and k: "f k x = Some (Ok y)"
    by (metis list.set_intros(1,2))
  have "\<forall>x \<in> set (x # xs). \<exists>y. f (max n k) x = Some (Ok y)"
    using n k assms(2) max.cobounded1 max.cobounded2 by (metis set_ConsD)
  then show ?case by blast
qed simp

lemma flatten_results_ok: "\<forall>x \<in> set xs. \<exists>y. f x = Some (Ok y) \<Longrightarrow> \<exists>ys. flatten_results (map f xs) = Some (Ok ys)"
  by (induction xs) auto

lemma extend_groups_ok: "\<forall>x \<in> set xs. \<exists>y. f x = Some (Ok y) \<Longrightarrow> \<exists>ys. extend_groups acc (map f xs) = Some (Ok ys)"
  by (induction xs arbitrary: acc) auto

section \<open>Dictionaries whose components can be expanded\<close>

primrec item_refs :: "layout_item \<Rightarrow> string set" and kind_refs :: "layout_item_kind \<Rightarrow> string set" where
  "item_refs (LayoutItem r k) = kind_refs k"
| "kind_refs (ComponentItem n) = {n}"
| "kind_refs (GroupItem t items) = \<Union> (set (map item_refs items))"
| "kind_refs (FieldItem t) = {}"

text \<open>Every component that is mentioned exists, and a component mentions only components of a lower rank.\<close>

definition expandable :: "dictionary \<Rightarrow> (string \<Rightarrow> nat) \<Rightarrow> bool" where
  "expandable d rk \<longleftrightarrow>
     (\<forall>n c. component_by_name d n = Some c \<longrightarrow>
        (\<forall>i \<in> set (cd_layout_items c). \<forall>m \<in> item_refs i. component_by_name d m \<noteq> None \<and> rk m < rk n))
     \<and> (\<forall>mt m. message_by_msgtype d mt = Some m \<longrightarrow>
        (\<forall>i \<in> set (md_layout_items m). \<forall>n \<in> item_refs i. component_by_name d n \<noteq> None))"

lemma tag_known_resolves:
  assumes "tag_known (fields_by_tags d) t"
  obtains f where "field_by_tag d t = Some f" "Field_tag f = (Ok t :: (tag, 'e) outcome)"
  using assms by (auto simp: tag_known_def field_by_tag_def Field_tag_def split: option.splits)

lemma component_known:
  assumes "dictionary_ok d" and "component_by_name d n = Some c"
  shows "cd_name c = n" "\<And>i. i \<in> set (cd_layout_items c) \<Longrightarrow> item_ok (fields_by_tags d) i"
  using assms by (auto simp: dictionary_ok_def layouts_ok_def list_all_iff)

lemma extract_fields_returns:
  assumes ok: "dictionary_ok d" and ex: "expandable d rk"
    and "item_ok (fields_by_tags d) item" and "\<And>m. m \<in> item_refs item \<Longrightarrow> component_by_name d m \<noteq> None \<and> rk m < R"
  shows "\<exists>n fs. extract_fields n d item = Some (Ok fs)"
  using assms(3,4)
proof (induction R arbitrary: item rule: less_induct)
  case (less R)
  obtain r k where item: "item = LayoutItem r k" by (cases item)
  have tag: "\<exists>n fs. extract_fields n d item = Some (Ok fs)" if "tag_known (fields_by_tags d) t" "k = FieldItem t \<or> k = GroupItem t items" for t items
  proof -
    from that(1) obtain f where "field_by_tag d t = Some f" "Field_tag f = (Ok t :: (tag, parser_error) outcome)"
      by (rule tag_known_resolves)
    then have "extract_fields (Suc 0) d item = Some (Ok [FieldSpec t r])" using that(2) by (auto simp: item resolve_item_kind_def)
    then show ?thesis by blast
  qed
  show ?case
  proof (cases k)
    case (ComponentItem m)
    with less.prems(2) item obtain c where c: "component_by_name d m = Some c" and m: "rk m < R" by auto
    note known = component_known [OF ok c]
    have "\<exists>n fs. extract_fields n d i = Some (Ok fs)" if i: "i \<in> set (cd_layout_items c)" for i
      using ex c i by (intro less.IH [OF m known(2) [OF i]]) (auto simp: expandable_def)
    then obtain n where "\<forall>i \<in> set (cd_layout_items c). \<exists>fs. extract_fields n d i = Some (Ok fs)"
      using common_bound [of "cd_layout_items c" "\<lambda>n. extract_fields n d"] extract_fields_mono by blast
    then obtain fs where "(flatten_results (map (extract_fields n d) (cd_layout_items c)) :: (field_spec list, parser_error) outcome option)
        = Some (Ok fs)"
      using flatten_results_ok by blast
    then have "extract_fields (Suc n) d item = Some (Ok fs)" using c known(1) by (simp add: item ComponentItem resolve_item_kind_def)
    then show ?thesis by blast
  qed (use tag less.prems(1) in \<open>auto simp: item\<close>)
qed

lemma extract_groups_returns:
  assumes ok: "dictionary_ok d" and ex: "expandable d rk"
    and "item_ok (fields_by_tags d) item" and "\<And>m. m \<in> item_refs item \<Longrightarrow> component_by_name d m \<noteq> None \<and> rk m < R"
  shows "\<exists>n gs. extract_groups n d item = Some (Ok gs)"
  using assms(3,4)
proof (induction R arbitrary: item rule: less_induct)
  case (less R)
  note outer = less.IH
  show ?case
    using less.prems
  proof (induction "size item" arbitrary: item rule: less_induct)
    case less
    obtain r k where item: "item = LayoutItem r k" by (cases item)
    show ?case
    proof (cases k)
      case (ComponentItem m)
      with less.prems(2) item obtain c where c: "component_by_name d m = Some c" and m: "rk m < R" by auto
      note known = component_known [OF ok c]
      have "\<exists>n gs. extract_groups n d i = Some (Ok gs)" if i: "i \<in> set (cd_layout_items c)" for i
        using ex c i by (intro outer [OF m known(2) [OF i]]) (auto simp: expandable_def)
      then obtain n where "\<forall>i \<in> set (cd_layout_items c). \<exists>gs. extract_groups n d i = Some (Ok gs)"
        using common_bound [of "cd_layout_items c" "\<lambda>n. extract_groups n d"] extract_groups_mono by blast
      then obtain gs where "extend_groups [] (map (extract_groups n d) (cd_layout_items c)) = Some (Ok gs)"
        using extend_groups_ok by blast
      then have "extract_groups (Suc n) d item = Some (Ok gs)" using c known(1) by (simp add: item ComponentItem resolve_item_kind_def)
      then show ?thesis by blast
    next
      case (GroupItem t items)
      have sub: "item_ok (fields_by_tags d) i" "\<And>m. m \<in> item_refs i \<Longrightarrow> component_by_name d m \<noteq> None \<and> rk m < R" "size i < size item"
        if "i \<in> set items" for i
        using less.prems that size_list_estimation' [OF that order_refl, of size] by (auto simp: item GroupItem list_all_iff)
      obtain n where n: "\<forall>i \<in> set items. \<exists>gs. extract_groups n d i = Some (Ok gs)"
        using common_bound [of items "\<lambda>n. extract_groups n d"] less.hyps sub extract_groups_mono by blast
      have "\<exists>k fs. extract_fields k d i = Some (Ok fs)" if "i \<in> set items" for i
        by (rule extract_fields_returns [OF ok ex sub(1) [OF that] sub(2) [OF that]])
      then obtain k where k: "\<forall>i \<in> set items. \<exists>fs. extract_fields k d i = Some (Ok fs)"
        using common_bound [of items "\<lambda>n. extract_fields n d"] extract_fields_mono by blast
      let ?n = "max n k"
      obtain gs where "extend_groups [] (map (extract_groups ?n d) items) = Some (Ok gs)"
        using extend_groups_ok [of items "extract_groups ?n d"] n extract_groups_mono max.cobounded1 by metis
      moreover obtain fs where "flatten_results (map (extract_fields ?n d) items) = Some (Ok fs :: (field_spec list, parser_error) outcome)"
        using flatten_results_ok [of items "extract_fields ?n d"] k extract_fields_mono max.cobounded2 by metis
      moreover obtain f where "field_by_tag d t = Some f" "Field_tag f = (Ok t :: (tag, parser_error) outcome)"
        using tag_known_resolves less.prems(1) by (auto simp: item GroupItem)
      ultimately have "extract_groups (Suc ?n) d item = Some (Ok [(t, GroupSpec t fs gs)])"
        by (simp add: item GroupItem resolve_item_kind_def)
      then show ?thesis by blast
    next
      case (FieldItem t)
      obtain f where "field_by_tag d t = Some f" "Field_tag f = (Ok t :: (tag, parser_error) outcome)"
        using tag_known_resolves less.prems(1) by (auto simp: item FieldItem)
      then have "extract_groups (Suc 0) d item = Some (Ok [])" by (simp add: item FieldItem resolve_item_kind_def)
      then show ?thesis by blast
    qed
  qed
qed

section \<open>What a specification contains\<close>

text \<open>The tags of a layout with its components expanded; a group stands for its count field.\<close>

inductive tag_occurs :: "dictionary \<Rightarrow> layout_item \<Rightarrow> tag \<Rightarrow> bool" for d where
  occurs_field: "tag_occurs d (LayoutItem r (FieldItem t)) t"
| occurs_group: "tag_occurs d (LayoutItem r (GroupItem t items)) t"
| occurs_component: "component_by_name d n = Some c \<Longrightarrow> i \<in> set (cd_layout_items c) \<Longrightarrow> tag_occurs d i t
    \<Longrightarrow> tag_occurs d (LayoutItem r (ComponentItem n)) t"

inductive_simps tag_occurs_simps [simp]:
  "tag_occurs d (LayoutItem r (FieldItem t)) u"
  "tag_occurs d (LayoutItem r (GroupItem t items)) u"
  "tag_occurs d (LayoutItem r (ComponentItem n)) u"

lemma flatten_results_no_err: "(flatten_results rs :: ('a list, 'e) outcome option) \<noteq> Some (Err e)"
  by (induction rs rule: flatten_results.induct) (auto split: option.splits outcome.splits)

lemma resolve_component: "resolve_item_kind d k = Ok (ResolvedComponent c) \<Longrightarrow> \<exists>n. k = ComponentItem n \<and> component_by_name d n = Some c"
  by (auto simp: resolve_item_kind_def split: layout_item_kind.splits option.splits)

lemma resolve_no_err: "resolve_item_kind d k \<noteq> (Err e :: (resolved_kind, 'e) outcome)" "Field_tag f \<noteq> (Err e :: (tag, 'e) outcome)"
  by (auto simp: resolve_item_kind_def Field_tag_def split: layout_item_kind.splits option.splits)

lemma extract_fields_no_err:
  assumes "dictionary_ok d"
  shows "extract_fields n d item \<noteq> Some (Err e)"
  using assms
  by (cases n) (auto simp: flatten_results_no_err resolve_no_err dest!: resolve_component dest: component_known
      split: outcome.splits resolved_kind.splits option.splits)

lemma flatten_results_set:
  assumes "flatten_results (map f xs) = (Some (Ok ys) :: ('a list, 'e) outcome option)"
    and "\<And>x e. x \<in> set xs \<Longrightarrow> f x \<noteq> Some (Err e)"
  shows "(\<forall>x \<in> set xs. \<exists>zs. f x = Some (Ok zs)) \<and> set ys = {y. \<exists>x \<in> set xs. \<exists>zs. f x = Some (Ok zs) \<and> y \<in> set zs}"
  using assms
proof (induction xs arbitrary: ys)
  case (Cons x xs)
  then show ?case
  proof (cases "f x")
    case (Some r)
    then obtain zs where r: "r = Ok zs" using Cons.prems by (cases r) auto
    with Some Cons.prems(1) obtain us where us: "flatten_results (map f xs) = (Some (Ok us) :: ('a list, 'e) outcome option)" "ys = zs @ us"
      by (auto split: option.splits outcome.splits)
    with Cons.IH [OF us(1)] Cons.prems(2) Some r show ?thesis by auto
  qed simp
qed simp

lemma flatten_results_tags:
  assumes "flatten_results (map f xs) = (Some (Ok fs) :: (field_spec list, 'e) outcome option)"
    and "\<And>x e. x \<in> set xs \<Longrightarrow> f x \<noteq> Some (Err e)"
    and tags: "\<And>x zs. f x = Some (Ok zs) \<Longrightarrow> spec_tag ` set zs = {t. P x t}"
  shows "t \<in> spec_tag ` set fs \<longleftrightarrow> (\<exists>x \<in> set xs. P x t)"
proof -
  from flatten_results_set [OF assms(1,2)] have all: "\<forall>x \<in> set xs. \<exists>zs. f x = Some (Ok zs)"
    and "t \<in> spec_tag ` set fs \<longleftrightarrow> (\<exists>x \<in> set xs. \<exists>zs. f x = Some (Ok zs) \<and> t \<in> spec_tag ` set zs)"
    by auto
  then show ?thesis using tags by blast
qed

lemma extract_fields_tags:
  assumes ok: "dictionary_ok d"
  shows "extract_fields n d item = Some (Ok fs) \<Longrightarrow> spec_tag ` set fs = {t. tag_occurs d item t}"
proof (induction n arbitrary: item fs)
  case (Suc n)
  obtain r k where item: "item = LayoutItem r k" by (cases item)
  have tag: "fd_tag f = t" if "field_by_tag d t = Some f" for t f
    using ok that by (auto simp: dictionary_ok_def fields_ok_def)
  show ?case
  proof (cases k)
    case (ComponentItem m)
    with Suc.prems item obtain c where c: "component_by_name d m = Some c"
      by (auto simp: resolve_item_kind_def split: option.splits)
    with Suc.prems have "flatten_results (map (extract_fields n d) (cd_layout_items c)) = Some (Ok fs :: (field_spec list, parser_error) outcome)"
      using component_known(1) [OF ok c] by (simp add: item ComponentItem resolve_item_kind_def)
    then have "t \<in> spec_tag ` set fs \<longleftrightarrow> (\<exists>i \<in> set (cd_layout_items c). tag_occurs d i t)" for t
      by (rule flatten_results_tags [OF _ extract_fields_no_err [OF ok] Suc.IH])
    with c show ?thesis by (auto simp: item ComponentItem set_eq_iff)
  qed (use Suc.prems tag in \<open>auto simp: item resolve_item_kind_def Field_tag_def split: option.splits if_splits\<close>)
qed simp

lemma message_spec_tags:
  assumes ok: "dictionary_ok d" and spec: "message_spec_of n d m = Some (Ok spec)"
  shows "ms_contains_tag spec t \<longleftrightarrow> (\<exists>i \<in> set (md_layout_items m). tag_occurs d i t)"
proof -
  have "flatten_results (map (extract_fields n d) (md_layout_items m)) = (Some (Ok (ms_fields spec)) :: (field_spec list, parser_error) outcome option)"
    using spec by (auto simp: message_spec_of_def split: option.splits outcome.splits)
  then have tags: "t \<in> spec_tag ` set (ms_fields spec) \<longleftrightarrow> (\<exists>i \<in> set (md_layout_items m). tag_occurs d i t)"
    by (rule flatten_results_tags [OF _ extract_fields_no_err [OF ok] extract_fields_tags [OF ok]])
  have "ms_contains_tag spec t \<longleftrightarrow> t \<in> spec_tag ` set (ms_fields spec)"
    by (auto simp: ms_contains_tag_def list_ex_iff)
  with tags show ?thesis by simp
qed

section \<open>The builder\<close>

lemma extract_fields_bound:
  "(\<And>i. i \<in> set items \<Longrightarrow> \<exists>n fs. extract_fields n d i = Some (Ok fs)) \<Longrightarrow> \<exists>n. \<forall>i \<in> set items. \<exists>fs. extract_fields n d i = Some (Ok fs)"
  by (rule common_bound [of items "\<lambda>n. extract_fields n d"]) (assumption, erule extract_fields_mono)

lemma extract_groups_bound:
  "(\<And>i. i \<in> set items \<Longrightarrow> \<exists>n gs. extract_groups n d i = Some (Ok gs)) \<Longrightarrow> \<exists>n. \<forall>i \<in> set items. \<exists>gs. extract_groups n d i = Some (Ok gs)"
  by (rule common_bound [of items "\<lambda>n. extract_groups n d"]) (assumption, erule extract_groups_mono)

lemma message_spec_of_mono: "message_spec_of n d m = Some r \<Longrightarrow> n \<le> k \<Longrightarrow> message_spec_of k d m = Some r"
proof -
  assume run: "message_spec_of n d m = Some r" and le: "n \<le> k"
  have fields: "flatten_results (map (extract_fields k d) items) = Some r"
    if "flatten_results (map (extract_fields n d) items) = Some r" for items and r :: "(field_spec list, parser_error) outcome"
    by (rule flatten_results_mono [OF that]) (rule extract_fields_mono [OF _ le])
  have groups: "extend_groups acc (map (extract_groups k d) items) = Some r"
    if "extend_groups acc (map (extract_groups n d) items) = Some r" for acc items r
    by (rule extend_groups_mono [OF that]) (rule extract_groups_mono [OF _ le])
  show ?thesis using run fields groups by (auto simp: message_spec_of_def split: option.splits outcome.splits)
qed

lemma finite_refs: "finite (item_refs i)" "finite (kind_refs k)"
  by (induction i and k) auto

lemma message_spec_returns:
  assumes ok: "dictionary_ok d" and ex: "expandable d rk" and m: "message_by_msgtype d mt = Some m"
  shows "\<exists>n spec. message_spec_of n d m = Some (Ok spec)"
proof -
  obtain R where R: "\<forall>n \<in> \<Union> (item_refs ` set (md_layout_items m)). rk n < R"
  proof -
    have "finite (\<Union> (item_refs ` set (md_layout_items m)))" using finite_refs by blast
    then show ?thesis using that [of "Suc (Max (rk ` \<Union> (item_refs ` set (md_layout_items m))))"]
      by (metis (no_types, lifting) Max_ge finite_imageI imageI less_Suc_eq_le)
  qed
  have item: "item_ok (fields_by_tags d) i" "\<And>n. n \<in> item_refs i \<Longrightarrow> component_by_name d n \<noteq> None \<and> rk n < R"
    if "i \<in> set (md_layout_items m)" for i
    using ok ex m that R by (auto simp: dictionary_ok_def layouts_ok_def list_all_iff expandable_def)
  have "\<exists>n fs. extract_fields n d i = Some (Ok fs)" "\<exists>n gs. extract_groups n d i = Some (Ok gs)" if "i \<in> set (md_layout_items m)" for i
    using extract_fields_returns [OF ok ex item [OF that]] extract_groups_returns [OF ok ex item [OF that]] by blast+
  then obtain n k where n: "\<forall>i \<in> set (md_layout_items m). \<exists>fs. extract_fields n d i = Some (Ok fs)"
    and k: "\<forall>i \<in> set (md_layout_items m). \<exists>gs. extract_groups k d i = Some (Ok gs)"
    using extract_fields_bound [of "md_layout_items m" d] extract_groups_bound [of "md_layout_items m" d] by blast
  let ?n = "max n k"
  have "\<forall>i \<in> set (md_layout_items m). \<exists>fs. extract_fields ?n d i = Some (Ok fs)"
    using n extract_fields_mono [OF _ max.cobounded1 [of n k]] by blast
  moreover have "\<forall>i \<in> set (md_layout_items m). \<exists>gs. extract_groups ?n d i = Some (Ok gs)"
    using k extract_groups_mono [OF _ max.cobounded2 [of k n]] by blast
  ultimately obtain fs gs where "flatten_results (map (extract_fields ?n d) (md_layout_items m)) = Some (Ok fs :: (field_spec list, parser_error) outcome)"
    "extend_groups [] (map (extract_groups ?n d) (md_layout_items m)) = Some (Ok gs)"
    using flatten_results_ok [of "md_layout_items m" "extract_fields ?n d"] extend_groups_ok [of "md_layout_items m" "extract_groups ?n d"]
    by blast
  then have "message_spec_of ?n d m = Some (Ok \<lparr>ms_fields = fs, ms_groups = gs\<rparr>)" by (simp add: message_spec_of_def)
  then show ?thesis by blast
qed

lemma build_specifications_loop_ok:
  assumes "\<forall>m \<in> set ms. \<exists>spec. message_spec_of n d m = Some (Ok spec)" and "distinct (map md_msg_type ms)"
  shows "\<exists>specs. build_specifications_loop n d ms acc = Some (Ok specs)
    \<and> (\<forall>m \<in> set ms. \<exists>spec. message_spec_of n d m = Some (Ok spec) \<and> map_of specs (md_msg_type m) = Some spec)
    \<and> (\<forall>mt. mt \<notin> md_msg_type ` set ms \<longrightarrow> map_of specs mt = map_of acc mt)"
  using assms
proof (induction ms arbitrary: acc)
  case (Cons m ms)
  then obtain spec where spec: "message_spec_of n d m = Some (Ok spec)" by auto
  from Cons.IH [of "im_insert (md_msg_type m) spec acc"] Cons.prems obtain specs where
    "build_specifications_loop n d ms (im_insert (md_msg_type m) spec acc) = Some (Ok specs)"
    "\<forall>m \<in> set ms. \<exists>spec. message_spec_of n d m = Some (Ok spec) \<and> map_of specs (md_msg_type m) = Some spec"
    "\<forall>mt. mt \<notin> md_msg_type ` set ms \<longrightarrow> map_of specs mt = map_of (im_insert (md_msg_type m) spec acc) mt" by auto
  with spec Cons.prems(2) show ?case by (auto simp: map_simps)
qed simp

lemma build_specifications_loop_cong:
  "(\<And>m. m \<in> set ms \<Longrightarrow> message_spec_of n d m = message_spec_of k d m)
    \<Longrightarrow> build_specifications_loop n d ms acc = build_specifications_loop k d ms acc"
  by (induction ms arbitrary: acc) (auto split: option.split outcome.split)

lemma collect_field_tags_ok:
  assumes ok: "dictionary_ok d" and ref: "\<And>i n. i \<in> set items \<Longrightarrow> n \<in> item_refs i \<Longrightarrow> component_by_name d n \<noteq> None"
    and items: "\<And>i. i \<in> set items \<Longrightarrow> item_ok (fields_by_tags d) i"
  shows "\<exists>tags. collect_field_tags d items acc = Ok tags
    \<and> (\<forall>t. t \<in> set tags \<longleftrightarrow> t \<in> set acc \<or> (\<exists>r. LayoutItem r (FieldItem t) \<in> set items))"
  using ref items
proof (induction items arbitrary: acc)
  case (Cons item items)
  obtain r k where item: "item = LayoutItem r k" by (cases item)
  have IH: "\<exists>tags. collect_field_tags d items acc = Ok tags
    \<and> (\<forall>t. t \<in> set tags \<longleftrightarrow> t \<in> set acc \<or> (\<exists>r. LayoutItem r (FieldItem t) \<in> set items))" for acc
    by (rule Cons.IH [OF Cons.prems(1) [OF list.set_intros(2)] Cons.prems(2) [OF list.set_intros(2)]])
  have tag: "\<exists>f. field_by_tag d t = Some f \<and> Field_tag f = (Ok t :: (tag, parser_error) outcome)" if "tag_known (fields_by_tags d) t" for t
    using tag_known_resolves [OF that] by metis
  show ?case
  proof (cases k)
    case (ComponentItem n)
    with Cons.prems(1) [of item n] IH [of acc] show ?thesis by (auto simp: item resolve_item_kind_def)
  next
    case (GroupItem t sub)
    with Cons.prems(2) [of item] tag [of t] IH [of acc] show ?thesis by (auto simp: item resolve_item_kind_def)
  next
    case (FieldItem t)
    with Cons.prems(2) [of item] obtain f where "field_by_tag d t = Some f" "Field_tag f = (Ok t :: (tag, parser_error) outcome)"
      using tag [of t] by (auto simp: item)
    with FieldItem IH [of "List.insert t acc"] show ?thesis by (auto simp: item resolve_item_kind_def)
  qed
qed simp

lemma tags_for_component:
  assumes ok: "dictionary_ok d" and ex: "expandable d rk" and c: "component_by_name d n = Some c"
  shows "\<exists>tags. get_tags_for_component d n = Ok tags \<and> (\<forall>t. t \<in> set tags \<longleftrightarrow> (\<exists>r. LayoutItem r (FieldItem t) \<in> set (cd_layout_items c)))"
  using collect_field_tags_ok [OF ok, of "cd_layout_items c" "[]"] component_known(2) [OF ok c] ex c
  by (auto simp: get_tags_for_component_def expandable_def)

text \<open>C14. A builder from a dictionary. If the components of a consistent dictionary exist and do not contain themselves,
  \<open>MessageBuilder::new\<close> returns: with enough stack it always gives the same builder, whose header and trailer tags are the
  fields of these two components, and whose specification of each message admits exactly the tags that
  occur in its layout when components are expanded.\<close>

theorem message_builder_from_dictionary:
  assumes ok: "dictionary_ok d" and ex: "expandable d rk"
    and h: "component_by_name d ''StandardHeader'' = Some h" and t: "component_by_name d ''StandardTrailer'' = Some t"
  shows "\<exists>N b. (\<forall>n \<ge> N. MessageBuilder_new n d cfg = Some (Ok b)) \<and> dict b = d \<and> config b = cfg
    \<and> (\<forall>g. is_header_tag b g \<longleftrightarrow> (\<exists>r. LayoutItem r (FieldItem g) \<in> set (cd_layout_items h)))
    \<and> (\<forall>g. is_trailer_tag b g \<longleftrightarrow> (\<exists>r. LayoutItem r (FieldItem g) \<in> set (cd_layout_items t)))
    \<and> (\<forall>mt m. message_by_msgtype d mt = Some m \<longrightarrow>
         (\<exists>spec. get_message_def b mt = Ok spec \<and> (\<forall>g. ms_contains_tag spec g \<longleftrightarrow> (\<exists>i \<in> set (md_layout_items m). tag_occurs d i g))))"
proof -
  obtain ht tt where ht: "get_tags_for_component d ''StandardHeader'' = Ok ht"
      "\<forall>g. g \<in> set ht \<longleftrightarrow> (\<exists>r. LayoutItem r (FieldItem g) \<in> set (cd_layout_items h))"
    and tt: "get_tags_for_component d ''StandardTrailer'' = Ok tt"
      "\<forall>g. g \<in> set tt \<longleftrightarrow> (\<exists>r. LayoutItem r (FieldItem g) \<in> set (cd_layout_items t))"
    using tags_for_component [OF ok ex h] tags_for_component [OF ok ex t] by blast
  have dist: "distinct (map fst (messages_by_msgtype d))" and key: "\<And>mt m. message_by_msgtype d mt = Some m \<Longrightarrow> md_msg_type m = mt"
    using ok by (auto simp: dictionary_ok_def layouts_ok_def)
  have entry: "message_by_msgtype d mt = Some m \<longleftrightarrow> (mt, m) \<in> set (messages_by_msgtype d)" for mt m
    using dist by (auto simp: message_by_msgtype_def)
  have types: "map md_msg_type (messages d) = map fst (messages_by_msgtype d)"
    using key by (auto simp: messages_def entry)
  have all: "\<exists>n spec. message_spec_of n d m = Some (Ok spec)" if "m \<in> set (messages d)" for m
    using that message_spec_returns [OF ok ex] by (auto simp: messages_def entry [symmetric])
  then obtain N where N: "\<forall>m \<in> set (messages d). \<exists>spec. message_spec_of N d m = Some (Ok spec)"
    using common_bound [of "messages d" "\<lambda>n. message_spec_of n d"] message_spec_of_mono by blast
  obtain specs where specs: "build_message_specifications N d = Some (Ok specs)"
    and spec: "\<forall>m \<in> set (messages d). \<exists>spec. message_spec_of N d m = Some (Ok spec) \<and> map_of specs (md_msg_type m) = Some spec"
    using build_specifications_loop_ok [OF N, of "[]"] dist by (auto simp: build_message_specifications_def types)
  have same: "build_message_specifications n d = Some (Ok specs)" if "N \<le> n" for n
  proof -
    have "message_spec_of n d m = message_spec_of N d m" if "m \<in> set (messages d)" for m
      using N that message_spec_of_mono [OF _ \<open>N \<le> n\<close>] by fastforce
    then have "build_specifications_loop n d (messages d) acc = build_specifications_loop N d (messages d) acc" for acc
      by (intro build_specifications_loop_cong) simp
    with specs show ?thesis by (simp add: build_message_specifications_def)
  qed
  let ?b = "\<lparr>dict = d, header_tags = ht, trailer_tags = tt, message_specification = specs, config = cfg\<rparr>"
  have "\<forall>n \<ge> N. MessageBuilder_new n d cfg = Some (Ok ?b)" by (simp add: MessageBuilder_new_def ht(1) tt(1) same)
  moreover have "\<exists>spec. get_message_def ?b mt = Ok spec \<and> (\<forall>g. ms_contains_tag spec g \<longleftrightarrow> (\<exists>i \<in> set (md_layout_items m). tag_occurs d i g))"
    if m: "message_by_msgtype d mt = Some m" for mt m
  proof -
    have "m \<in> set (messages d)" using m by (force simp: entry messages_def)
    then obtain sp where "message_spec_of N d m = Some (Ok sp)" "map_of specs mt = Some sp" using spec key [OF m] by blast
    then show ?thesis using message_spec_tags [OF ok] by (auto simp: get_message_def_def)
  qed
  ultimately show ?thesis using ht(2) tt(2)
    by (intro exI [of _ N] exI [of _ ?b]) (simp add: is_header_tag_def is_trailer_tag_def)
qed

section \<open>Components that cannot be expanded\<close>

text \<open>A component that is mentioned in a layout, or in a component mentioned there, outside groups.\<close>

inductive mentions :: "dictionary \<Rightarrow> layout_item \<Rightarrow> string \<Rightarrow> bool" for d where
  mentions_here: "mentions d (LayoutItem r (ComponentItem n)) n"
| mentions_inside: "component_by_name d m = Some c \<Longrightarrow> i \<in> set (cd_layout_items c) \<Longrightarrow> mentions d i n
    \<Longrightarrow> mentions d (LayoutItem r (ComponentItem m)) n"

lemma extract_component_Ok:
  assumes ok: "dictionary_ok d" and run: "extract_fields N d (LayoutItem r (ComponentItem m)) = Some (Ok fs)"
  obtains c N' where "component_by_name d m = Some c" "N = Suc N'"
    "\<And>i. i \<in> set (cd_layout_items c) \<Longrightarrow> \<exists>zs. extract_fields N' d i = Some (Ok zs)"
proof -
  obtain N' where N: "N = Suc N'" using run by (cases N) auto
  obtain c where c: "component_by_name d m = Some c"
    using run by (auto simp: N resolve_item_kind_def split: option.splits)
  have "flatten_results (map (extract_fields N' d) (cd_layout_items c)) = Some (Ok fs :: (field_spec list, parser_error) outcome)"
    using run c component_known(1) [OF ok c] by (simp add: N resolve_item_kind_def)
  from flatten_results_set [OF this extract_fields_no_err [OF ok]] show ?thesis using that [OF c N] by blast
qed

lemma mentions_extracted:
  assumes ok: "dictionary_ok d" and "mentions d item n" and "extract_fields N d item = Some (Ok fs)"
  shows "\<exists>N' r fs'. N' \<le> N \<and> extract_fields N' d (LayoutItem r (ComponentItem n)) = Some (Ok fs')"
  using assms(2,3)
proof (induction arbitrary: N fs rule: mentions.induct)
  case (mentions_inside m c i n r)
  obtain N' where N: "N = Suc N'" and all: "\<And>i. i \<in> set (cd_layout_items c) \<Longrightarrow> \<exists>zs. extract_fields N' d i = Some (Ok zs)"
    using extract_component_Ok [OF ok mentions_inside.prems] mentions_inside.hyps(1) by (metis option.inject)
  from all [OF mentions_inside.hyps(2)] mentions_inside.IH show ?case using N by (metis le_SucI)
qed blast

lemma unexpandable_never_Ok:
  assumes ok: "dictionary_ok d"
    and bad: "\<And>c. component_by_name d n = Some c \<Longrightarrow> \<exists>j \<in> set (cd_layout_items c). mentions d j n"
  shows "extract_fields N d (LayoutItem r (ComponentItem n)) \<noteq> Some (Ok fs)"
proof (induction N arbitrary: r fs rule: less_induct)
  case (less N)
  show ?case
  proof
    assume "extract_fields N d (LayoutItem r (ComponentItem n)) = Some (Ok fs)"
    from extract_component_Ok [OF ok this] obtain c N' where c: "component_by_name d n = Some c" and N: "N = Suc N'"
      and all: "\<And>i. i \<in> set (cd_layout_items c) \<Longrightarrow> \<exists>zs. extract_fields N' d i = Some (Ok zs)" by metis
    from bad [OF c] obtain j zs where j: "mentions d j n" "extract_fields N' d j = Some (Ok zs)" using all by blast
    from mentions_extracted [OF ok this] less N show False by (metis le_imp_less_Suc)
  qed
qed

text \<open>No step of the construction returns an error once the header and the trailer have been found.\<close>

lemma collect_field_tags_no_err: "collect_field_tags d items acc \<noteq> Err e"
  by (induction items arbitrary: acc) (auto simp: resolve_no_err split: outcome.split resolved_kind.split)

lemma extend_groups_no_err:
  "(\<And>x e. x \<in> set xs \<Longrightarrow> f x \<noteq> Some (Err e)) \<Longrightarrow> extend_groups acc (map f xs) \<noteq> Some (Err e)"
proof (induction xs arbitrary: acc)
  case (Cons x xs)
  then show ?case by (cases "f x"; cases "the (f x)") auto
qed simp

lemma extract_groups_no_err:
  assumes ok: "dictionary_ok d"
  shows "extract_groups n d item \<noteq> Some (Err e)"
proof (induction n arbitrary: item e)
  case (Suc n)
  have IH: "extend_groups [] (map (extract_groups n d) items) \<noteq> Some (Err e)" for items e
    by (rule extend_groups_no_err) (rule Suc.IH)
  show ?case
    using ok
    by (auto simp: IH flatten_results_no_err resolve_no_err dest!: resolve_component dest: component_known
        split: outcome.splits resolved_kind.splits option.splits)
qed simp

lemma build_specifications_loop_cases:
  assumes ok: "dictionary_ok d"
  shows "build_specifications_loop n d ms acc \<noteq> Some (Err e)"
    "build_specifications_loop n d ms acc = Some (Ok specs) \<Longrightarrow> m \<in> set ms \<Longrightarrow> \<exists>spec. message_spec_of n d m = Some (Ok spec)"
proof -
  have no_err: "message_spec_of n d m \<noteq> Some (Err e)" for m e
    using extend_groups_no_err [of "md_layout_items m" "extract_groups n d" "[]"] extract_groups_no_err [OF ok]
    by (auto simp: message_spec_of_def flatten_results_no_err split: outcome.split option.split)
  show "build_specifications_loop n d ms acc \<noteq> Some (Err e)"
    by (induction ms arbitrary: acc) (auto simp: no_err split: outcome.split option.split)
  show "build_specifications_loop n d ms acc = Some (Ok specs) \<Longrightarrow> m \<in> set ms \<Longrightarrow> \<exists>spec. message_spec_of n d m = Some (Ok spec)"
    by (induction ms arbitrary: acc) (auto split: outcome.splits option.splits)
qed

text \<open>A component that is missing or contains itself is never reported. \<open>extract_fields\<close> has an error for an unknown component, but
  \<open>LayoutItem::kind\<close> unwraps the lookup first: if a message mentions such a component, \<open>MessageBuilder::new\<close> does not return
  an error (nor a builder) however much stack it has, it panics or overflows the stack.\<close>

theorem unexpandable_component_not_reported:
  assumes ok: "dictionary_ok d" and h: "component_by_name d ''StandardHeader'' \<noteq> None"
    and t: "component_by_name d ''StandardTrailer'' \<noteq> None"
    and m: "message_by_msgtype d mt = Some m" "i \<in> set (md_layout_items m)" "mentions d i n"
    and bad: "component_by_name d n = None
      \<or> (\<exists>c j. component_by_name d n = Some c \<and> j \<in> set (cd_layout_items c) \<and> mentions d j n)"
  shows "MessageBuilder_new N d cfg = None \<or> MessageBuilder_new N d cfg = Some Panic"
proof -
  have tags: "get_tags_for_component d x \<noteq> Err e" if "component_by_name d x \<noteq> None" for x e
    using that by (auto simp: get_tags_for_component_def collect_field_tags_no_err)
  have "\<nexists>spec. message_spec_of N d m = Some (Ok spec)"
  proof
    assume "\<exists>spec. message_spec_of N d m = Some (Ok spec)"
    then obtain fs where "flatten_results (map (extract_fields N d) (md_layout_items m)) = Some (Ok fs :: (field_spec list, parser_error) outcome)"
      by (auto simp: message_spec_of_def split: option.splits outcome.splits)
    from flatten_results_set [OF this extract_fields_no_err [OF ok]] m(2) obtain zs where "extract_fields N d i = Some (Ok zs)" by blast
    from mentions_extracted [OF ok m(3) this] obtain N' r fs' where "extract_fields N' d (LayoutItem r (ComponentItem n)) = Some (Ok fs')"
      by blast
    moreover have "extract_fields N' d (LayoutItem r (ComponentItem n)) \<noteq> Some (Ok fs')"
      using bad by (intro unexpandable_never_Ok [OF ok]) auto
    ultimately show False by simp
  qed
  moreover have "m \<in> set (messages d)" using m(1) by (force simp: message_by_msgtype_def messages_def dest: map_of_SomeD)
  ultimately have "build_message_specifications N d \<noteq> Some (Ok specs)" for specs
    unfolding build_message_specifications_def using build_specifications_loop_cases(2) [OF ok] by blast
  moreover have "build_message_specifications N d \<noteq> Some (Err e)" for e
    unfolding build_message_specifications_def by (rule build_specifications_loop_cases(1) [OF ok])
  ultimately show ?thesis
    using tags [OF h] tags [OF t] by (auto simp: MessageBuilder_new_def split: outcome.split option.split)
qed

section \<open>Examples\<close>

lemma sample_dictionary_ok: "dictionary_ok sample_dictionary"
  using QuickFixReader_new_OkE [OF sample_spec_read] by blast

theorem message_builder_from_dictionary_witness:
  "\<exists>n b. MessageBuilder_new n sample_dictionary default_config = Some (Ok b) \<and> is_header_tag b 8 \<and> \<not> is_header_tag b 112
    \<and> (\<exists>spec. get_message_def b ''0'' = Ok spec \<and> ms_contains_tag spec 112)"
proof -
  have "expandable sample_dictionary (\<lambda>_. 0)"
    by (auto simp: expandable_def component_by_name_def message_by_msgtype_def sample_dictionary_def new_component_def split: if_splits)
  moreover have "component_by_name sample_dictionary ''StandardHeader'' = Some (new_component ''StandardHeader'' [LayoutItem True (FieldItem 8)])"
    "component_by_name sample_dictionary ''StandardTrailer'' = Some (new_component ''StandardTrailer'' [])"
    by (simp_all add: component_by_name_def sample_dictionary_def)
  ultimately obtain N b where b: "\<forall>n \<ge> N. MessageBuilder_new n sample_dictionary default_config = Some (Ok b)"
    "\<forall>g. is_header_tag b g \<longleftrightarrow> (\<exists>r. LayoutItem r (FieldItem g) \<in> set (cd_layout_items (new_component ''StandardHeader'' [LayoutItem True (FieldItem 8)])))"
    "\<forall>mt m. message_by_msgtype sample_dictionary mt = Some m \<longrightarrow> (\<exists>spec. get_message_def b mt = Ok spec
       \<and> (\<forall>g. ms_contains_tag spec g \<longleftrightarrow> (\<exists>i \<in> set (md_layout_items m). tag_occurs sample_dictionary i g)))"
    using message_builder_from_dictionary [OF sample_dictionary_ok, of "\<lambda>_. 0" _ _ default_config] by blast
  have "\<exists>m. message_by_msgtype sample_dictionary ''0'' = Some m \<and> md_layout_items m = [LayoutItem False (FieldItem 112)]"
    by (simp add: message_by_msgtype_def sample_dictionary_def)
  with b(3) obtain spec where "get_message_def b ''0'' = Ok spec" "ms_contains_tag spec 112" by fastforce
  moreover have "is_header_tag b 8" "\<not> is_header_tag b 112" using b(2) by (auto simp: new_component_def)
  ultimately show ?thesis using b(1) by blast
qed

text \<open>A component that contains itself.\<close>

definition sample_cyclic :: dictionary where
  "sample_cyclic = sample_dictionary\<lparr>
     components_by_name := (''C'', new_component ''C'' [LayoutItem True (ComponentItem ''C'')]) # components_by_name sample_dictionary,
     messages_by_msgtype := [(''0'', \<lparr>md_component_id = 0, md_msg_type = ''0'', md_name = ''Heartbeat'',
       md_layout_items = [LayoutItem True (ComponentItem ''C'')], md_required = True, md_description = []\<rparr>)]\<rparr>"

theorem unexpandable_component_not_reported_witness:
  "MessageBuilder_new 100 sample_cyclic default_config = None \<or> MessageBuilder_new 100 sample_cyclic default_config = Some Panic"
proof -
  have comps: "component_by_name sample_cyclic ''C'' = Some (new_component ''C'' [LayoutItem True (ComponentItem ''C'')])"
    "component_by_name sample_cyclic ''StandardHeader'' \<noteq> None" "component_by_name sample_cyclic ''StandardTrailer'' \<noteq> None"
    by (simp_all add: component_by_name_def sample_cyclic_def sample_dictionary_def)
  have "dictionary_ok sample_cyclic"
    using sample_dictionary_ok
    by (auto simp: dictionary_ok_def fields_ok_def layouts_ok_def sample_cyclic_def component_by_name_def message_by_msgtype_def
        field_by_tag_def datatype_by_name_def sample_dictionary_def new_component_def split: if_splits)
  moreover have "\<exists>m. message_by_msgtype sample_cyclic ''0'' = Some m \<and> LayoutItem True (ComponentItem ''C'') \<in> set (md_layout_items m)"
    by (simp add: message_by_msgtype_def sample_cyclic_def)
  ultimately show ?thesis
    using unexpandable_component_not_reported [OF _ comps(2,3) _ _ mentions_here, of "''0''" _ True "''C''"] comps(1)
    by (auto simp: new_component_def intro: mentions_here)
qed

end
