(* ===== verification/Frame_Parser.thy ===== *)
theory Frame_Parser
  imports Message
begin

text \<open>
  The framing of the byte stream, \<^verbatim>\<open>hotfix/src/message/parser.rs\<close>: \<open>HeaderInfo::parse\<close> reads BeginString and
  BodyLength, \<open>Parser::parse\<close> cuts complete messages off the front of its buffer. The length of a message
  is a \<open>usize\<close> sum of a number the peer chooses, so it may wrap; when it wraps to zero the loop
  never ends, which is why the loop is a partial function.
\<close>

section \<open>The header\<close>

record header_info =
  field_0 :: "nat \<times> nat"
  field_1 :: "nat \<times> nat"
  nominal_body_len :: usize

definition FIELD_CHECKSUM_LEN_IN_BYTES :: usize where
  "FIELD_CHECKSUM_LEN_IN_BYTES = 7"

text \<open>\<open>iterator.position\<close>: the index of the first byte equal to the given one, and what follows it.\<close>

fun find_byte :: "char \<Rightarrow> bytes \<Rightarrow> (nat \<times> bytes) option" where
  "find_byte c [] = None"
| "find_byte c (b # bs) =
     (if b = c then Some (0, bs) else map_option (\<lambda>(i, r). (Suc i, r)) (find_byte c bs))"

definition body_len_digit :: "char \<Rightarrow> usize" where
  "body_len_digit byte = ucast (of_char byte - 48 :: u8)"

definition HeaderInfo_parse :: "bytes \<Rightarrow> char \<Rightarrow> header_info option" where
  "HeaderInfo_parse data sep = (case find_byte (CHR ''='') data of
      None \<Rightarrow> None
    | Some (a, r0) \<Rightarrow> (let start0 = a + 1 in case find_byte sep r0 of
        None \<Rightarrow> None
      | Some (b, r1) \<Rightarrow> (let end0 = start0 + b in case find_byte (CHR ''='') r1 of
          None \<Rightarrow> None
        | Some (c, r2) \<Rightarrow> (let start1 = end0 + 1 + c + 1 in case find_byte sep r2 of
            None \<Rightarrow> None
          | Some (d, _) \<Rightarrow> (let end1 = start1 + d in
              Some \<lparr>field_0 = (start0, end0), field_1 = (start1, end1),
                nominal_body_len = foldl (\<lambda>n byte. n * 10 + body_len_digit byte) 0
                  (take (end1 - start1) (drop start1 data))\<rparr>)))))"

definition message_length :: "header_info \<Rightarrow> usize" where
  "message_length info =
     of_nat (snd (field_1 info)) + 1 + nominal_body_len info + FIELD_CHECKSUM_LEN_IN_BYTES"

section \<open>The loop\<close>

partial_function (option) parse_loop :: "bytes \<Rightarrow> bytes list \<Rightarrow> (bytes list \<times> bytes) option" where
  "parse_loop buffer messages = (case HeaderInfo_parse buffer SOH of
      None \<Rightarrow> Some (messages, buffer)
    | Some header_info \<Rightarrow>
        (let n = unat (message_length header_info) in
         if n > length buffer then Some (messages, buffer)
         else parse_loop (drop n buffer) (messages @ [take n buffer])))"

text \<open>\<open>Parser::parse\<close>: the messages cut off and the buffer left, or \<open>None\<close> when it does not return.\<close>

definition Parser_parse :: "bytes \<Rightarrow> bytes \<Rightarrow> (bytes list \<times> bytes) option" where
  "Parser_parse buffer data = parse_loop (buffer @ data) []"

text \<open>The reader calls \<open>parse\<close> once for every chunk it reads from the socket.\<close>

fun feed :: "bytes \<Rightarrow> bytes list \<Rightarrow> (bytes list \<times> bytes) option" where
  "feed buffer [] = Some ([], buffer)"
| "feed buffer (chunk # chunks) = (case Parser_parse buffer chunk of
      None \<Rightarrow> None
    | Some (ms, buffer') \<Rightarrow> (case feed buffer' chunks of
        None \<Rightarrow> None
      | Some (ms', buffer'') \<Rightarrow> Some (ms @ ms', buffer'')))"

section \<open>Reading the header\<close>

lemma find_byte_append: "find_byte c xs = Some (i, r) \<Longrightarrow> find_byte c (xs @ ys) = Some (i, r @ ys)"
  by (induction xs arbitrary: i r) (auto split: if_splits)

lemma find_byte_length: "find_byte c xs = Some (i, r) \<Longrightarrow> length xs = i + 1 + length r"
  by (induction xs arbitrary: i r) (auto split: if_splits)

lemma find_byte_first: "c \<notin> set xs \<Longrightarrow> find_byte c (xs @ c # ys) = Some (length xs, ys)"
  by (induction xs) auto

lemma HeaderInfo_parse_append:
  assumes "HeaderInfo_parse xs sep = Some info"
  shows "HeaderInfo_parse (xs @ ys) sep = Some info"
proof -
  obtain a r0 b r1 c r2 d r3 where f: "find_byte (CHR ''='') xs = Some (a, r0)" "find_byte sep r0 = Some (b, r1)"
    "find_byte (CHR ''='') r1 = Some (c, r2)" "find_byte sep r2 = Some (d, r3)"
    using assms by (auto simp: HeaderInfo_parse_def Let_def split: option.splits)
  then have "length xs = a + b + c + d + 4 + length r3"
    using f [THEN find_byte_length] by simp
  then show ?thesis
    using assms f by (simp add: HeaderInfo_parse_def Let_def find_byte_append)
qed

section \<open>Cutting the stream anywhere\<close>

lemma parse_loop_step:
  assumes "HeaderInfo_parse x SOH = Some info" "unat (message_length info) \<le> length x"
  shows "parse_loop (x @ y) acc
    = parse_loop (drop (unat (message_length info)) x @ y) (acc @ [take (unat (message_length info)) x])"
  using assms HeaderInfo_parse_append [OF assms(1), of y]
  by (subst parse_loop.simps) (simp add: Let_def)

definition stops :: "bytes \<Rightarrow> bool" where
  "stops x \<longleftrightarrow> (case HeaderInfo_parse x SOH of
      None \<Rightarrow> True | Some info \<Rightarrow> length x < unat (message_length info))"

lemma parse_loop_stops: "stops x \<Longrightarrow> parse_loop x acc = Some (acc, x)"
  by (subst parse_loop.simps) (auto simp: stops_def Let_def split: option.splits)

lemma stops_cases:
  obtains "stops x"
  | info where "HeaderInfo_parse x SOH = Some info" "unat (message_length info) \<le> length x"
  by (cases "HeaderInfo_parse x SOH") (force simp: stops_def)+

text \<open>Induction along a run that returns.\<close>

lemma parse_loop_run_induct [consumes 1, case_names stop step]:
  assumes "parse_loop x acc = Some res"
    and stop: "\<And>x acc. stops x \<Longrightarrow> P x acc (acc, x)"
    and step: "\<And>x acc info res. HeaderInfo_parse x SOH = Some info \<Longrightarrow> unat (message_length info) \<le> length x
      \<Longrightarrow> P (drop (unat (message_length info)) x) (acc @ [take (unat (message_length info)) x]) res
      \<Longrightarrow> P x acc res"
  shows "P x acc res"
proof (rule parse_loop.raw_induct [where P = P, OF _ assms(1)])
  fix f x acc res
  assume IH: "\<And>x acc res. f x acc = Some res \<Longrightarrow> P x acc res"
    and run: "(case HeaderInfo_parse x SOH of None \<Rightarrow> Some (acc, x)
      | Some header_info \<Rightarrow> let n = unat (message_length header_info)
          in if length x < n then Some (acc, x) else f (drop n x) (acc @ [take n x])) = Some res"
  show "P x acc res"
  proof (cases x rule: stops_cases)
    case 1
    then have "res = (acc, x)" using run by (auto simp: stops_def Let_def split: option.splits)
    with 1 stop show ?thesis by simp
  next
    case (2 info)
    with run have "f (drop (unat (message_length info)) x) (acc @ [take (unat (message_length info)) x]) = Some res"
      by (simp add: Let_def)
    with 2 step IH show ?thesis by blast
  qed
qed

text \<open>What one run leaves in the buffer is not cut further, and more bytes after the input behave as more bytes
  after what is left.\<close>

lemma parse_loop_more:
  assumes "parse_loop x acc = Some res"
  shows "parse_loop (x @ y) (pre @ acc) = parse_loop (snd res @ y) (pre @ fst res)"
  using assms
  by (induction rule: parse_loop_run_induct) (simp_all add: parse_loop_step)

lemma parse_loop_stops_after: "parse_loop x acc = Some res \<Longrightarrow> stops (snd res)"
  by (induction rule: parse_loop_run_induct) simp_all

lemma parse_loop_acc:
  assumes "parse_loop x acc = Some res"
  shows "\<exists>ms. fst res = acc @ ms \<and> (\<forall>acc'. parse_loop x acc' = Some (acc' @ ms, snd res))"
  using assms
proof (induction rule: parse_loop_run_induct)
  case (step x acc info res)
  then show ?case using parse_loop_step [OF step(1,2), of "[]"] by fastforce
qed (simp add: parse_loop_stops)

lemma parse_loop_prefix:
  assumes "parse_loop z acc = Some res"
  shows "z = x @ y \<Longrightarrow> \<exists>res'. parse_loop x acc = Some res'"
  using assms
proof (induction arbitrary: x rule: parse_loop_run_induct)
  case (stop z acc)
  then have "stops x"
    using HeaderInfo_parse_append [of x SOH _ y] by (cases x rule: stops_cases) (auto simp: stops_def)
  then show ?case by (simp add: parse_loop_stops)
next
  case (step z acc info res)
  show ?case
  proof (cases x rule: stops_cases)
    case 1
    then show ?thesis by (simp add: parse_loop_stops)
  next
    case (2 info')
    have "info' = info" using HeaderInfo_parse_append [OF 2(1), of y] step by simp
    with step 2 parse_loop_step [OF 2, of "[]"] show ?thesis by simp
  qed
qed

lemma feed_parse:
  assumes "stops buf"
  shows "feed buf chunks = parse_loop (buf @ concat chunks) []"
  using assms
proof (induction chunks arbitrary: buf)
  case Nil
  then show ?case by (simp add: parse_loop_stops)
next
  case (Cons c chunks)
  show ?case
  proof (cases "parse_loop (buf @ c) []")
    case None
    have "parse_loop (buf @ c @ concat chunks) [] = None"
    proof (cases "parse_loop (buf @ c @ concat chunks) []")
      case (Some res)
      from parse_loop_prefix [OF this, of "buf @ c" "concat chunks"] None show ?thesis by simp
    qed
    with None show ?thesis by (simp add: Parser_parse_def)
  next
    case (Some res)
    obtain ms r where res: "res = (ms, r)" by (cases res)
    with Some have r: "stops r" using parse_loop_stops_after by fastforce
    have all: "parse_loop (buf @ c @ concat chunks) [] = parse_loop (r @ concat chunks) ms"
      using parse_loop_more [OF Some, of "concat chunks" "[]"] by (simp add: res)
    show ?thesis
    proof (cases "parse_loop (r @ concat chunks) []")
      case None
      have "parse_loop (r @ concat chunks) ms = None"
        using parse_loop_acc [of "r @ concat chunks" ms] None by (cases "parse_loop (r @ concat chunks) ms") auto
      with None Some res Cons.IH [OF r] all show ?thesis by (simp add: Parser_parse_def)
    next
      case (Some res')
      with parse_loop_acc [OF this] have "parse_loop (r @ concat chunks) ms = Some (ms @ fst res', snd res')" by auto
      with Some \<open>parse_loop (buf @ c) [] = Some res\<close> res Cons.IH [OF r] all show ?thesis
        by (cases res') (simp add: Parser_parse_def)
    qed
  qed
qed

section \<open>When the loop returns\<close>

lemma HeaderInfo_parse_bounds:
  assumes "HeaderInfo_parse x sep = Some info"
  shows "snd (field_1 info) < length x"
proof -
  obtain a r0 b r1 c r2 d r3 where f: "find_byte (CHR ''='') x = Some (a, r0)" "find_byte sep r0 = Some (b, r1)"
    "find_byte (CHR ''='') r1 = Some (c, r2)" "find_byte sep r2 = Some (d, r3)"
    using assms by (auto simp: HeaderInfo_parse_def Let_def split: option.splits)
  with assms f [THEN find_byte_length] show ?thesis by (auto simp: HeaderInfo_parse_def Let_def)
qed

lemma unat_message_length:
  assumes "snd (field_1 info) + unat (nominal_body_len info) + 8 < 2 ^ 64"
  shows "unat (message_length info) = snd (field_1 info) + unat (nominal_body_len info) + 8"
proof -
  have "message_length info = of_nat (snd (field_1 info) + unat (nominal_body_len info) + 8)"
    by (simp add: message_length_def FIELD_CHECKSUM_LEN_IN_BYTES_def)
  also have "unat \<dots> = snd (field_1 info) + unat (nominal_body_len info) + 8"
    using assms unfolding unat_of_nat by simp
  finally show ?thesis .
qed

lemma parse_loop_total:
  assumes "\<And>k info. HeaderInfo_parse (drop k x) SOH = Some info \<Longrightarrow> message_length info \<noteq> 0"
  shows "\<exists>res. parse_loop x acc = Some res"
  using assms
proof (induction "length x" arbitrary: x acc rule: less_induct)
  case less
  show ?case
  proof (cases x rule: stops_cases)
    case 1
    then show ?thesis by (simp add: parse_loop_stops)
  next
    case (2 info)
    let ?n = "unat (message_length info)"
    have "x \<noteq> []" using HeaderInfo_parse_bounds [OF 2(1)] by auto
    moreover have "message_length info \<noteq> 0" using less(2) [of 0] 2 by simp
    ultimately have "length (drop ?n x) < length x" by (simp add: unat_gt_0)
    moreover have "\<And>k info'. HeaderInfo_parse (drop k (drop ?n x)) SOH = Some info' \<Longrightarrow> message_length info' \<noteq> 0"
      using less(2) by simp
    ultimately have "\<exists>res. parse_loop (drop ?n x) (acc @ [take ?n x]) = Some res" by (rule less(1))
    with parse_loop_step [OF 2, of "[]"] show ?thesis by simp
  qed
qed

lemma parse_loop_stuck:
  assumes "HeaderInfo_parse x SOH = Some info" "message_length info = 0"
  shows "parse_loop x acc = None"
proof (rule ccontr)
  assume "parse_loop x acc \<noteq> None"
  then obtain res where "parse_loop x acc = Some res" by auto
  then have "y \<noteq> x" if "y = x" for y
    unfolding that
    by (rule parse_loop.raw_induct [where P = "\<lambda>y acc res. y \<noteq> x", rotated])
      (use assms in \<open>fastforce simp: Let_def\<close>)
  then show False by simp
qed

section \<open>Frames\<close>

text \<open>A byte string that the parser sees as one message.\<close>

definition is_frame :: "bytes \<Rightarrow> bool" where
  "is_frame x \<longleftrightarrow> (case HeaderInfo_parse x SOH of
      None \<Rightarrow> False | Some info \<Rightarrow> unat (message_length info) = length x)"

lemma parse_loop_frames:
  "list_all is_frame ms \<Longrightarrow> parse_loop (concat ms @ rest) acc = parse_loop rest (acc @ ms)"
proof (induction ms arbitrary: acc)
  case (Cons m ms)
  then obtain info where "HeaderInfo_parse m SOH = Some info" "unat (message_length info) = length m"
    by (auto simp: is_frame_def split: option.splits)
  with parse_loop_step [of m info "concat ms @ rest" acc] Cons show ?case by simp
qed simp

lemma body_len_digits:
  "(\<forall>c \<in> set ds. is_ascii_digit c) \<Longrightarrow> digits_value a ds = Some n \<Longrightarrow>
   foldl (\<lambda>n byte. n * 10 + body_len_digit byte) (of_nat a) ds = of_nat n"
proof (induction ds arbitrary: a)
  case (Cons c ds)
  have "body_len_digit c = of_nat (digit_val c)"
  proof -
    have d: "is_ascii_digit c" using Cons by simp
    then have "digit_val c < 10" "c = digit_char (digit_val c)"
      by (auto simp: is_ascii_digit_def digit_val_def digit_char_def)
    then have "(of_char c :: u8) - 48 = of_nat (digit_val c)" using of_char_digit [of "digit_val c"] by metis
    moreover have "(ucast (of_nat (digit_val c) :: u8) :: usize) = of_nat (digit_val c)"
      using \<open>digit_val c < 10\<close> by (simp add: unsigned_of_nat take_bit_nat_eq_self)
    ultimately show ?thesis by (simp add: body_len_digit_def)
  qed
  with Cons Cons.IH [of "a * 10 + digit_val c"] show ?case by (simp split: if_splits)
qed simp

lemma HeaderInfo_parse_layout:
  assumes "SOH \<notin> set v"
  shows "HeaderInfo_parse (field_bytes SOH ''8'' v @ field_bytes SOH ''9'' (show_nat n) @ rest) SOH
    = Some \<lparr>field_0 = (2, 2 + length v), field_1 = (5 + length v, 5 + length v + length (show_nat n)),
        nominal_body_len = of_nat n\<rparr>"
proof -
  have soh: "SOH \<notin> set (show_nat n)"
    using show_nat_digits digit_not_special(6) by (auto simp: SOH_def)
  have "foldl (\<lambda>n byte. n * 10 + body_len_digit byte) 0 (show_nat n) = of_nat n"
    using body_len_digits [of "show_nat n" 0 n] by (simp add: show_nat_digits digits_value_show_nat)
  then show ?thesis
    using find_byte_first [OF assms, of "''9='' @ show_nat n @ SOH # rest"] find_byte_first [OF soh, of rest]
    by (simp add: HeaderInfo_parse_def Let_def)
qed

lemma encode_is_frame:
  assumes "message_ok m" "part_get_raw BEGIN_STRING (header m) = Some v" "SOH \<notin> set v"
    and "separator c = SOH" "length (fst (encode c m)) < 2 ^ 64"
  shows "is_frame (fst (encode c m))"
proof -
  obtain rest where out: "fst (encode c m) = field_bytes SOH ''8'' v @ field_bytes SOH ''9'' (show_nat (length rest)) @ rest
      @ field_bytes SOH ''10'' (show_padded 3 (unat (checksum_compute
       (field_bytes SOH ''8'' v @ field_bytes SOH ''9'' (show_nat (length rest)) @ rest))))"
    by (rule encode_parts [OF assms(1,2), of c]) (simp only: assms(4))
  define cs where "cs = show_padded 3 (unat (checksum_compute
       (field_bytes SOH ''8'' v @ field_bytes SOH ''9'' (show_nat (length rest)) @ rest)))"
  have cs: "length cs = 3"
    unfolding cs_def by (rule length_show_padded3) (rule less_trans [OF unsigned_less], simp)
  let ?info = "\<lparr>field_0 = (2, 2 + length v), field_1 = (5 + length v, 5 + length v + length (show_nat (length rest))),
      nominal_body_len = of_nat (length rest)\<rparr>"
  have info: "HeaderInfo_parse (fst (encode c m)) SOH = Some ?info"
    unfolding out by (rule HeaderInfo_parse_layout [OF assms(3)])
  have len: "length (fst (encode c m)) = 5 + length v + length (show_nat (length rest)) + length rest + 8"
    unfolding out cs_def [symmetric] using cs by simp
  then have "unat (of_nat (length rest) :: usize) = length rest" using assms(5) by (simp add: unat_of_nat)
  then have "unat (message_length ?info) = length (fst (encode c m))"
    using unat_message_length [of ?info] len assms(5) by simp
  with info show ?thesis by (simp add: is_frame_def)
qed

section \<open>Properties\<close>

lemma stops_Nil [simp]: "stops []"
  by (simp add: stops_def HeaderInfo_parse_def)

text \<open>C16. Chunking does not matter. Starting from the empty buffer, feeding the stream to the parser in any
  chunks gives the same messages in the same order, and leaves the same bytes in the buffer, as feeding it
  at once; if the one does not return, neither does the other.\<close>

theorem chunking_invariant: "feed [] chunks = Parser_parse [] (concat chunks)"
  using feed_parse [of "[]" chunks] by (simp add: Parser_parse_def)

text \<open>Nothing sent is lost, split or merged on the way in. However the bytes of a sequence of encoded
  messages are cut into chunks, the parser returns exactly those messages, in order, and keeps nothing.\<close>

lemma encoded_stream_recovered:
  assumes "\<forall>m \<in> set ms. message_ok m \<and> (\<exists>v. part_get_raw BEGIN_STRING (header m) = Some v \<and> SOH \<notin> set v)
      \<and> length (fst (encode default_config m)) < 2 ^ 64"
    and "concat chunks = concat (map (\<lambda>m. fst (encode default_config m)) ms)"
  shows "feed [] chunks = Some (map (\<lambda>m. fst (encode default_config m)) ms, [])"
proof -
  have "list_all is_frame (map (\<lambda>m. fst (encode default_config m)) ms)"
    using assms(1) encode_is_frame [of _ _ default_config] by (fastforce simp: list_all_iff default_config_def)
  with parse_loop_frames [of _ "[]" "[]"] show ?thesis
    by (simp add: feed_parse assms(2) parse_loop_stops)
qed


lemma find_byte_None: "c \<notin> set xs \<Longrightarrow> find_byte c xs = None"
  by (induction xs) auto

lemma find_byte_rest: "find_byte c xs = Some (i, r) \<Longrightarrow> set r \<subseteq> set xs"
  by (induction xs arbitrary: i r) (auto split: if_splits)

lemma HeaderInfo_parse_no_separator: "sep \<notin> set x \<Longrightarrow> HeaderInfo_parse x sep = None"
proof (cases "find_byte (CHR ''='') x")
  case (Some e)
  moreover assume "sep \<notin> set x"
  ultimately have "find_byte sep (snd e) = None"
    using find_byte_rest [of "CHR ''=''" x "fst e" "snd e"] by (intro find_byte_None) auto
  with Some show ?thesis by (cases e) (simp add: HeaderInfo_parse_def)
qed (simp add: HeaderInfo_parse_def)



end
