(* ===== verification/Transport.thy ===== *)
theory Transport
  imports Frame_Parser Session
begin

text \<open>
  The tasks of one connection: the reader that turns what it reads from the socket into events of the session
  (\<^verbatim>\<open>transport/socket/socket_reader.rs\<close>), the writer that empties its mailbox into the socket
  (\<^verbatim>\<open>transport/socket/socket_writer.rs\<close>), and the watchdog over the two (\<^verbatim>\<open>transport/connection.rs\<close>). What the operating system does
  is input: the results of the reads, and the function that writes to a socket.
\<close>

section \<open>The reader\<close>

text \<open>One turn of the \<open>select!\<close>: bytes, an end of file (a read of zero bytes), an error with its text, or the kill channel with whether the
  signal was sent or its sender dropped.\<close>

datatype read_result = ReadBytes bytes | ReadErr string | Kill bool

text \<open>The events the reader sends for a sequence of turns, and whether it has ended; \<open>None\<close> if a call of the parser does not return.\<close>

fun run_reader :: "bytes \<Rightarrow> read_result list \<Rightarrow> (session_event list \<times> bool) option" where
  "run_reader buffer [] = Some ([], False)"
| "run_reader buffer (ReadBytes buf # rs) =
     (if buf = [] then Some ([DisconnectedEvent ''received EOF''], True)
      else case Parser_parse buffer buf of
          None \<Rightarrow> None
        | Some (msgs, buffer') \<Rightarrow> (case run_reader buffer' rs of
            None \<Rightarrow> None
          | Some (events, ended) \<Rightarrow> Some (map FixMessageReceived msgs @ events, ended)))"
| "run_reader buffer (ReadErr err # rs) = Some ([DisconnectedEvent err], True)"
| "run_reader buffer (Kill sent # rs) =
     Some ([DisconnectedEvent (if sent then ''forced close by watchdog'' else ''reader handle dropped'')], True)"

section \<open>The writer\<close>

text \<open>\<open>write_all\<close> gives the bytes in the socket after an attempt to write; its result is only logged.\<close>

definition WriterActor_handle :: "(bytes \<Rightarrow> bytes \<Rightarrow> bytes) \<Rightarrow> writer_message \<Rightarrow> bytes \<Rightarrow> bool \<times> bytes" where
  "WriterActor_handle write_all msg socket = (case msg of
      SendMessage fix_message \<Rightarrow> (True, write_all socket fix_message)
    | Disconnect \<Rightarrow> (False, socket))"

text \<open>The socket after the mailbox has been worked through, and whether the writer has left its loop and shut the socket down.\<close>

fun run_writer :: "(bytes \<Rightarrow> bytes \<Rightarrow> bytes) \<Rightarrow> writer_message list \<Rightarrow> bytes \<Rightarrow> bytes \<times> bool" where
  "run_writer write_all [] socket = (socket, False)"
| "run_writer write_all (msg # mailbox) socket = (case WriterActor_handle write_all msg socket of
      (True, socket') \<Rightarrow> run_writer write_all mailbox socket'
    | (False, socket') \<Rightarrow> (socket', True))"

section \<open>The connection\<close>

text \<open>\<open>run_until_disconnect\<close>: the reader ends the connection; if the writer exits first, the reader gets ten seconds before it is
  killed.\<close>

datatype conn_signal = DisconnectSignal | WriterExit | ForceCloseElapsed

datatype conn_phase = WaitingForEither | WaitingForReader | ForcingClose | ConnClosed

definition conn_step :: "conn_signal \<Rightarrow> conn_phase \<Rightarrow> conn_phase \<times> bool" where
  "conn_step signal phase = (case phase of
      WaitingForEither \<Rightarrow> (case signal of
          DisconnectSignal \<Rightarrow> (ConnClosed, False) | WriterExit \<Rightarrow> (WaitingForReader, False) | ForceCloseElapsed \<Rightarrow> (phase, False))
    | WaitingForReader \<Rightarrow> (case signal of
          DisconnectSignal \<Rightarrow> (ConnClosed, False) | ForceCloseElapsed \<Rightarrow> (ForcingClose, True) | WriterExit \<Rightarrow> (phase, False))
    | ForcingClose \<Rightarrow> (case signal of DisconnectSignal \<Rightarrow> (ConnClosed, False) | _ \<Rightarrow> (phase, False))
    | ConnClosed \<Rightarrow> (phase, False))"

text \<open>The phase after a sequence of signals and how often the kill signal was sent.\<close>

fun run_until_disconnect :: "conn_signal list \<Rightarrow> conn_phase \<Rightarrow> conn_phase \<times> nat" where
  "run_until_disconnect [] phase = (phase, 0)"
| "run_until_disconnect (signal # signals) phase = (case conn_step signal phase of
      (phase', kill) \<Rightarrow> (case run_until_disconnect signals phase' of
          (phase'', n) \<Rightarrow> (phase'', (if kill then 1 else 0) + n)))"

section \<open>Laws of the tasks\<close>

lemma run_reader_chunks:
  assumes "\<And>c. c \<in> set chunks \<Longrightarrow> c \<noteq> []"
  shows "run_reader buffer (map ReadBytes chunks @ rs) = (case feed buffer chunks of
      None \<Rightarrow> None
    | Some (ms, buffer') \<Rightarrow> (case run_reader buffer' rs of
        None \<Rightarrow> None
      | Some (events, ended) \<Rightarrow> Some (map FixMessageReceived ms @ events, ended)))"
  using assms by (induction chunks arbitrary: buffer) (auto split: option.split prod.split)

text \<open>However the reader ends, the last event is one \<open>Disconnected\<close>, and it is the only one.\<close>

lemma run_reader_ends:
  "run_reader buffer rs = Some (events, ended) \<Longrightarrow>
     \<exists>ms. events = map FixMessageReceived ms @ (if ended then [last events] else [])
       \<and> (ended \<longrightarrow> (\<exists>r. last events = DisconnectedEvent r))"
proof (induction buffer rs arbitrary: events ended rule: run_reader.induct)
  case (1 buffer)
  then show ?case by simp
next
  case (2 buffer buf rs)
  show ?case
  proof (cases "buf = []")
    case False
    with 2(2) obtain msgs buffer' evs where p: "Parser_parse buffer buf = Some (msgs, buffer')"
      "run_reader buffer' rs = Some (evs, ended)" "events = map FixMessageReceived msgs @ evs"
      by (auto split: option.splits prod.splits)
    from 2(1) [OF False p(1) refl p(2)] obtain ms where ms: "evs = map FixMessageReceived ms @ (if ended then [last evs] else [])"
      "ended \<longrightarrow> (\<exists>r. last evs = DisconnectedEvent r)" by blast
    have "last events = last evs" if ended using ms(1) that by (simp add: p(3)) (metis last_appendR snoc_eq_iff_butlast)
    with ms p(3) show ?thesis by (intro exI [of _ "msgs @ ms"]) auto
  qed (use 2(2) in auto)
qed auto

lemma run_writer_messages:
  assumes "\<And>s m. write_all s m = s @ m"
  shows "run_writer write_all (map SendMessage ms @ rest) socket = run_writer write_all rest (socket @ concat ms)"
  using assms by (induction ms arbitrary: socket) (auto simp: WriterActor_handle_def)

text \<open>A connection is closed exactly when the reader has signalled, and the watchdog kills the reader at most once, after the writer
  has exited.\<close>

lemma run_until_disconnect_closed:
  "fst (run_until_disconnect signals phase) = ConnClosed \<longleftrightarrow> phase = ConnClosed \<or> DisconnectSignal \<in> set signals"
proof (induction signals arbitrary: phase)
  case (Cons signal signals)
  obtain phase' kill where step: "conn_step signal phase = (phase', kill)" by fastforce
  then have "phase' = ConnClosed \<longleftrightarrow> phase = ConnClosed \<or> signal = DisconnectSignal"
    by (auto simp: conn_step_def split: conn_phase.splits conn_signal.splits)
  with Cons.IH [of phase'] step show ?case by (auto split: prod.split)
qed simp

lemma run_until_disconnect_kills:
  "snd (run_until_disconnect signals phase) \<le> (if phase = WaitingForReader \<or> phase = WaitingForEither \<and> WriterExit \<in> set signals then 1 else 0)"
proof (induction signals arbitrary: phase)
  case (Cons signal signals)
  obtain phase' kill where step: "conn_step signal phase = (phase', kill)" by fastforce
  show ?case
    using Cons.IH [of phase'] step
    by (cases phase; cases signal) (auto simp: conn_step_def split: prod.splits if_splits)
qed simp

section \<open>From one engine to another\<close>

text \<open>C12. A connection delivers what is put into it. The messages handed to a writer before it is told to disconnect arrive at the session on
  the other side as one event each, in their order, whatever the sizes of the reads; what is in the mailbox after the
  disconnect is not written; and the end of the connection is the last event.\<close>

theorem connection_delivers:
  assumes appends: "\<And>s m. write_all s m = s @ m"
    and ms: "\<forall>m \<in> set ms. message_ok m \<and> (\<exists>v. part_get_raw BEGIN_STRING (header m) = Some v \<and> SOH \<notin> set v)
      \<and> length (fst (encode default_config m)) < 2 ^ 64"
    and sent: "run_writer write_all (map (\<lambda>m. SendMessage (fst (encode default_config m))) ms @ Disconnect # rest) [] = (socket, closed)"
    and chunks: "\<forall>c \<in> set chunks. c \<noteq> []" "concat chunks = socket"
  shows "closed \<and> run_reader [] (map ReadBytes chunks @ [ReadBytes []])
    = Some (map (\<lambda>m. FixMessageReceived (fst (encode default_config m))) ms @ [DisconnectedEvent ''received EOF''], True)"
proof -
  let ?raws = "map (\<lambda>m. fst (encode default_config m)) ms"
  have mailbox: "map (\<lambda>m. SendMessage (fst (encode default_config m))) ms = map SendMessage ?raws" by simp
  have "run_writer write_all (map SendMessage ?raws @ Disconnect # rest) [] = run_writer write_all (Disconnect # rest) ([] @ concat ?raws)"
    by (rule run_writer_messages) (rule appends)
  with sent have socket: "socket = concat ?raws" "closed" unfolding mailbox by (simp_all add: WriterActor_handle_def)
  then have "feed [] chunks = Some (?raws, [])" using encoded_stream_recovered [OF ms] chunks(2) by simp
  with socket(2) chunks(1) show ?thesis by (simp add: run_reader_chunks comp_def)
qed

theorem connection_delivers_witness:
  "run_reader [] [ReadBytes (fst (encode default_config (Message_new ''FIX.4.4'' ''0''))), ReadBytes []]
    = Some ([FixMessageReceived (fst (encode default_config (Message_new ''FIX.4.4'' ''0''))), DisconnectedEvent ''received EOF''], True)"
proof -
  let ?m = "Message_new ''FIX.4.4'' ''0''"
  have "length (fst (encode default_config ?m)) < 2 ^ 64"
    by (rule less_trans [of _ 100]) (code_simp, simp)
  moreover have "part_get_raw BEGIN_STRING (header ?m) = Some ''FIX.4.4''" "SOH \<notin> set ''FIX.4.4''" "message_ok ?m"
    "fst (encode default_config ?m) \<noteq> []" by code_simp+
  ultimately show ?thesis
    using connection_delivers [of "(@)" "[?m]" "[]" "fst (encode default_config ?m)" True "[fst (encode default_config ?m)]"]
    by (simp add: WriterActor_handle_def)
qed

end
