(* ===== verification/Engine.thy ===== *)
theory Engine
  imports Specification Transport Session_Behaviour
begin

text \<open>
  The engine around a session: creating it from its configuration (\<^verbatim>\<open>session.rs\<close>), the references through which other tasks talk to
  it (\<^verbatim>\<open>session/session_ref.rs\<close>, \<^verbatim>\<open>session/session_handle.rs\<close>), the order in which the session task takes its inputs, and the loop of the
  initiator that connects and reconnects (\<^verbatim>\<open>initiator.rs\<close>). The tasks interleave as a step relation on their joint state. The
  capacities of the channels only delay a sender and are not part of the state.
\<close>

section \<open>Creating a session\<close>

record 'tz engine_config =
  cfg_session :: session_config
  data_dictionary_path :: "string option"
  cfg_validate_user_defined_fields :: bool
  cfg_schedule :: "'tz schedule_config option"
  reconnect_interval :: u64

datatype session_creation_error =
    UnsupportedBeginString string
  | MalformedDictionary parse_error
  | InvalidDictionary parser_error
  | InvalidSchedule string

text \<open>The file system, the XML parser and the text of the specification that is compiled in.\<close>

record resources =
  res_read_to_string :: "string \<Rightarrow> string option"
  res_parse_xml :: "string \<Rightarrow> xml_node option"
  res_fix44_xml :: string

definition fix44 :: "resources \<Rightarrow> (dictionary, 'e) outcome" where
  "fix44 res = (case from_quickfix_spec (res_parse_xml res) (res_fix44_xml res) of Ok d \<Rightarrow> Ok d | _ \<Rightarrow> Panic)"

definition get_data_dictionary :: "resources \<Rightarrow> 'tz engine_config \<Rightarrow> (dictionary, session_creation_error) outcome" where
  "get_data_dictionary res cfg = (case data_dictionary_path cfg of
      None \<Rightarrow> if begin_string (cfg_session cfg) = ''FIX.4.4'' then fix44 res
        else Err (UnsupportedBeginString (begin_string (cfg_session cfg)))
    | Some path \<Rightarrow> (case load_from_file (res_parse_xml res) (res_read_to_string res) path of
          Ok d \<Rightarrow> Ok d
        | Err e \<Rightarrow> Err (MalformedDictionary e)
        | Panic \<Rightarrow> Panic))"

text \<open>\<open>None\<close> is the stack overflow of \<open>MessageBuilder::new\<close>.\<close>

definition create_session ::
    "nat \<Rightarrow> resources \<Rightarrow> ('s, 'tz) session_env \<Rightarrow> 'tz engine_config \<Rightarrow> 's \<Rightarrow> instant
     \<Rightarrow> (('s, 'tz) session, session_creation_error) outcome option" where
  "create_session n res env cfg st now = (case get_data_dictionary res cfg of
      Ok d \<Rightarrow> (case MessageBuilder_new n d (default_config\<lparr>validate_user_defined_fields := cfg_validate_user_defined_fields cfg\<rparr>) of
          None \<Rightarrow> None
        | Some (Ok mb) \<Rightarrow> Some (case Session_new env (cfg_session cfg) mb (cfg_validate_user_defined_fields cfg) (cfg_schedule cfg) st now of
              Ok s \<Rightarrow> Ok s
            | Err e \<Rightarrow> Err (InvalidSchedule e)
            | Panic \<Rightarrow> Panic)
        | Some (Err e) \<Rightarrow> Some (Err (InvalidDictionary e))
        | Some Panic \<Rightarrow> Some Panic)
    | Err e \<Rightarrow> Some (Err e)
    | Panic \<Rightarrow> Some Panic)"

section \<open>References to a session\<close>

record channels =
  ch_events :: "session_event list"
  ch_outbound :: "(outbound_message \<times> responder option) list"
  ch_admin :: "admin_request list"
  ch_open :: bool

text \<open>Sending fails once the session task, and with it the receivers, is gone.\<close>

definition send_event :: "session_event \<Rightarrow> (channels, unit, unit) comp" where
  "send_event e = (\<lambda>ch. if ch_open ch then (Ok (), ch\<lparr>ch_events := ch_events ch @ [e]\<rparr>) else (Err (), ch))"

definition send_admin :: "admin_request \<Rightarrow> (channels, unit, send_error) comp" where
  "send_admin r = (\<lambda>ch. if ch_open ch then (Ok (), ch\<lparr>ch_admin := ch_admin ch @ [r]\<rparr>) else (Err SessionGone, ch))"

definition send_outbound :: "outbound_message \<Rightarrow> responder option \<Rightarrow> (channels, unit, send_error) comp" where
  "send_outbound m confirm = (\<lambda>ch. if ch_open ch then (Ok (), ch\<lparr>ch_outbound := ch_outbound ch @ [(m, confirm)]\<rparr>) else (Err SessionGone, ch))"

text \<open>What a \<open>oneshot\<close> receiver gets: the answer the session has given to its sender, nothing yet, or an error when the task has ended.\<close>

definition await_answer :: "bool \<Rightarrow> effect list \<Rightarrow> responder \<Rightarrow> (answer, unit) outcome option" where
  "await_answer open trace r = (case List.find (\<lambda>e. case e of Answer r' _ \<Rightarrow> r' = r | _ \<Rightarrow> False) trace of
      Some (Answer _ a) \<Rightarrow> Some (Ok a)
    | _ \<Rightarrow> if open then None else Some (Err ()))"

definition register_writer :: "writer_ref \<Rightarrow> (channels, unit, unit) comp" where
  "register_writer w = send_event (Connected w)"

definition new_fix_message_received :: "bytes \<Rightarrow> (channels, unit, unit) comp" where
  "new_fix_message_received msg = send_event (FixMessageReceived msg)"

definition ref_disconnect :: "string \<Rightarrow> (channels, unit, unit) comp" where
  "ref_disconnect reason = send_event (DisconnectedEvent reason)"

definition ref_should_reconnect :: "responder \<Rightarrow> (channels, unit, unit) comp" where
  "ref_should_reconnect r = send_event (ShouldReconnect r)"

definition await_in_schedule :: "responder \<Rightarrow> (channels, unit, unit) comp" where
  "await_in_schedule r = send_event (AwaitSchedule r)"

text \<open>The public handle; the sequence number of the last operation has the type \<open>NonZeroU64\<close>.\<close>

definition handle_get_session_info :: "responder \<Rightarrow> (channels, unit, send_error) comp" where
  "handle_get_session_info r = send_admin (RequestSessionInfo r)"

definition handle_send :: "outbound_message \<Rightarrow> responder \<Rightarrow> (channels, unit, send_error) comp" where
  "handle_send m r = send_outbound m (Some r)"

definition handle_send_forget :: "outbound_message \<Rightarrow> (channels, unit, send_error) comp" where
  "handle_send_forget m = send_outbound m None"

definition handle_shutdown :: "bool \<Rightarrow> (channels, unit, send_error) comp" where
  "handle_shutdown rc = send_admin (InitiateGracefulShutdown rc)"

definition request_reset_on_next_logon :: "(channels, unit, send_error) comp" where
  "request_reset_on_next_logon = send_admin ResetSequenceNumbersOnNextLogon"

definition handle_set_next_target_seq_num :: "u64 \<Rightarrow> responder \<Rightarrow> (channels, unit, send_error) comp" where
  "handle_set_next_target_seq_num n r = send_admin (SetNextTargetSeqNum n r)"

section \<open>The inputs of the session task\<close>

text \<open>The \<open>select!\<close> is biased: administrative requests come before events, events before outbound messages, and a timer
  fires only when the three channels are empty.\<close>

definition select_input :: "('s, 'tz) session_env \<Rightarrow> channels \<Rightarrow> ('s, 'tz) session \<Rightarrow> task_input option" where
  "select_input env ch s = (case ch_admin ch of
      r # _ \<Rightarrow> Some (AdminInput r)
    | [] \<Rightarrow> (case ch_events ch of
        e # _ \<Rightarrow> Some (EventInput e)
      | [] \<Rightarrow> (case ch_outbound ch of
          (m, confirm) # _ \<Rightarrow> Some (OutboundInput m confirm)
        | [] \<Rightarrow> List.find (input_enabled env s) [HeartbeatTimer, PeerTimer, ScheduleTimer])))"

definition take_input :: "task_input \<Rightarrow> channels \<Rightarrow> channels" where
  "take_input i ch = (case i of
      AdminInput _ \<Rightarrow> ch\<lparr>ch_admin := tl (ch_admin ch)\<rparr>
    | EventInput _ \<Rightarrow> ch\<lparr>ch_events := tl (ch_events ch)\<rparr>
    | OutboundInput _ _ \<Rightarrow> ch\<lparr>ch_outbound := tl (ch_outbound ch)\<rparr>
    | _ \<Rightarrow> ch)"

section \<open>The connection loop\<close>

text \<open>Where \<open>establish_connection\<close> is: waiting for the schedule, connecting, registering the writer, running, asking whether to reconnect,
  sleeping, or done, with the completion flag set.\<close>

datatype loop_state =
    LoopAwaitSchedule | LoopConnect | LoopRegister writer_ref | LoopRunning writer_ref | LoopAskReconnect | LoopSleep | LoopDone

datatype loop_signal =
    ScheduleIs schedule_response
  | ConnectResult "writer_ref option"
  | Registered
  | ConnectionEnded
  | ReconnectIs bool
  | IntervalElapsed
  | SessionTaskGone

definition establish_connection :: "loop_signal \<Rightarrow> loop_state \<Rightarrow> loop_state" where
  "establish_connection signal st = (case st of
      LoopAwaitSchedule \<Rightarrow> (case signal of
          ScheduleIs InSchedule \<Rightarrow> LoopConnect
        | ScheduleIs Shutdown \<Rightarrow> LoopDone
        | SessionTaskGone \<Rightarrow> LoopDone
        | _ \<Rightarrow> st)
    | LoopConnect \<Rightarrow> (case signal of
          ConnectResult (Some w) \<Rightarrow> LoopRegister w
        | ConnectResult None \<Rightarrow> LoopAskReconnect
        | _ \<Rightarrow> st)
    | LoopRegister w \<Rightarrow> (case signal of Registered \<Rightarrow> LoopRunning w | SessionTaskGone \<Rightarrow> LoopDone | _ \<Rightarrow> st)
    | LoopRunning w \<Rightarrow> (case signal of ConnectionEnded \<Rightarrow> LoopAskReconnect | _ \<Rightarrow> st)
    | LoopAskReconnect \<Rightarrow> (case signal of
          ReconnectIs True \<Rightarrow> LoopSleep
        | ReconnectIs False \<Rightarrow> LoopDone
        | SessionTaskGone \<Rightarrow> LoopDone
        | _ \<Rightarrow> st)
    | LoopSleep \<Rightarrow> (case signal of IntervalElapsed \<Rightarrow> LoopAwaitSchedule | _ \<Rightarrow> st)
    | LoopDone \<Rightarrow> LoopDone)"

definition is_interested :: "session_config \<Rightarrow> string \<Rightarrow> string \<Rightarrow> bool" where
  "is_interested cfg sender target \<longleftrightarrow> sender_comp_id cfg = sender \<and> target_comp_id cfg = target"

section \<open>The engine\<close>

text \<open>
  \<open>eng_reader\<close> is the buffer of the reader that is running, if one is; \<open>eng_pending\<close> the responder of the question the loop has asked;
  \<open>eng_next\<close> a number no responder or writer has been given yet.
\<close>

record ('s, 'tz) engine =
  eng_session :: "('s, 'tz) session"
  eng_ch :: channels
  eng_loop :: loop_state
  eng_pending :: "responder option"
  eng_reader :: "bytes option"
  eng_next :: nat
  eng_completed :: bool

definition no_channels :: channels where
  "no_channels = \<lparr>ch_events = [], ch_outbound = [], ch_admin = [], ch_open = True\<rparr>"

text \<open>\<open>Initiator::start\<close> spawns the session task and the loop.\<close>

definition engine_start :: "('s, 'tz) session \<Rightarrow> ('s, 'tz) engine" where
  "engine_start s = \<lparr>eng_session = s, eng_ch = no_channels, eng_loop = LoopAwaitSchedule, eng_pending = None, eng_reader = None,
     eng_next = 0, eng_completed = False\<rparr>"

definition loop_to :: "loop_signal \<Rightarrow> ('s, 'tz) engine \<Rightarrow> ('s, 'tz) engine" where
  "loop_to signal e = (let st = establish_connection signal (eng_loop e) in
     e\<lparr>eng_loop := st, eng_pending := None, eng_completed := eng_completed e \<or> st = LoopDone\<rparr>)"

definition is_shutdown :: "('s, 'tz) engine \<Rightarrow> bool" where
  "is_shutdown e = eng_completed e"

definition loop_question :: "loop_state \<Rightarrow> responder \<Rightarrow> (channels, unit, unit) comp" where
  "loop_question st r = (case st of LoopAwaitSchedule \<Rightarrow> await_in_schedule r | _ \<Rightarrow> ref_should_reconnect r)"

definition answer_signal :: "(answer, unit) outcome \<Rightarrow> loop_signal option" where
  "answer_signal a = (case a of
      Ok (ScheduleAnswer x) \<Rightarrow> Some (ScheduleIs x)
    | Ok (ShouldReconnectAnswer b) \<Rightarrow> Some (ReconnectIs b)
    | Err _ \<Rightarrow> Some SessionTaskGone
    | _ \<Rightarrow> None)"

inductive engine_step :: "('s, 'tz) session_env \<Rightarrow> ('s, 'tz) engine \<Rightarrow> ('s, 'tz) engine \<Rightarrow> bool" for env where
  task_input: "ch_open (eng_ch e) \<Longrightarrow> select_input env (eng_ch e) (eng_session e) = Some i
    \<Longrightarrow> handle_input env i (eng_session e) = ((Ok () :: (unit, unit) outcome), s')
    \<Longrightarrow> engine_step env e (e\<lparr>eng_session := s', eng_ch := take_input i (eng_ch e)\<rparr>)"
| task_panic: "ch_open (eng_ch e) \<Longrightarrow> select_input env (eng_ch e) (eng_session e) = Some i
    \<Longrightarrow> handle_input env i (eng_session e) = ((Panic :: (unit, unit) outcome), s')
    \<Longrightarrow> engine_step env e (e\<lparr>eng_ch := (eng_ch e)\<lparr>ch_open := False\<rparr>\<rparr>)"
| client_outbound: "send_outbound m confirm (eng_ch e) = (r, ch') \<Longrightarrow> confirm \<in> {None, Some (eng_next e)}
    \<Longrightarrow> engine_step env e (e\<lparr>eng_ch := ch', eng_next := eng_next e + 1\<rparr>)"
| client_admin: "send_admin a (eng_ch e) = (r, ch')
    \<Longrightarrow> a \<in> {InitiateGracefulShutdown rc, RequestSessionInfo (eng_next e), ResetSequenceNumbersOnNextLogon, SetNextTargetSeqNum n (eng_next e)}
    \<Longrightarrow> n \<noteq> 0 \<Longrightarrow> engine_step env e (e\<lparr>eng_ch := ch', eng_next := eng_next e + 1\<rparr>)"
| reader_bytes: "eng_reader e = Some buffer \<Longrightarrow> chunk \<noteq> [] \<Longrightarrow> Parser_parse buffer chunk = Some (ms, buffer')
    \<Longrightarrow> engine_step env e (e\<lparr>eng_reader := Some buffer', eng_ch := foldl (\<lambda>ch m. snd (new_fix_message_received m ch)) (eng_ch e) ms\<rparr>)"
| reader_end: "eng_reader e = Some buffer
    \<Longrightarrow> engine_step env e (e\<lparr>eng_reader := None, eng_ch := snd (ref_disconnect reason (eng_ch e))\<rparr>)"
| loop_asks: "eng_loop e \<in> {LoopAwaitSchedule, LoopAskReconnect} \<Longrightarrow> eng_pending e = None
    \<Longrightarrow> loop_question (eng_loop e) (eng_next e) (eng_ch e) = (Ok (), ch')
    \<Longrightarrow> engine_step env e (e\<lparr>eng_ch := ch', eng_pending := Some (eng_next e), eng_next := eng_next e + 1\<rparr>)"
| loop_cannot_ask: "eng_loop e \<in> {LoopAwaitSchedule, LoopAskReconnect} \<Longrightarrow> eng_pending e = None
    \<Longrightarrow> loop_question (eng_loop e) (eng_next e) (eng_ch e) = (Err (), ch')
    \<Longrightarrow> engine_step env e (loop_to SessionTaskGone e)"
| loop_answered: "eng_pending e = Some r \<Longrightarrow> await_answer (ch_open (eng_ch e)) (ctx_trace (sess_ctx (eng_session e))) r = Some a
    \<Longrightarrow> answer_signal a = Some signal \<Longrightarrow> engine_step env e (loop_to signal e)"
| loop_connects: "eng_loop e = LoopConnect
    \<Longrightarrow> engine_step env e ((loop_to (ConnectResult (Some (eng_next e))) e)\<lparr>eng_reader := Some [], eng_next := eng_next e + 1\<rparr>)"
| loop_connect_fails: "eng_loop e = LoopConnect \<Longrightarrow> engine_step env e (loop_to (ConnectResult None) e)"
| loop_registers: "eng_loop e = LoopRegister w \<Longrightarrow> register_writer w (eng_ch e) = (r, ch')
    \<Longrightarrow> engine_step env e ((loop_to (case r of Ok _ \<Rightarrow> Registered | _ \<Rightarrow> SessionTaskGone) e)\<lparr>eng_ch := ch'\<rparr>)"
| loop_disconnected: "eng_loop e = LoopRunning w \<Longrightarrow> eng_reader e = None \<Longrightarrow> engine_step env e (loop_to ConnectionEnded e)"
| loop_wakes: "eng_loop e = LoopSleep \<Longrightarrow> engine_step env e (loop_to IntervalElapsed e)"

abbreviation engine_reaches :: "('s, 'tz) session_env \<Rightarrow> ('s, 'tz) engine \<Rightarrow> ('s, 'tz) engine \<Rightarrow> bool" where
  "engine_reaches env \<equiv> (engine_step env)\<^sup>*\<^sup>*"

section \<open>The session inside the engine\<close>

definition admin_ok :: "channels \<Rightarrow> bool" where
  "admin_ok ch \<longleftrightarrow> (\<forall>n r. SetNextTargetSeqNum n r \<in> set (ch_admin ch) \<longrightarrow> n \<noteq> 0)"

lemma send_event_admin: "ch_admin (snd (send_event x ch)) = ch_admin ch"
  by (simp add: send_event_def)

lemma send_events_admin: "ch_admin (foldl (\<lambda>ch m. snd (new_fix_message_received m ch)) ch ms) = ch_admin ch"
  by (induction ms arbitrary: ch) (auto simp: new_fix_message_received_def send_event_admin)

lemma loop_to_simps [simp]:
  "eng_session (loop_to x e) = eng_session e" "eng_ch (loop_to x e) = eng_ch e" "eng_reader (loop_to x e) = eng_reader e"
  "eng_next (loop_to x e) = eng_next e" "eng_loop (loop_to x e) = establish_connection x (eng_loop e)"
  "eng_completed (loop_to x e) = (eng_completed e \<or> establish_connection x (eng_loop e) = LoopDone)"
  by (simp_all add: loop_to_def Let_def)

lemma select_input_enabled:
  assumes "select_input env ch s = Some i" and "admin_ok ch"
  shows "input_enabled env s i" "admin_ok (take_input i ch)"
proof -
  have found: "List.find P xs = Some x \<Longrightarrow> P x" for P :: "task_input \<Rightarrow> bool" and xs x by (auto simp: find_Some_iff)
  show "input_enabled env s i"
  proof (cases "ch_admin ch")
    case (Cons r rs)
    with assms show ?thesis by (cases r) (auto simp: select_input_def admin_ok_def input_enabled_def Let_def)
  next
    case Nil
    show ?thesis
    proof (cases "ch_events ch = [] \<and> ch_outbound ch = []")
      case True
      with Nil assms(1) show ?thesis by (auto simp: select_input_def simp del: find.simps dest: found)
    next
      case False
      with Nil assms(1) show ?thesis by (auto simp: select_input_def input_enabled_def Let_def split: list.splits)
    qed
  qed
  show "admin_ok (take_input i ch)"
    using assms(2) by (cases i; cases "ch_admin ch") (auto simp: take_input_def admin_ok_def)
qed

lemma engine_step_session:
  assumes "engine_step env e e'" and "admin_ok (eng_ch e)"
  shows "admin_ok (eng_ch e') \<and> (eng_session e' = eng_session e \<or> (\<exists>i. session_step env (eng_session e) i (eng_session e')))"
  using assms
proof cases
  case (task_input i s')
  with select_input_enabled [OF task_input(3) assms(2)] show ?thesis by (auto simp: session_step_simp)
next
  case (loop_registers w r ch')
  then show ?thesis using assms(2) send_event_admin [of "Connected w" "eng_ch e"] by (auto simp: admin_ok_def register_writer_def)
next
  case (loop_asks ch')
  have "ch_admin ch' = ch_admin (eng_ch e)"
    using loop_asks(4) send_event_admin
    by (auto simp: loop_question_def await_in_schedule_def ref_should_reconnect_def split: loop_state.splits) (metis snd_conv)+
  with loop_asks assms(2) show ?thesis by (auto simp: admin_ok_def)
qed (use assms(2) in \<open>auto simp: admin_ok_def send_outbound_def send_admin_def send_events_admin ref_disconnect_def send_event_admin split: if_splits\<close>)

lemma session_run_snoc: "session_run env s is s' \<Longrightarrow> session_step env s' i s'' \<Longrightarrow> session_run env s (is @ [i]) s''"
  by (induction rule: session_run.induct) (auto intro: run_cons run_nil)


section \<open>One connection at a time\<close>

definition loop_inv :: "('s, 'tz) engine \<Rightarrow> bool" where
  "loop_inv e \<longleftrightarrow> (eng_completed e \<longleftrightarrow> eng_loop e = LoopDone)
     \<and> (eng_reader e \<noteq> None \<longrightarrow> (\<exists>w. eng_loop e = LoopRegister w \<or> eng_loop e = LoopRunning w) \<or> eng_loop e = LoopDone)
     \<and> (\<forall>w. eng_loop e = LoopRegister w \<or> eng_loop e = LoopRunning w \<longrightarrow> w < eng_next e)
     \<and> (eng_pending e \<noteq> None \<longrightarrow> eng_loop e = LoopAwaitSchedule \<or> eng_loop e = LoopAskReconnect)"

lemma establish_connection_simps [simp]:
  "establish_connection (ConnectResult (Some w)) LoopConnect = LoopRegister w"
  "establish_connection (ConnectResult None) LoopConnect = LoopAskReconnect"
  "establish_connection Registered (LoopRegister w) = LoopRunning w"
  "establish_connection SessionTaskGone (LoopRegister w) = LoopDone"
  "establish_connection ConnectionEnded (LoopRunning w) = LoopAskReconnect"
  "establish_connection IntervalElapsed LoopSleep = LoopAwaitSchedule"
  "establish_connection SessionTaskGone LoopAwaitSchedule = LoopDone"
  "establish_connection SessionTaskGone LoopAskReconnect = LoopDone"
  "establish_connection (ReconnectIs False) LoopAskReconnect = LoopDone"
  "establish_connection x LoopDone = LoopDone"
  by (simp_all add: establish_connection_def)

lemma establish_connection_answered:
  assumes "st = LoopAwaitSchedule \<or> st = LoopAskReconnect"
  shows "establish_connection x st = st \<or> establish_connection x st \<in> {LoopConnect, LoopSleep, LoopDone}"
  using assms by (cases x) (auto simp: establish_connection_def split: schedule_response.splits bool.splits)

lemma loop_inv_step:
  assumes "engine_step env e e'" and "loop_inv e"
  shows "loop_inv e' \<and> (eng_loop e = LoopDone \<longrightarrow> eng_loop e' = LoopDone)"
  using assms
proof cases
  case (loop_answered r a signal)
  then have "eng_loop e = LoopAwaitSchedule \<or> eng_loop e = LoopAskReconnect" using assms(2) by (auto simp: loop_inv_def)
  with establish_connection_answered [OF this, of signal] loop_answered(1) assms(2) show ?thesis
    by (auto simp: loop_inv_def loop_to_def Let_def)
next
  case (loop_registers w r ch')
  then show ?thesis using assms(2) by (cases r) (auto simp: loop_inv_def loop_to_def Let_def)
next
  case (loop_cannot_ask ch')
  then show ?thesis using assms(2) by (auto simp: loop_inv_def loop_to_def Let_def)
next
  case loop_connects
  then show ?thesis using assms(2) by (auto simp: loop_inv_def loop_to_def Let_def)
next
  case loop_connect_fails
  then show ?thesis using assms(2) by (auto simp: loop_inv_def loop_to_def Let_def)
next
  case (loop_disconnected w)
  then show ?thesis using assms(2) by (auto simp: loop_inv_def loop_to_def Let_def)
next
  case loop_wakes
  then show ?thesis using assms(2) by (auto simp: loop_inv_def loop_to_def Let_def)
qed (use assms(2) in \<open>auto simp: loop_inv_def\<close>)

text \<open>C28. One connection at a time, and none after the end. In every reachable state of the engine the completion flag says exactly that
  the loop is done, a reader runs only for the connection the loop has made, and once the flag is set no step of
  any task makes the loop connect again.\<close>

theorem one_connection_at_a_time:
  assumes "engine_reaches env (engine_start s) e"
  shows "(is_shutdown e \<longleftrightarrow> eng_loop e = LoopDone)
    \<and> (eng_reader e \<noteq> None \<longrightarrow> (\<exists>w. eng_loop e = LoopRegister w \<or> eng_loop e = LoopRunning w) \<or> is_shutdown e)
    \<and> (is_shutdown e \<longrightarrow> (\<forall>e'. engine_reaches env e e' \<longrightarrow> is_shutdown e' \<and> eng_loop e' = LoopDone))"
proof -
  have "loop_inv (engine_start s)" by (simp add: loop_inv_def engine_start_def)
  with assms have inv: "loop_inv e"
    by (induction rule: rtranclp_induct) (auto dest: loop_inv_step)
  have "loop_inv e' \<and> eng_loop e' = LoopDone" if "engine_reaches env e e'" "eng_loop e = LoopDone" for e'
    using that inv by (induction rule: rtranclp_induct) (auto dest: loop_inv_step)
  with inv show ?thesis by (auto simp: loop_inv_def is_shutdown_def)
qed

section \<open>Ending and racing\<close>

text \<open>A session that must not reconnect stays so through a schedule check.\<close>

abbreviation ended_for_good :: "('s, 'tz) session \<Rightarrow> bool" where
  "ended_for_good s \<equiv> \<exists>ds. sess_state s = Disconnected ds \<and> \<not> reconnect ds"

lemma in_ctx_keeps_state: "(\<And>s c. P (s\<lparr>sess_ctx := c\<rparr>) \<longleftrightarrow> P s) \<Longrightarrow> keeps P (in_ctx m)"
  by (auto simp: ensures_def in_ctx_def split: prod.split)

lemma and_then_keeps: "keeps P m \<Longrightarrow> ensures P n Q \<Longrightarrow> ensures P (and_then m n) Q"
  unfolding and_then_def by (rule keeps_bind)

lemma ended_in_ctx: "keeps ended_for_good (in_ctx m)"
  by (rule in_ctx_keeps_state) simp

lemma ended_logout_and_terminate: "keeps ended_for_good (logout_and_terminate env r)"
proof -
  have send: "keeps ended_for_good (session_send_message env om)" for om
  proof (rule ensuresI)
    fix s x s'
    assume ended: "ended_for_good s" and run: "session_send_message env om s = (x, s')"
    then show "ended_for_good s' \<and> (\<forall>a. x = Ok a \<longrightarrow> True)"
      by (auto simp: session_send_message_def and_then_def comp_simps in_ctx_def reset_heartbeat_timer_def read_clock_def
          state_reset_heartbeat_timer_def split: prod.splits outcome.splits)
  qed
  show ?thesis
    unfolding logout_and_terminate_def send_logout_def with_send_context_def disconnect_writer_def if_writer_def
    by (intro and_then_keeps ensures_log_err ensures_map_err send ensures_pure TrueI ensures_bind_gets)
      (auto simp: get_writer_def intro: ensures_pure)
qed

lemma ended_stop: "keeps ended_for_good (apply_transition (TransitionTo (new_disconnected False r)))"
  unfolding apply_transition_def
  by (auto simp: new_disconnected_def set_state_def intro!: ensures_bind_gets and_then_keeps ensures_modify ended_in_ctx ensures_pure)

lemma ended_reset_store: "keeps ended_for_good (reset_store_or_stop env)"
  unfolding reset_store_or_stop_def
  by (auto intro!: keeps_bind [OF ended_in_ctx] keeps_bind [OF keeps_attempt [OF ended_in_ctx]] ended_stop ensures_pure split: outcome.split)

lemma ended_schedule_check: "keeps ended_for_good (handle_schedule_check env)"
proof -
  have notify: "keeps ended_for_good notify_awaiter"
    unfolding notify_awaiter_def
    by (rule ensures_bind_gets)
      (auto simp: notify_schedule_awaiter_def set_state_def intro!: and_then_keeps ensures_modify ended_in_ctx ensures_pure
        split: option.split session_state.split)
  show ?thesis
    unfolding handle_schedule_check_def
    by (intro keeps_bind [OF ended_in_ctx] ensures_bind_gets and_then_keeps)
      (auto simp: is_connected_def get_writer_def intro!: and_then_keeps [OF notify] ensures_bind_gets and_then_keeps ended_logout_and_terminate ended_reset_store ensures_pure
        keeps_bind [OF ended_in_ctx] ensures_modify split: outcome.split session_period_comparison.split)
qed

lemma find_answer_first:
  assumes "\<And>x. Answer r x \<notin> set trace"
  shows "await_answer b (trace @ [Answer r a]) r = Some (Ok a)"
proof -
  have "List.find (\<lambda>e. case e of Answer r' _ \<Rightarrow> r' = r | _ \<Rightarrow> False) (trace @ [Answer r a]) = Some (Answer r a)"
    using assms
  proof (induction trace)
    case (Cons e trace)
    then show ?case by (cases e) auto
  qed simp
  then show ?thesis by (simp add: await_answer_def)
qed


text \<open>A message can overtake the connection. \<open>connect\<close> starts the reader before the loop registers the writer, so a message the
  peer sends at once can be the next input of a session that has not been told of the connection and is still in the
  state it had before.\<close>

theorem message_before_connected:
  assumes loop: "eng_loop e = LoopConnect" and idle: "ch_open (eng_ch e)" "ch_admin (eng_ch e) = []" "ch_events (eng_ch e) = []"
    and m: "message_ok m" "part_get_raw BEGIN_STRING (header m) = Some v" "SOH \<notin> set v" "length (fst (encode default_config m)) < 2 ^ 64"
  shows "\<exists>e'. engine_reaches env e e' \<and> eng_session e' = eng_session e \<and> eng_loop e' = LoopRegister (eng_next e)
    \<and> select_input env (eng_ch e') (eng_session e') = Some (EventInput (FixMessageReceived (fst (encode default_config m))))"
proof -
  let ?raw = "fst (encode default_config m)"
  let ?e1 = "(loop_to (ConnectResult (Some (eng_next e))) e)\<lparr>eng_reader := Some [], eng_next := eng_next e + 1\<rparr>"
  let ?e2 = "?e1\<lparr>eng_reader := Some [], eng_ch := foldl (\<lambda>ch m. snd (new_fix_message_received m ch)) (eng_ch ?e1) [?raw]\<rparr>"
  have "feed [] [?raw] = Some ([?raw], [])" using encoded_stream_recovered [of "[m]" "[?raw]"] m by auto
  then have parse: "Parser_parse [] ?raw = Some ([?raw], [])" by (auto split: option.splits prod.splits)
  moreover have "?raw \<noteq> []" using parse by (auto simp: Parser_parse_def parse_loop_stops)
  ultimately have "engine_step env ?e1 ?e2" by (intro reader_bytes) simp_all
  moreover have "engine_step env e ?e1" by (rule loop_connects [OF loop])
  moreover have "select_input env (eng_ch ?e2) (eng_session ?e2) = Some (EventInput (FixMessageReceived ?raw))"
    using idle by (simp add: select_input_def new_fix_message_received_def send_event_def)
  moreover have "eng_session ?e2 = eng_session e" "eng_loop ?e2 = LoopRegister (eng_next e)" by (simp_all add: loop)
  ultimately show ?thesis by (meson converse_rtranclp_into_rtranclp rtranclp.rtrancl_refl)
qed

section \<open>Examples\<close>

abbreviation sample_engine :: "(memory_store, unit) engine" where
  "sample_engine \<equiv> engine_start (sample_session (new_disconnected False ''example''))"

definition sample_asking :: "(memory_store, unit) engine" where
  "sample_asking = sample_engine\<lparr>eng_ch := no_channels\<lparr>ch_events := [AwaitSchedule 0]\<rparr>, eng_pending := Some 0, eng_next := 1\<rparr>"

lemma sample_engine_asks: "engine_reaches sample_env sample_engine sample_asking" "ch_events (eng_ch sample_asking) = [AwaitSchedule 0]"
proof -
  have "engine_step sample_env sample_engine sample_asking"
    using loop_asks [of sample_engine "no_channels\<lparr>ch_events := [AwaitSchedule 0]\<rparr>" sample_env]
    by (simp add: sample_asking_def engine_start_def loop_question_def await_in_schedule_def send_event_def no_channels_def)
  then show "engine_reaches sample_env sample_engine sample_asking" by (rule r_into_rtranclp)
  show "ch_events (eng_ch sample_asking) = [AwaitSchedule 0]" by (simp add: sample_asking_def)
qed


theorem one_connection_at_a_time_witness:
  "\<exists>e. engine_reaches sample_env sample_engine e \<and> ch_events (eng_ch e) = [AwaitSchedule 0] \<and> (is_shutdown e \<longleftrightarrow> eng_loop e = LoopDone)"
  using one_connection_at_a_time [OF sample_engine_asks(1)] sample_engine_asks by blast


theorem message_before_connected_witness:
  "\<exists>e'. engine_reaches sample_env (sample_engine\<lparr>eng_loop := LoopConnect\<rparr>) e' \<and> eng_session e' = eng_session sample_engine
    \<and> select_input sample_env (eng_ch e') (eng_session e')
      = Some (EventInput (FixMessageReceived (fst (encode default_config (Message_new ''FIX.4.4'' ''0'')))))"
proof -
  let ?m = "Message_new ''FIX.4.4'' ''0''" and ?e = "sample_engine\<lparr>eng_loop := LoopConnect\<rparr>"
  have "length (fst (encode default_config ?m)) < 2 ^ 64"
    by (rule less_trans [of _ 100]) (code_simp, simp)
  moreover have "part_get_raw BEGIN_STRING (header ?m) = Some ''FIX.4.4''" "SOH \<notin> set ''FIX.4.4''" "message_ok ?m" by code_simp+
  moreover have "eng_loop ?e = LoopConnect" "ch_open (eng_ch ?e)" "ch_admin (eng_ch ?e) = []" "ch_events (eng_ch ?e) = []"
    by (simp_all add: engine_start_def no_channels_def)
  ultimately obtain e' where "engine_reaches sample_env ?e e'" "eng_session e' = eng_session ?e"
    "select_input sample_env (eng_ch e') (eng_session e') = Some (EventInput (FixMessageReceived (fst (encode default_config ?m))))"
    using message_before_connected [of ?e ?m "''FIX.4.4''" sample_env] by blast
  then show ?thesis by (intro exI [of _ e']) simp
qed

end
