(* ===== verification/Connecting.thy ===== *)
theory Connecting
  imports Engine
begin

text \<open>
  From the configuration to a connection: loading the configuration (\<^verbatim>\<open>hotfix/src/config.rs\<close>) and making the stream of a session over TCP or over TLS
  (\<^verbatim>\<open>hotfix/src/transport/socket.rs\<close>, \<^verbatim>\<open>socket/tcp.rs\<close>, \<^verbatim>\<open>socket/tls.rs\<close>). The file system, the TOML parser, the sockets and \<open>rustls\<close> are parameters. A table
  of the TOML file is the record of the values it has; what \<open>serde\<close> makes of the flattened keys of the TLS settings is one of them.

  It is shown when a configuration loads and with which defaults, and that a session that is configured for TLS gets no other stream than one whose handshake
  has succeeded against the configured trust store and host, with the files read before the network is touched.
\<close>

section \<open>Configuration\<close>

datatype tls_config = TlsFile (ca_certificate_path: string) | TlsNative | TlsWebpki

definition default_reconnect_interval :: u64 where
  "default_reconnect_interval = 30"

definition default_logon_timeout :: u64 where
  "default_logon_timeout = 10"

definition default_logout_timeout :: u64 where
  "default_logout_timeout = 2"

definition default_true :: bool where
  "default_true = True"

text \<open>\<open>ValidationConfig\<close> and its builder have one field.\<close>

record validation_config =
  vc_validate_user_defined_fields :: bool

definition ValidationConfigBuilder_default :: validation_config where
  "ValidationConfigBuilder_default = \<lparr>vc_validate_user_defined_fields = True\<rparr>"

definition builder_validate_user_defined_fields :: "bool \<Rightarrow> validation_config \<Rightarrow> validation_config" where
  "builder_validate_user_defined_fields v b = b\<lparr>vc_validate_user_defined_fields := v\<rparr>"

definition ValidationConfigBuilder_build :: "validation_config \<Rightarrow> validation_config" where
  "ValidationConfigBuilder_build b = \<lparr>vc_validate_user_defined_fields = vc_validate_user_defined_fields b\<rparr>"

definition ValidationConfig_default :: validation_config where
  "ValidationConfig_default = ValidationConfigBuilder_build ValidationConfigBuilder_default"

text \<open>The values of a table \<^verbatim>\<open>[[sessions]]\<close>, with \<open>None\<close> for a key that is absent. Inside the table \<^verbatim>\<open>validation\<close> its one key may be absent.\<close>

record 'tz session_table =
  tab_begin_string :: "string option"
  tab_sender_comp_id :: "string option"
  tab_target_comp_id :: "string option"
  tab_data_dictionary_path :: "string option"
  tab_connection_host :: "string option"
  tab_connection_port :: "16 word option"
  tab_tls_config :: "tls_config option"
  tab_heartbeat_interval :: "u64 option"
  tab_logon_timeout :: "u64 option"
  tab_logout_timeout :: "u64 option"
  tab_reconnect_interval :: "u64 option"
  tab_reset_on_logon :: "bool option"
  tab_schedule :: "'tz schedule_config option"
  tab_validation :: "bool option option"

text \<open>The configuration of a session: what the session works with, and the address of its peer.\<close>

record 'tz endpoint_config =
  ep_session :: "'tz engine_config"
  connection_host :: string
  connection_port :: "16 word"
  tls_config :: "tls_config option"

definition or_default :: "'a \<Rightarrow> 'a option \<Rightarrow> 'a" where
  "or_default d x = (case x of None \<Rightarrow> d | Some a \<Rightarrow> a)"

definition validation_of :: "bool option option \<Rightarrow> validation_config" where
  "validation_of t = (case t of
      None \<Rightarrow> ValidationConfig_default
    | Some v \<Rightarrow> \<lparr>vc_validate_user_defined_fields = or_default default_true v\<rparr>)"

text \<open>The derived \<open>Deserialize\<close> of \<open>SessionConfig\<close>: a missing field without a default is an error.\<close>

definition session_config_of :: "'tz session_table \<Rightarrow> 'tz endpoint_config option" where
  "session_config_of t =
     Option.bind (tab_begin_string t) (\<lambda>bs.
     Option.bind (tab_sender_comp_id t) (\<lambda>sender.
     Option.bind (tab_target_comp_id t) (\<lambda>target.
     Option.bind (tab_connection_host t) (\<lambda>host.
     Option.bind (tab_connection_port t) (\<lambda>port.
     Option.bind (tab_heartbeat_interval t) (\<lambda>hb.
     Some \<lparr>ep_session = \<lparr>cfg_session = \<lparr>begin_string = bs, sender_comp_id = sender, target_comp_id = target, heartbeat_interval = hb,
              logon_timeout = or_default default_logon_timeout (tab_logon_timeout t),
              logout_timeout = or_default default_logout_timeout (tab_logout_timeout t),
              reset_on_logon = or_default False (tab_reset_on_logon t)\<rparr>,
            data_dictionary_path = tab_data_dictionary_path t,
            cfg_validate_user_defined_fields = vc_validate_user_defined_fields (validation_of (tab_validation t)),
            cfg_schedule = tab_schedule t,
            reconnect_interval = or_default default_reconnect_interval (tab_reconnect_interval t)\<rparr>,
          connection_host = host, connection_port = port, tls_config = tab_tls_config t\<rparr>))))))"

datatype config_error = ConfigIo | ConfigParse

text \<open>\<open>read\<close> is \<open>fs::read_to_string\<close>; \<open>tables\<close> gives the session tables of a text, or \<open>None\<close> if it is not TOML with a list of such tables.\<close>

definition load_from_path ::
    "(string \<Rightarrow> string option) \<Rightarrow> (string \<Rightarrow> 'tz session_table list option) \<Rightarrow> string \<Rightarrow> ('tz endpoint_config list, config_error) outcome" where
  "load_from_path read tables path = (case read path of
      None \<Rightarrow> Err ConfigIo
    | Some config_str \<Rightarrow> (case Option.bind (tables config_str) (\<lambda>ts. those (map session_config_of ts)) of
        None \<Rightarrow> Err ConfigParse
      | Some sessions \<Rightarrow> Ok sessions))"

section \<open>Connecting\<close>

datatype connection_error = IOError | InvalidDnsName

text \<open>The state \<open>'n\<close> is the network; \<open>'k\<close> a TCP socket, \<open>'e\<close> an encrypted stream, \<open>'c\<close> a certificate, \<open>'d\<close> a server name.\<close>

record ('n, 'k, 'e, 'c, 'd) net =
  tcp_connect :: "string \<Rightarrow> ('n, 'k, unit) comp"
  open_file :: "string \<Rightarrow> bytes option"
  pem_certs :: "bytes \<Rightarrow> 'c list option"
  parsable :: "'c \<Rightarrow> bool"
  native_certs :: "'c list"
  webpki_roots :: "'c list"
  server_name :: "string \<Rightarrow> 'd option"
  handshake :: "'c list \<Rightarrow> 'd \<Rightarrow> 'k \<Rightarrow> ('n, 'e, unit) comp"

datatype ('k, 'e) fix_stream = PlainStream 'k | TlsStream 'e

definition create_tcp_connection :: "('n, 'k, 'e, 'c, 'd) net \<Rightarrow> string \<Rightarrow> 16 word \<Rightarrow> ('n, 'k, connection_error) comp" where
  "create_tcp_connection net host port = map_err (\<lambda>_. IOError) (tcp_connect net (host @ '':'' @ show_nat (unat port)))"

definition load_certs_from_file :: "('n, 'k, 'e, 'c, 'd) net \<Rightarrow> string \<Rightarrow> ('c list, connection_error) outcome" where
  "load_certs_from_file net filename = (case open_file net filename of
      None \<Rightarrow> Err IOError
    | Some content \<Rightarrow> (case pem_certs net content of None \<Rightarrow> Err IOError | Some certs \<Rightarrow> Ok certs))"

text \<open>\<open>add_parsable_certificates\<close> leaves out the certificates it cannot parse.\<close>

definition get_root_store :: "('n, 'k, 'e, 'c, 'd) net \<Rightarrow> tls_config \<Rightarrow> ('c list, connection_error) outcome" where
  "get_root_store net tls = (case tls of
      TlsFile path \<Rightarrow> (case load_certs_from_file net path of
          Ok certs \<Rightarrow> Ok (filter (parsable net) certs)
        | Err e \<Rightarrow> Err e
        | Panic \<Rightarrow> Panic)
    | TlsNative \<Rightarrow> Ok (filter (parsable net) (native_certs net))
    | TlsWebpki \<Rightarrow> Ok (webpki_roots net))"

text \<open>A client configuration is its root certificates; there is no client authentication.\<close>

definition get_client_config :: "('n, 'k, 'e, 'c, 'd) net \<Rightarrow> tls_config \<Rightarrow> ('c list, connection_error) outcome" where
  "get_client_config net tls = get_root_store net tls"

definition wrap_stream :: "('n, 'k, 'e, 'c, 'd) net \<Rightarrow> 'k \<Rightarrow> string \<Rightarrow> 'c list \<Rightarrow> ('n, 'e, connection_error) comp" where
  "wrap_stream net socket domain roots = (case server_name net domain of
      None \<Rightarrow> throw InvalidDnsName
    | Some d \<Rightarrow> map_err (\<lambda>_. IOError) (handshake net roots d socket))"

definition create_tcp_over_tls_connection ::
    "('n, 'k, 'e, 'c, 'd) net \<Rightarrow> string \<Rightarrow> 16 word \<Rightarrow> tls_config \<Rightarrow> ('n, 'e, connection_error) comp" where
  "create_tcp_over_tls_connection net host port tls =
     bind_comp (lift_outcome (get_client_config net tls)) (\<lambda>roots.
     bind_comp (create_tcp_connection net host port) (\<lambda>socket.
     wrap_stream net socket host roots))"

text \<open>\<open>connect\<close>; the reader and the writer are then spawned on the stream.\<close>

definition connect :: "('n, 'k, 'e, 'c, 'd) net \<Rightarrow> 'tz endpoint_config \<Rightarrow> ('n, ('k, 'e) fix_stream, connection_error) comp" where
  "connect net cfg = (case tls_config cfg of
      Some tls \<Rightarrow> bind_comp (create_tcp_over_tls_connection net (connection_host cfg) (connection_port cfg) tls) (\<lambda>s. ret (TlsStream s))
    | None \<Rightarrow> bind_comp (create_tcp_connection net (connection_host cfg) (connection_port cfg)) (\<lambda>s. ret (PlainStream s)))"

section \<open>Loading a configuration\<close>

text \<open>The keys a session must have.\<close>

definition required_keys :: "'tz session_table \<Rightarrow> bool" where
  "required_keys t \<longleftrightarrow> tab_begin_string t \<noteq> None \<and> tab_sender_comp_id t \<noteq> None \<and> tab_target_comp_id t \<noteq> None
     \<and> tab_connection_host t \<noteq> None \<and> tab_connection_port t \<noteq> None \<and> tab_heartbeat_interval t \<noteq> None"

lemma session_config_of_None: "session_config_of t = None \<longleftrightarrow> \<not> required_keys t"
  by (auto simp: session_config_of_def required_keys_def bind_eq_None_conv)

lemma session_config_of_SomeD: "session_config_of t = Some c \<Longrightarrow> required_keys t"
  using session_config_of_None [of t] by simp

lemma those_nth: "those xs = Some ys \<Longrightarrow> length ys = length xs \<and> (\<forall>i < length xs. xs ! i = Some (ys ! i))"
  by (induction xs arbitrary: ys) (auto split: option.splits simp: nth_Cons')

text \<open>A configuration file loads if and only if it can be read, is a list of session tables, and each of them has the six keys without a default; the
  sessions come in the order of the tables, with the documented defaults for what is absent: ten seconds for the answer to a Logon, two for the answer
  to a Logout, thirty between two connections, no reset, and the validation of user-defined fields.\<close>

theorem configuration_loads:
  assumes "read path = Some s"
  shows "(\<exists>cs. load_from_path read tables path = Ok cs) \<longleftrightarrow> (\<exists>ts. tables s = Some ts \<and> (\<forall>t \<in> set ts. required_keys t))"
    and "tables s = Some ts \<Longrightarrow> load_from_path read tables path = Ok cs \<Longrightarrow> i < length ts
      \<Longrightarrow> length cs = length ts \<and> session_config_of (ts ! i) = Some (cs ! i)"
    and "session_config_of t = Some c \<Longrightarrow> tab_logon_timeout t = None \<Longrightarrow> logon_timeout (cfg_session (ep_session c)) = 10"
    and "session_config_of t = Some c \<Longrightarrow> tab_logout_timeout t = None \<Longrightarrow> logout_timeout (cfg_session (ep_session c)) = 2"
    and "session_config_of t = Some c \<Longrightarrow> tab_reconnect_interval t = None \<Longrightarrow> reconnect_interval (ep_session c) = 30"
    and "session_config_of t = Some c \<Longrightarrow> tab_validation t \<in> {None, Some None} \<Longrightarrow> cfg_validate_user_defined_fields (ep_session c)"
proof -
  have all: "(\<exists>cs. those (map session_config_of ts) = Some cs) \<longleftrightarrow> (\<forall>t \<in> set ts. required_keys t)" for ts :: "'a session_table list"
    by (induction ts) (auto split: option.split simp: session_config_of_None [symmetric] dest: session_config_of_SomeD)
  have load: "load_from_path read tables path = (case tables s of
      None \<Rightarrow> Err ConfigParse
    | Some ts \<Rightarrow> (case those (map session_config_of ts) of None \<Rightarrow> Err ConfigParse | Some cs \<Rightarrow> Ok cs))"
    using assms by (simp add: load_from_path_def split: option.split)
  show "(\<exists>cs. load_from_path read tables path = Ok cs) \<longleftrightarrow> (\<exists>ts. tables s = Some ts \<and> (\<forall>t \<in> set ts. required_keys t))"
    by (simp add: load all [symmetric] split: option.split)
  show "tables s = Some ts \<Longrightarrow> load_from_path read tables path = Ok cs \<Longrightarrow> i < length ts
      \<Longrightarrow> length cs = length ts \<and> session_config_of (ts ! i) = Some (cs ! i)"
    using those_nth [of "map session_config_of ts" cs] by (simp add: load split: option.splits)
qed (auto simp: session_config_of_def bind_eq_Some_conv or_default_def default_logon_timeout_def default_logout_timeout_def
    default_reconnect_interval_def validation_of_def ValidationConfig_default_def ValidationConfigBuilder_build_def
    ValidationConfigBuilder_default_def default_true_def)

lemma map_err_Ok: "map_err f m s = (Ok a, s') \<longleftrightarrow> m s = (Ok a, s')"
  by (auto simp: map_err_def split: prod.splits outcome.splits)

section \<open>A session that is configured for TLS\<close>

text \<open>C23. Encryption is not optional once it is configured. If a session has TLS settings, a connection it gets is an encrypted stream that comes from a successful handshake on a socket to the
  configured host and port, for the configured host as the server name and against exactly the configured trust store. If the trust store cannot be read, the
  attempt fails and the network has not been touched.\<close>

theorem tls_session_is_encrypted:
  assumes "tls_config cfg = Some tls"
  shows "(\<forall>stream n'. connect net cfg n = (Ok stream, n') \<longrightarrow>
      (\<exists>roots d k n1 e. stream = TlsStream e \<and> get_root_store net tls = Ok roots \<and> server_name net (connection_host cfg) = Some d
        \<and> tcp_connect net (connection_host cfg @ '':'' @ show_nat (unat (connection_port cfg))) n = (Ok k, n1)
        \<and> handshake net roots d k n1 = (Ok e, n')))
    \<and> (\<forall>x. get_root_store net tls = Err x \<longrightarrow> connect net cfg n = (Err x, n))"
proof (intro conjI allI impI)
  fix stream n'
  assume "connect net cfg n = (Ok stream, n')"
  then obtain e where e: "stream = TlsStream e" "create_tcp_over_tls_connection net (connection_host cfg) (connection_port cfg) tls n = (Ok e, n')"
    using assms by (auto simp: connect_def bind_comp_Ok ret_def)
  then show "\<exists>roots d k n1 e. stream = TlsStream e \<and> get_root_store net tls = Ok roots \<and> server_name net (connection_host cfg) = Some d
        \<and> tcp_connect net (connection_host cfg @ '':'' @ show_nat (unat (connection_port cfg))) n = (Ok k, n1)
        \<and> handshake net roots d k n1 = (Ok e, n')"
    by (auto simp: create_tcp_over_tls_connection_def bind_comp_Ok get_client_config_def create_tcp_connection_def wrap_stream_def
        lift_outcome_def throw_def map_err_Ok split: option.splits)
next
  fix x
  assume "get_root_store net tls = Err x"
  then show "connect net cfg n = (Err x, n)"
    using assms by (simp add: connect_def create_tcp_over_tls_connection_def get_client_config_def comp_simps)
qed

text \<open>A network that accepts every connection and handshake, and a session with a readable and one with a missing certificate file.\<close>

definition sample_net :: "(nat, nat, nat, string, string) net" where
  "sample_net = \<lparr>tcp_connect = (\<lambda>_ n. (Ok n, n + 1)), open_file = (\<lambda>p. if p = ''ca.pem'' then Some ''ca'' else None), pem_certs = (\<lambda>b. Some [b, ''?'']),
     parsable = (\<lambda>c. c \<noteq> ''?''), native_certs = [], webpki_roots = [], server_name = Some, handshake = (\<lambda>_ _ k n. (Ok (k + 100), n + 1))\<rparr>"

definition sample_endpoint :: "string \<Rightarrow> unit endpoint_config" where
  "sample_endpoint ca = \<lparr>ep_session = \<lparr>cfg_session = \<lparr>begin_string = ''FIX.4.4'', sender_comp_id = ''A'', target_comp_id = ''B'', heartbeat_interval = 30,
       logon_timeout = 10, logout_timeout = 2, reset_on_logon = False\<rparr>, data_dictionary_path = None, cfg_validate_user_defined_fields = True,
       cfg_schedule = None, reconnect_interval = 30\<rparr>,
     connection_host = ''peer'', connection_port = 443, tls_config = Some (TlsFile ca)\<rparr>"

theorem tls_session_is_encrypted_witness:
  "connect sample_net (sample_endpoint ''none.pem'') 7 = (Err IOError, 7)
   \<and> (\<exists>e. connect sample_net (sample_endpoint ''ca.pem'') 7 = (Ok (TlsStream e), 9) \<and> get_root_store sample_net (TlsFile ''ca.pem'') = Ok [''ca''])"
proof -
  have tls: "tls_config (sample_endpoint ca) = Some (TlsFile ca)" for ca by (simp add: sample_endpoint_def)
  have "get_root_store sample_net (TlsFile ''none.pem'') = Err IOError"
    by (simp add: get_root_store_def load_certs_from_file_def sample_net_def)
  then have "connect sample_net (sample_endpoint ''none.pem'') 7 = (Err IOError, 7)"
    using tls_session_is_encrypted [OF tls, of sample_net "''none.pem''" 7] by blast
  moreover have "connect sample_net (sample_endpoint ''ca.pem'') 7 = (Ok (TlsStream 107), 9)"
      "get_root_store sample_net (TlsFile ''ca.pem'') = Ok [''ca'']"
    by (simp_all add: connect_def tls create_tcp_over_tls_connection_def get_client_config_def get_root_store_def load_certs_from_file_def
        create_tcp_connection_def wrap_stream_def comp_simps sample_net_def)
  ultimately show ?thesis by blast
qed

end
