(* ===== verification/Web_Admin.thy ===== *)
theory Web_Admin
  imports Engine
begin

text \<open>
  How an operator reaches a session: the command line client (\<^verbatim>\<open>hotfix-cli/src/lib.rs\<close>) sends HTTP requests to the web server
  (\<^verbatim>\<open>hotfix-web/src\<close>, with the dashboard of \<^verbatim>\<open>hotfix-web-ui/src\<close>), whose endpoints call a \<open>SessionController\<close>; the controller of a real server
  wraps a \<open>SessionHandle\<close>, whose requests the session task serves. The initiator's own calls (\<^verbatim>\<open>hotfix/src/initiator.rs\<close>) are here too.

  A JSON document is a value, its text form is that of \<open>serde_json\<close>. The dispatch of \<open>axum\<close>, the templates, the embedded files and the
  HTTP client are parameters; the hypotheses \<open>axum_documented\<close> and \<open>reaches_server\<close> say what is relied on. A computation that may wait for ever
  has the result \<open>None\<close> when it does.
\<close>

section \<open>JSON\<close>

datatype json = JNull | JBool bool | JInt int | JString string | JArray "json list" | JObject "(string \<times> json) list"

text \<open>A derived \<open>Deserialize\<close> of a structure reads an object, in which each field occurs once and others are ignored, or an array of the
  fields in order.\<close>

definition de_struct :: "string list \<Rightarrow> json \<Rightarrow> json list option" where
  "de_struct names j = (case j of
      JObject kvs \<Rightarrow> if list_all (\<lambda>n. length (filter (\<lambda>kv. fst kv = n) kvs) = 1) names then those (map (map_of kvs) names) else None
    | JArray xs \<Rightarrow> if length xs = length names then Some xs else None
    | _ \<Rightarrow> None)"

definition de_bool :: "json \<Rightarrow> bool option" where
  "de_bool j = (case j of JBool b \<Rightarrow> Some b | _ \<Rightarrow> None)"

definition de_string :: "json \<Rightarrow> string option" where
  "de_string j = (case j of JString s \<Rightarrow> Some s | _ \<Rightarrow> None)"

definition de_u64 :: "json \<Rightarrow> u64 option" where
  "de_u64 j = (case j of JInt n \<Rightarrow> if 0 \<le> n \<and> n < 2 ^ 64 then Some (of_int n) else None | _ \<Rightarrow> None)"

text \<open>The derived \<open>Serialize\<close> of \<open>Status\<close> and \<open>SessionInfo\<close>: a variant with fields is an object under its name.\<close>

definition status_json :: "session_status \<Rightarrow> json" where
  "status_json st = (case st of
      StatusAwaitingLogon \<Rightarrow> JString ''AwaitingLogon''
    | StatusAwaitingResend b e n \<Rightarrow>
        JObject [(''AwaitingResend'', JObject [(''begin'', JInt (uint b)), (''end'', JInt (uint e)), (''attempts'', JInt (int n))])]
    | StatusAwaitingLogout \<Rightarrow> JString ''AwaitingLogout''
    | StatusActive \<Rightarrow> JString ''Active''
    | StatusLoggedOut \<Rightarrow> JString ''LoggedOut''
    | StatusDisconnected \<Rightarrow> JString ''Disconnected'')"

definition session_info_json :: "session_info \<Rightarrow> json" where
  "session_info_json i = JObject
     [(''next_sender_seq_number'', JInt (uint (info_next_sender_seq_number i))),
      (''next_target_seq_number'', JInt (uint (info_next_target_seq_number i))),
      (''status'', status_json (info_status i))]"

section \<open>The session controller\<close>

text \<open>The trait as a record of operations; the error of a controller is that of the handle.\<close>

type_synonym ('c, 'a) async = "'c \<Rightarrow> (('a, send_error) outcome \<times> 'c) option"

record 'c session_controller =
  sc_get_session_info :: "('c, session_info) async"
  sc_request_reset_on_next_logon :: "('c, unit) async"
  sc_shutdown :: "bool \<Rightarrow> ('c, unit) async"

text \<open>One iteration of the session task, and what a caller that waits for an answer sees of it: the task has at most \<open>n\<close> turns until the caller
  looks no more.\<close>

definition task_turn :: "('s, 'tz) session_env \<Rightarrow> ('s, 'tz) engine \<Rightarrow> ('s, 'tz) engine" where
  "task_turn env e = (if \<not> ch_open (eng_ch e) then e
     else case select_input env (eng_ch e) (eng_session e) of
         None \<Rightarrow> e
       | Some i \<Rightarrow> (case (handle_input env i (eng_session e) :: (unit, unit) outcome \<times> ('s, 'tz) session) of
           (Ok _, s') \<Rightarrow> e\<lparr>eng_session := s', eng_ch := take_input i (eng_ch e)\<rparr>
         | (Panic, _) \<Rightarrow> e\<lparr>eng_ch := (eng_ch e)\<lparr>ch_open := False\<rparr>\<rparr>
         | (Err _, _) \<Rightarrow> e))"

fun await_task :: "('s, 'tz) session_env \<Rightarrow> nat \<Rightarrow> responder \<Rightarrow> ('s, 'tz) engine \<Rightarrow> ((answer, unit) outcome \<times> ('s, 'tz) engine) option" where
  "await_task env n r e = (case await_answer (ch_open (eng_ch e)) (ctx_trace (sess_ctx (eng_session e))) r of
      Some a \<Rightarrow> Some (a, e)
    | None \<Rightarrow> (case n of 0 \<Rightarrow> None | Suc m \<Rightarrow> await_task env m r (task_turn env e)))"

declare await_task.simps [simp del]

text \<open>A call of the handle takes a number, which a responder of the call has.\<close>

definition client_call :: "(responder \<Rightarrow> (channels, unit, send_error) comp) \<Rightarrow> ('s, 'tz) engine \<Rightarrow> (unit, send_error) outcome \<times> ('s, 'tz) engine" where
  "client_call m e = (case m (eng_next e) (eng_ch e) of (r, ch) \<Rightarrow> (r, e\<lparr>eng_ch := ch, eng_next := eng_next e + 1\<rparr>))"

definition http_get_session_info :: "('s, 'tz) session_env \<Rightarrow> nat \<Rightarrow> (('s, 'tz) engine, session_info) async" where
  "http_get_session_info env n e = (case client_call handle_get_session_info e of
      (Ok _, e') \<Rightarrow> (case await_task env n (eng_next e) e' of
          None \<Rightarrow> None
        | Some (Ok (InfoAnswer i), e'') \<Rightarrow> Some (Ok i, e'')
        | Some (_, e'') \<Rightarrow> Some (Err SessionGone, e''))
    | (Err x, e') \<Rightarrow> Some (Err x, e')
    | (Panic, e') \<Rightarrow> Some (Panic, e'))"

definition HttpSessionController :: "('s, 'tz) session_env \<Rightarrow> nat \<Rightarrow> ('s, 'tz) engine session_controller" where
  "HttpSessionController env n =
     \<lparr>sc_get_session_info = http_get_session_info env n,
      sc_request_reset_on_next_logon = (\<lambda>e. Some (client_call (\<lambda>_. request_reset_on_next_logon) e)),
      sc_shutdown = (\<lambda>rc e. Some (client_call (\<lambda>_. handle_shutdown rc) e))\<rparr>"

section \<open>The web server\<close>

datatype http_method = GET | POST | OtherMethod string

datatype request_body = NoBody | JsonContent json | OtherContent string

record http_request =
  req_method :: http_method
  req_path :: string
  req_body :: request_body

datatype response_body = JsonText json | PlainText string | Html string | Asset string bytes

record http_response =
  resp_status :: nat
  resp_body :: response_body

datatype endpoint = GetHealth | GetSessionInfo | PostShutdown | PostReset | Dashboard | StaticFile

type_synonym routes = "(string \<times> http_method \<times> endpoint) list"

record router_config =
  enable_admin_endpoints :: bool

definition RouterConfig_default :: router_config where
  "RouterConfig_default = \<lparr>enable_admin_endpoints = False\<rparr>"

text \<open>A router is its table of routes; \<open>nest\<close> puts a prefix before the paths, \<open>merge\<close> joins two tables.\<close>

definition route :: "string \<Rightarrow> http_method \<Rightarrow> endpoint \<Rightarrow> routes \<Rightarrow> routes" where
  "route p m ep rs = rs @ [(p, m, ep)]"

definition nest :: "string \<Rightarrow> routes \<Rightarrow> routes \<Rightarrow> routes" where
  "nest prefix sub rs = rs @ map (\<lambda>(p, m, ep). (prefix @ p, m, ep)) sub"

definition register_admin_endpoints :: "routes \<Rightarrow> routes" where
  "register_admin_endpoints router = route ''/reset'' POST PostReset (route ''/shutdown'' POST PostShutdown router)"

definition build_api_router :: "router_config \<Rightarrow> routes" where
  "build_api_router cfg =
    (let router = route ''/session-info'' GET GetSessionInfo (route ''/health'' GET GetHealth [])
     in if enable_admin_endpoints cfg then register_admin_endpoints router else router)"

definition build_ui_router :: routes where
  "build_ui_router = route ''/static/{*file}'' GET StaticFile (route ''/'' GET Dashboard [])"

text \<open>The argument is the feature \<^verbatim>\<open>ui\<close>.\<close>

definition build_router_with_controller :: "bool \<Rightarrow> router_config \<Rightarrow> routes" where
  "build_router_with_controller ui cfg =
     (if ui then nest ''/api'' (build_api_router cfg) [] @ build_ui_router else nest ''/api'' (build_api_router cfg) [])"

definition build_router :: "bool \<Rightarrow> routes" where
  "build_router ui = build_router_with_controller ui RouterConfig_default"

datatype dispatched = Dispatched endpoint string | MethodNotAllowed | NotFound

record web_env =
  axum_dispatch :: "routes \<Rightarrow> http_method \<Rightarrow> string \<Rightarrow> dispatched"
  json_rejection :: "request_body \<Rightarrow> http_response"
  render :: "session_info \<Rightarrow> string option"
  assets_get :: "string \<Rightarrow> bytes option"
  mime_from_path :: "string \<Rightarrow> string"

text \<open>\<open>AppError\<close> and \<open>DashboardError\<close> print their own description, not the error they wrap.\<close>

definition app_error_response :: http_response where
  "app_error_response = \<lparr>resp_status = 500, resp_body = PlainText ''General anyhow errors''\<rparr>"

definition render_error_response :: http_response where
  "render_error_response = \<lparr>resp_status = 500, resp_body = PlainText ''could not render the template''\<rparr>"

text \<open>What an endpoint makes of the result of the controller; a panic ends the connection without a response.\<close>

definition app_result :: "('a \<Rightarrow> http_response) \<Rightarrow> (('a, send_error) outcome \<times> 'c) option \<Rightarrow> (http_response \<times> 'c) option" where
  "app_result f r = (case r of
      Some (Ok a, c) \<Rightarrow> Some (f a, c)
    | Some (Err _, c) \<Rightarrow> Some (app_error_response, c)
    | Some (Panic, c) \<Rightarrow> None
    | None \<Rightarrow> None)"

definition json_response :: "json \<Rightarrow> http_response" where
  "json_response j = \<lparr>resp_status = 200, resp_body = JsonText j\<rparr>"

definition get_health :: http_response where
  "get_health = json_response (JObject [(''status'', JString ''healthy'')])"

definition endpoint_session_info :: "'c session_controller \<Rightarrow> 'c \<Rightarrow> (http_response \<times> 'c) option" where
  "endpoint_session_info ctrl c =
     app_result (\<lambda>info. json_response (JObject [(''session_info'', session_info_json info)])) (sc_get_session_info ctrl c)"

definition shutdown_request_of :: "request_body \<Rightarrow> bool option" where
  "shutdown_request_of bd = (case bd of
      JsonContent j \<Rightarrow> (case de_struct [''reconnect''] j of Some [x] \<Rightarrow> de_bool x | _ \<Rightarrow> None)
    | _ \<Rightarrow> None)"

definition endpoint_shutdown :: "web_env \<Rightarrow> 'c session_controller \<Rightarrow> request_body \<Rightarrow> 'c \<Rightarrow> (http_response \<times> 'c) option" where
  "endpoint_shutdown wenv ctrl bd c = (case shutdown_request_of bd of
      None \<Rightarrow> Some (json_rejection wenv bd, c)
    | Some rc \<Rightarrow> app_result (\<lambda>_. json_response JNull) (sc_shutdown ctrl rc c))"

definition reset_on_next_logon :: "'c session_controller \<Rightarrow> 'c \<Rightarrow> (http_response \<times> 'c) option" where
  "reset_on_next_logon ctrl c = app_result (\<lambda>_. json_response JNull) (sc_request_reset_on_next_logon ctrl c)"

definition dashboard_handler :: "web_env \<Rightarrow> 'c session_controller \<Rightarrow> 'c \<Rightarrow> (http_response \<times> 'c) option" where
  "dashboard_handler wenv ctrl c =
     app_result (\<lambda>info. case render wenv info of
         Some html \<Rightarrow> \<lparr>resp_status = 200, resp_body = Html html\<rparr>
       | None \<Rightarrow> render_error_response) (sc_get_session_info ctrl c)"

definition static_handler :: "web_env \<Rightarrow> string \<Rightarrow> http_response" where
  "static_handler wenv path = (case assets_get wenv path of
      Some content \<Rightarrow> \<lparr>resp_status = 200, resp_body = Asset (mime_from_path wenv path) content\<rparr>
    | None \<Rightarrow> \<lparr>resp_status = 404, resp_body = PlainText ''404 Not Found''\<rparr>)"

definition run_endpoint :: "web_env \<Rightarrow> 'c session_controller \<Rightarrow> endpoint \<Rightarrow> string \<Rightarrow> request_body \<Rightarrow> 'c \<Rightarrow> (http_response \<times> 'c) option" where
  "run_endpoint wenv ctrl ep cap bd c = (case ep of
      GetHealth \<Rightarrow> Some (get_health, c)
    | GetSessionInfo \<Rightarrow> endpoint_session_info ctrl c
    | PostShutdown \<Rightarrow> endpoint_shutdown wenv ctrl bd c
    | PostReset \<Rightarrow> reset_on_next_logon ctrl c
    | Dashboard \<Rightarrow> dashboard_handler wenv ctrl c
    | StaticFile \<Rightarrow> Some (static_handler wenv cap, c))"

definition serve :: "web_env \<Rightarrow> 'c session_controller \<Rightarrow> routes \<Rightarrow> http_request \<Rightarrow> 'c \<Rightarrow> (http_response \<times> 'c) option" where
  "serve wenv ctrl rs req c = (case axum_dispatch wenv rs (req_method req) (req_path req) of
      Dispatched ep cap \<Rightarrow> run_endpoint wenv ctrl ep cap (req_body req) c
    | MethodNotAllowed \<Rightarrow> Some (\<lparr>resp_status = 405, resp_body = PlainText []\<rparr>, c)
    | NotFound \<Rightarrow> Some (\<lparr>resp_status = 404, resp_body = PlainText []\<rparr>, c))"

section \<open>The command line client\<close>

datatype command = CmdHealth | CmdSessionInfo | CmdReset | CmdShutdown bool

record cli =
  cli_url :: string
  cli_command :: command

text \<open>What is printed, without the colours.\<close>

datatype cli_output =
    HealthOutput nat string
  | SessionInfoOutput nat u64 u64 string
  | ResetOutput nat
  | ShutdownOutput nat

datatype cli_error =
    SendFailed string
  | ParseFailed string
  | RequestFailed string nat string

text \<open>The client: \<open>cl_send\<close> gives the response or an error, \<open>cl_text\<close> and \<open>cl_of_text\<close> are the text forms of JSON.\<close>

record 'c client =
  cl_send :: "http_method \<Rightarrow> string \<Rightarrow> request_body \<Rightarrow> 'c \<Rightarrow> (http_response option \<times> 'c) option"
  cl_text :: "json \<Rightarrow> string"
  cl_of_text :: "string \<Rightarrow> json option"

definition response_text :: "'c client \<Rightarrow> http_response \<Rightarrow> string" where
  "response_text cl r = (case resp_body r of JsonText j \<Rightarrow> cl_text cl j | PlainText s \<Rightarrow> s | Html s \<Rightarrow> s | Asset _ s \<Rightarrow> s)"

definition response_json :: "'c client \<Rightarrow> http_response \<Rightarrow> json option" where
  "response_json cl r = (case resp_body r of JsonText j \<Rightarrow> Some j | PlainText s \<Rightarrow> cl_of_text cl s | Html s \<Rightarrow> cl_of_text cl s | Asset _ s \<Rightarrow> cl_of_text cl s)"

definition health_response_of :: "json \<Rightarrow> string option" where
  "health_response_of j = (case de_struct [''status''] j of Some [x] \<Rightarrow> de_string x | _ \<Rightarrow> None)"

definition cli_session_info_of :: "json \<Rightarrow> (u64 \<times> u64 \<times> string) option" where
  "cli_session_info_of j = (case de_struct [''next_sender_seq_number'', ''next_target_seq_number'', ''status''] j of
      Some [a, b, x] \<Rightarrow> (case (de_u64 a, de_u64 b, de_string x) of
          (Some m, Some n, Some st) \<Rightarrow> Some (m, n, st)
        | _ \<Rightarrow> None)
    | _ \<Rightarrow> None)"

definition session_info_response_of :: "json \<Rightarrow> (u64 \<times> u64 \<times> string) option" where
  "session_info_response_of j = (case de_struct [''session_info''] j of Some [x] \<Rightarrow> cli_session_info_of x | _ \<Rightarrow> None)"

definition trim_end_matches :: "char \<Rightarrow> string \<Rightarrow> string" where
  "trim_end_matches c s = rev (dropWhile (\<lambda>x. x = c) (rev s))"

definition is_success :: "nat \<Rightarrow> bool" where
  "is_success status \<longleftrightarrow> 200 \<le> status \<and> status < 300"

text \<open>Send, then go on with the response; \<open>?\<close> with the context of the failure.\<close>

definition with_response ::
    "'c client \<Rightarrow> http_method \<Rightarrow> string \<Rightarrow> request_body \<Rightarrow> string \<Rightarrow> (http_response \<Rightarrow> (cli_output, cli_error) outcome) \<Rightarrow> 'c
      \<Rightarrow> ((cli_output, cli_error) outcome \<times> 'c) option" where
  "with_response cl m url bd context f c = (case cl_send cl m url bd c of
      None \<Rightarrow> None
    | Some (None, c') \<Rightarrow> Some (Err (SendFailed context), c')
    | Some (Some r, c') \<Rightarrow> Some (f r, c'))"

definition cli_run :: "'c client \<Rightarrow> cli \<Rightarrow> 'c \<Rightarrow> ((cli_output, cli_error) outcome \<times> 'c) option" where
  "cli_run cl cli c =
    (let base_url = trim_end_matches CHR ''/'' (cli_url cli) in
     case cli_command cli of
       CmdHealth \<Rightarrow> with_response cl GET (base_url @ ''/api/health'') NoBody ''Failed to send health request'' (\<lambda>r.
         case Option.bind (response_json cl r) health_response_of of
           Some st \<Rightarrow> Ok (HealthOutput (resp_status r) st)
         | None \<Rightarrow> Err (ParseFailed ''Failed to parse health response'')) c
     | CmdSessionInfo \<Rightarrow> with_response cl GET (base_url @ ''/api/session-info'') NoBody ''Failed to send session-info request'' (\<lambda>r.
         case Option.bind (response_json cl r) session_info_response_of of
           Some (m, n, st) \<Rightarrow> Ok (SessionInfoOutput (resp_status r) m n st)
         | None \<Rightarrow> Err (ParseFailed ''Failed to parse session-info response'')) c
     | CmdReset \<Rightarrow> with_response cl POST (base_url @ ''/api/reset'') NoBody ''Failed to send reset request'' (\<lambda>r.
         if is_success (resp_status r) then Ok (ResetOutput (resp_status r))
         else Err (RequestFailed ''Reset request failed'' (resp_status r) (response_text cl r))) c
     | CmdShutdown rc \<Rightarrow> with_response cl POST (base_url @ ''/api/shutdown'') (JsonContent (JObject [(''reconnect'', JBool rc)]))
         ''Failed to send shutdown request'' (\<lambda>r.
         if is_success (resp_status r) then Ok (ShutdownOutput (resp_status r))
         else Err (RequestFailed ''Shutdown request failed'' (resp_status r) (response_text cl r))) c)"

section \<open>The initiator\<close>

text \<open>The calls of \<open>Initiator\<close> on its handle. The watch channel of the connection loop is seen as its current value and what is observed of it while
  one waits: a new value, or \<open>None\<close> when the sender is gone.\<close>

definition initiator_send :: "outbound_message \<Rightarrow> responder \<Rightarrow> (channels, unit, send_error) comp" where
  "initiator_send m r = handle_send m r"

definition initiator_send_forget :: "outbound_message \<Rightarrow> (channels, unit, send_error) comp" where
  "initiator_send_forget m = handle_send_forget m"

fun wait_for_shutdown :: "bool \<Rightarrow> bool option list \<Rightarrow> bool" where
  "wait_for_shutdown True obs = True"
| "wait_for_shutdown False [] = False"
| "wait_for_shutdown False (None # obs) = True"
| "wait_for_shutdown False (Some b # obs) = wait_for_shutdown b obs"

text \<open>\<open>obs\<close> is what is observed within five seconds.\<close>

definition initiator_shutdown :: "bool \<Rightarrow> bool \<Rightarrow> bool option list \<Rightarrow> (channels, unit, send_error) comp" where
  "initiator_shutdown rc current obs ch = (case handle_shutdown rc ch of
      (Ok _, ch') \<Rightarrow> (if wait_for_shutdown current obs then Ok () else Err SessionGone, ch')
    | (Err e, ch') \<Rightarrow> (Err e, ch')
    | (Panic, ch') \<Rightarrow> (Panic, ch'))"

section \<open>What is relied on\<close>

text \<open>A path matches a pattern that is equal to it, or a pattern with a final wildcard that takes at least one character.\<close>

definition path_matches :: "string \<Rightarrow> string \<Rightarrow> bool" where
  "path_matches q p \<longleftrightarrow>
    (if CHR ''{'' \<in> set q
     then (let pre = takeWhile (\<lambda>c. c \<noteq> CHR ''{'') q in take (length pre) p = pre \<and> length pre < length p)
     else q = p)"

text \<open>The documented dispatch: only to an endpoint of the table; to the endpoint of a path that is in the table with the method; not found when no
  pattern matches.\<close>

definition axum_documented :: "(routes \<Rightarrow> http_method \<Rightarrow> string \<Rightarrow> dispatched) \<Rightarrow> bool" where
  "axum_documented dispatch \<longleftrightarrow>
     (\<forall>rs m p ep cap. dispatch rs m p = Dispatched ep cap \<longrightarrow> ep \<in> (snd \<circ> snd) ` set rs)
     \<and> (\<forall>rs m p ep. distinct (map fst rs) \<longrightarrow> CHR ''{'' \<notin> set p \<longrightarrow> (p, m, ep) \<in> set rs \<longrightarrow> (\<exists>cap. dispatch rs m p = Dispatched ep cap))
     \<and> (\<forall>rs m p. (\<forall>q \<in> fst ` set rs. \<not> path_matches q p) \<longrightarrow> dispatch rs m p = NotFound)"

text \<open>The client reaches the server at a base address.\<close>

definition server_client :: "(string \<Rightarrow> string option) \<Rightarrow> web_env \<Rightarrow> 'c session_controller \<Rightarrow> routes \<Rightarrow> (json \<Rightarrow> string) \<Rightarrow> (string \<Rightarrow> json option) \<Rightarrow> 'c client" where
  "server_client resolve wenv ctrl rs to_text of_text =
     \<lparr>cl_send = (\<lambda>m url bd c. case resolve url of
         None \<Rightarrow> Some (None, c)
       | Some path \<Rightarrow> (case serve wenv ctrl rs \<lparr>req_method = m, req_path = path, req_body = bd\<rparr> c of
           None \<Rightarrow> None
         | Some (r, c') \<Rightarrow> Some (Some r, c'))),
      cl_text = to_text, cl_of_text = of_text\<rparr>"

definition reaches_server :: "(string \<Rightarrow> string option) \<Rightarrow> string \<Rightarrow> bool" where
  "reaches_server resolve base \<longleftrightarrow> (\<forall>p. resolve (base @ CHR ''/'' # p) = Some (CHR ''/'' # p)) \<and> (base = [] \<or> last base \<noteq> CHR ''/'')"

section \<open>Routing\<close>

lemma trim_slashes: "base = [] \<or> last base \<noteq> CHR ''/'' \<Longrightarrow> trim_end_matches CHR ''/'' (base @ replicate k CHR ''/'') = base"
proof -
  assume base: "base = [] \<or> last base \<noteq> CHR ''/''"
  have "dropWhile (\<lambda>x. x = CHR ''/'') (replicate k CHR ''/'' @ xs) = dropWhile (\<lambda>x. x = CHR ''/'') xs" for xs
    by (induction k) auto
  moreover have "dropWhile (\<lambda>x. x = CHR ''/'') (rev base) = rev base"
    using base by (cases base rule: rev_cases) auto
  ultimately show ?thesis by (simp add: trim_end_matches_def)
qed

lemmas router_simps = build_router_with_controller_def build_api_router_def register_admin_endpoints_def build_ui_router_def route_def nest_def
  Let_def

lemma routes_distinct: "distinct (map fst (build_router_with_controller ui cfg))"
  by (simp add: router_simps)

lemma routes_of_api:
  "(''/api/health'', GET, GetHealth) \<in> set (build_router_with_controller ui cfg)"
  "(''/api/session-info'', GET, GetSessionInfo) \<in> set (build_router_with_controller ui cfg)"
  "enable_admin_endpoints cfg \<Longrightarrow> (''/api/shutdown'', POST, PostShutdown) \<in> set (build_router_with_controller ui cfg)"
  "enable_admin_endpoints cfg \<Longrightarrow> (''/api/reset'', POST, PostReset) \<in> set (build_router_with_controller ui cfg)"
  by (simp_all add: router_simps)

lemma admin_endpoints_only_when_enabled:
  "(p, m, ep) \<in> set (build_router_with_controller ui cfg) \<Longrightarrow> ep \<in> {PostShutdown, PostReset} \<Longrightarrow> enable_admin_endpoints cfg"
  by (auto simp: router_simps split: if_splits)

lemma admin_paths_unmatched:
  "\<not> enable_admin_endpoints cfg \<Longrightarrow> p \<in> {''/api/shutdown'', ''/api/reset''} \<Longrightarrow> q \<in> fst ` set (build_router_with_controller ui cfg)
    \<Longrightarrow> \<not> path_matches q p"
  by (auto simp: router_simps path_matches_def split: if_splits)

lemma serve_routed:
  assumes "axum_documented (axum_dispatch wenv)" and "(p, m, ep) \<in> set (build_router_with_controller ui cfg)" and "CHR ''{'' \<notin> set p"
  shows "\<exists>cap. serve wenv ctrl (build_router_with_controller ui cfg) \<lparr>req_method = m, req_path = p, req_body = bd\<rparr> c
    = run_endpoint wenv ctrl ep cap bd c"
proof -
  obtain cap where "axum_dispatch wenv (build_router_with_controller ui cfg) m p = Dispatched ep cap"
    using assms routes_distinct unfolding axum_documented_def by blast
  then show ?thesis by (auto simp: serve_def)
qed

lemma serve_admin_disabled:
  assumes "axum_documented (axum_dispatch wenv)" and "\<not> enable_admin_endpoints cfg" and "p \<in> {''/api/shutdown'', ''/api/reset''}"
  shows "serve wenv ctrl (build_router_with_controller ui cfg) \<lparr>req_method = m, req_path = p, req_body = bd\<rparr> c
    = Some (\<lparr>resp_status = 404, resp_body = PlainText []\<rparr>, c)"
proof -
  have "axum_dispatch wenv (build_router_with_controller ui cfg) m p = NotFound"
    using assms(1) admin_paths_unmatched [OF assms(2,3)] unfolding axum_documented_def by blast
  then show ?thesis by (simp add: serve_def)
qed

text \<open>C22. Without the administrative endpoints a web client cannot change the session. Whatever request it sends, to whatever path, with whatever method and content, the
  response and the state of the controller do not depend on the controller's operations for shutting down and resetting: no endpoint calls them.\<close>

theorem admin_disabled_no_admin_calls:
  assumes "axum_documented (axum_dispatch wenv)" and "\<not> enable_admin_endpoints cfg"
    and "sc_get_session_info ctrl = sc_get_session_info ctrl'"
  shows "serve wenv ctrl (build_router_with_controller ui cfg) req c = serve wenv ctrl' (build_router_with_controller ui cfg) req c"
proof (cases "axum_dispatch wenv (build_router_with_controller ui cfg) (req_method req) (req_path req)")
  case (Dispatched ep cap)
  then have "ep \<in> (snd \<circ> snd) ` set (build_router_with_controller ui cfg)" using assms(1) unfolding axum_documented_def by blast
  then have "ep \<notin> {PostShutdown, PostReset}" using admin_endpoints_only_when_enabled assms(2) by fastforce
  then show ?thesis using assms(3)
    by (cases ep) (auto simp: serve_def Dispatched run_endpoint_def endpoint_session_info_def dashboard_handler_def)
qed (simp_all add: serve_def)

section \<open>From the command line to the session\<close>

text \<open>What the administrative part of a controller promises: the request is queued for the session, or the session is gone and nothing happens.\<close>

locale admin_controller =
  fixes ctrl :: "'c session_controller" and requests :: "'c \<Rightarrow> admin_request list" and alive :: "'c \<Rightarrow> bool"
  assumes shutdown_queued: "alive c \<Longrightarrow> \<exists>c'. sc_shutdown ctrl rc c = Some (Ok (), c') \<and> requests c' = requests c @ [InitiateGracefulShutdown rc]"
    and shutdown_gone: "\<not> alive c \<Longrightarrow> \<exists>c'. sc_shutdown ctrl rc c = Some (Err SessionGone, c') \<and> requests c' = requests c"
    and reset_queued: "alive c \<Longrightarrow> \<exists>c'. sc_request_reset_on_next_logon ctrl c = Some (Ok (), c')
      \<and> requests c' = requests c @ [ResetSequenceNumbersOnNextLogon]"
    and reset_gone: "\<not> alive c \<Longrightarrow> \<exists>c'. sc_request_reset_on_next_logon ctrl c = Some (Err SessionGone, c') \<and> requests c' = requests c"
begin

lemma shutdown_endpoint:
  "\<exists>c'. endpoint_shutdown wenv ctrl (JsonContent (JObject [(''reconnect'', JBool rc)])) c
     = Some (if alive c then json_response JNull else app_error_response, c')
   \<and> requests c' = requests c @ (if alive c then [InitiateGracefulShutdown rc] else [])"
  using shutdown_queued [of c rc] shutdown_gone [of c rc]
  by (auto simp: endpoint_shutdown_def shutdown_request_of_def de_struct_def de_bool_def app_result_def)

lemma reset_endpoint:
  "\<exists>c'. reset_on_next_logon ctrl c = Some (if alive c then json_response JNull else app_error_response, c')
   \<and> requests c' = requests c @ (if alive c then [ResetSequenceNumbersOnNextLogon] else [])"
  using reset_queued [of c] reset_gone [of c] by (auto simp: reset_on_next_logon_def app_result_def)

end

text \<open>The request a command makes of the session, and what the command line prints.\<close>

definition admin_request_of :: "command \<Rightarrow> admin_request option" where
  "admin_request_of cmd = (case cmd of
      CmdReset \<Rightarrow> Some ResetSequenceNumbersOnNextLogon
    | CmdShutdown rc \<Rightarrow> Some (InitiateGracefulShutdown rc)
    | _ \<Rightarrow> None)"

definition admin_outcome :: "bool \<Rightarrow> bool \<Rightarrow> command \<Rightarrow> (cli_output, cli_error) outcome" where
  "admin_outcome enabled is_open cmd =
    (let done = (case cmd of CmdReset \<Rightarrow> ResetOutput 200 | _ \<Rightarrow> ShutdownOutput 200);
         failed = (case cmd of CmdReset \<Rightarrow> ''Reset request failed'' | _ \<Rightarrow> ''Shutdown request failed'')
     in if \<not> enabled then Err (RequestFailed failed 404 [])
        else if is_open then Ok done else Err (RequestFailed failed 500 ''General anyhow errors''))"

context admin_controller
begin

lemma cli_admin:
  assumes doc: "axum_documented (axum_dispatch wenv)" and srv: "reaches_server resolve base"
    and req: "admin_request_of cmd = Some request"
  shows "\<exists>c'. cli_run (server_client resolve wenv ctrl (build_router_with_controller ui cfg) to_text of_text)
        \<lparr>cli_url = base @ replicate k CHR ''/'', cli_command = cmd\<rparr> c
      = Some (admin_outcome (enable_admin_endpoints cfg) (alive c) cmd, c')
    \<and> requests c' = requests c @ (if enable_admin_endpoints cfg \<and> alive c then [request] else [])"
proof -
  let ?routes = "build_router_with_controller ui cfg"
  define cl where "cl = server_client resolve wenv ctrl ?routes to_text of_text"
  define url where "url = trim_end_matches CHR ''/'' (base @ replicate k CHR ''/'')"
  have url: "resolve (url @ CHR ''/'' # p) = Some (CHR ''/'' # p)" for p
    using srv trim_slashes [of base k] by (simp add: reaches_server_def url_def)
  have served: "cl_send cl m (url @ CHR ''/'' # p) bd c = (case serve wenv ctrl ?routes \<lparr>req_method = m, req_path = CHR ''/'' # p, req_body = bd\<rparr> c of
      None \<Rightarrow> None | Some (r, c') \<Rightarrow> Some (Some r, c'))" for m p bd
    by (simp add: cl_def server_client_def url)
  have reset: "\<exists>cap. serve wenv ctrl ?routes \<lparr>req_method = POST, req_path = ''/api/reset'', req_body = bd\<rparr> c
      = run_endpoint wenv ctrl PostReset cap bd c" if "enable_admin_endpoints cfg" for bd
    by (rule serve_routed [OF doc routes_of_api(4) [OF that]]) simp
  have shutdown: "\<exists>cap. serve wenv ctrl ?routes \<lparr>req_method = POST, req_path = ''/api/shutdown'', req_body = bd\<rparr> c
      = run_endpoint wenv ctrl PostShutdown cap bd c" if "enable_admin_endpoints cfg" for bd
    by (rule serve_routed [OF doc routes_of_api(3) [OF that]]) simp
  have "\<exists>c'. cli_run cl \<lparr>cli_url = base @ replicate k CHR ''/'', cli_command = cmd\<rparr> c
      = Some (admin_outcome (enable_admin_endpoints cfg) (alive c) cmd, c')
    \<and> requests c' = requests c @ (if enable_admin_endpoints cfg \<and> alive c then [request] else [])"
  proof (cases "enable_admin_endpoints cfg")
    case False
    with req show ?thesis
      by (cases cmd) (simp_all add: cli_run_def Let_def url_def [symmetric] with_response_def served serve_admin_disabled [OF doc False]
          admin_outcome_def is_success_def response_text_def admin_request_of_def)
  next
    case True
    show ?thesis
    proof (cases cmd)
      case CmdReset
      obtain c' where "reset_on_next_logon ctrl c = Some (if alive c then json_response JNull else app_error_response, c')"
        "requests c' = requests c @ (if alive c then [ResetSequenceNumbersOnNextLogon] else [])" using reset_endpoint by blast
      moreover obtain cap where "serve wenv ctrl ?routes \<lparr>req_method = POST, req_path = ''/api/reset'', req_body = NoBody\<rparr> c
          = run_endpoint wenv ctrl PostReset cap NoBody c" using reset [OF True] by blast
      ultimately show ?thesis using req True
        by (simp add: CmdReset cli_run_def Let_def url_def [symmetric] with_response_def served run_endpoint_def admin_outcome_def is_success_def
            response_text_def json_response_def app_error_response_def admin_request_of_def)
    next
      case (CmdShutdown rc)
      let ?bd = "JsonContent (JObject [(''reconnect'', JBool rc)])"
      obtain c' where "endpoint_shutdown wenv ctrl ?bd c = Some (if alive c then json_response JNull else app_error_response, c')"
        "requests c' = requests c @ (if alive c then [InitiateGracefulShutdown rc] else [])" using shutdown_endpoint by blast
      moreover obtain cap where "serve wenv ctrl ?routes \<lparr>req_method = POST, req_path = ''/api/shutdown'', req_body = ?bd\<rparr> c
          = run_endpoint wenv ctrl PostShutdown cap ?bd c" using shutdown [OF True] by blast
      ultimately show ?thesis using req True
        by (simp add: CmdShutdown cli_run_def Let_def url_def [symmetric] with_response_def served run_endpoint_def admin_outcome_def is_success_def
            response_text_def json_response_def app_error_response_def admin_request_of_def)
    qed (use req in \<open>simp_all add: admin_request_of_def\<close>)
  qed
  then show ?thesis by (simp add: cl_def)
qed

end

text \<open>The controller of the server, on the channels of the engine.\<close>

interpretation http: admin_controller "HttpSessionController env n" "\<lambda>e. ch_admin (eng_ch e)" "\<lambda>e. ch_open (eng_ch e)"
  by unfold_locales
    (simp_all add: HttpSessionController_def client_call_def handle_shutdown_def request_reset_on_next_logon_def send_admin_def)

text \<open>C21. An operator's command reaches the session. With the administrative endpoints enabled, \<^verbatim>\<open>hotfix reset\<close> and \<^verbatim>\<open>hotfix shutdown\<close>
  against the address of the server (with any number of slashes at its end) put exactly one request, with the flag that was given, into the session's
  administrative channel and report success; if the session task is gone they report status 500, and with the endpoints disabled status 404,
  and the channel is as before.\<close>

theorem cli_command_reaches_session:
  assumes "axum_documented (axum_dispatch wenv)" and "reaches_server resolve base" and "admin_request_of cmd = Some request"
  shows "\<exists>e'. cli_run (server_client resolve wenv (HttpSessionController env n) (build_router_with_controller ui cfg) to_text of_text)
        \<lparr>cli_url = base @ replicate k CHR ''/'', cli_command = cmd\<rparr> e
      = Some (admin_outcome (enable_admin_endpoints cfg) (ch_open (eng_ch e)) cmd, e')
    \<and> ch_admin (eng_ch e') = ch_admin (eng_ch e) @ (if enable_admin_endpoints cfg \<and> ch_open (eng_ch e) then [request] else [])"
  by (rule http.cli_admin [OF assms])

section \<open>A web request is a run of the engine\<close>

lemma task_turn_reaches: "engine_reaches env e (task_turn env e)"
proof (cases "ch_open (eng_ch e)")
  case True
  show ?thesis
  proof (cases "select_input env (eng_ch e) (eng_session e)")
    case (Some i)
    obtain r s' where h: "(handle_input env i (eng_session e) :: (unit, unit) outcome \<times> _) = (r, s')" by (meson surj_pair)
    then show ?thesis using True Some
      by (cases r) (auto simp: task_turn_def intro: engine_step.task_input engine_step.task_panic)
  qed (simp add: task_turn_def)
qed (simp add: task_turn_def)

lemma await_task_reaches: "await_task env n r e = Some (a, e') \<Longrightarrow> engine_reaches env e e'"
proof (induction n arbitrary: e)
  case 0
  then show ?case by (auto simp: await_task.simps [of _ 0] split: option.splits)
next
  case (Suc n)
  then show ?case
    using task_turn_reaches [of env e] by (auto simp: await_task.simps [of _ "Suc n"] split: option.splits intro: rtranclp_trans)
qed

lemma client_call_reaches:
  assumes "client_call m e = (r, e')"
    and "\<And>ch. m (eng_next e) ch = send_admin a ch" "a \<in> {InitiateGracefulShutdown rc, RequestSessionInfo (eng_next e), ResetSequenceNumbersOnNextLogon}"
  shows "engine_reaches env e e'"
proof -
  obtain ch' where ch: "send_admin a (eng_ch e) = (r, ch')" and e': "e' = e\<lparr>eng_ch := ch', eng_next := eng_next e + 1\<rparr>"
    using assms(1) by (auto simp: client_call_def assms(2) split: prod.splits)
  have "engine_step env e (e\<lparr>eng_ch := ch', eng_next := eng_next e + 1\<rparr>)"
    using assms(3) by (intro engine_step.client_admin [OF ch, where rc = rc and n = 1]) auto
  then show ?thesis by (simp add: e')
qed

lemma http_controller_reaches:
  "sc_get_session_info (HttpSessionController env n) e = Some (i, e') \<Longrightarrow> engine_reaches env e e'"
  "sc_request_reset_on_next_logon (HttpSessionController env n) e = Some (r, e') \<Longrightarrow> engine_reaches env e e'"
  "sc_shutdown (HttpSessionController env n) rc e = Some (r, e') \<Longrightarrow> engine_reaches env e e'"
proof -
  assume "sc_get_session_info (HttpSessionController env n) e = Some (i, e')"
  then have get: "http_get_session_info env n e = Some (i, e')" by (simp add: HttpSessionController_def)
  obtain r e1 where call: "client_call handle_get_session_info e = (r, e1)" by (meson surj_pair)
  have "engine_reaches env e e1"
    by (rule client_call_reaches [OF call, where a = "RequestSessionInfo (eng_next e)"]) (simp_all add: handle_get_session_info_def)
  moreover have "e1 = e' \<or> (\<exists>a. await_task env n (eng_next e) e1 = Some (a, e'))"
    using get call by (auto simp: http_get_session_info_def split: outcome.splits option.splits answer.splits)
  ultimately show "engine_reaches env e e'" using await_task_reaches rtranclp_trans [of "engine_step env" e e1 e'] by blast
next
  assume "sc_request_reset_on_next_logon (HttpSessionController env n) e = Some (r, e')"
  then show "engine_reaches env e e'"
    by (intro client_call_reaches [where m = "\<lambda>_. request_reset_on_next_logon" and a = ResetSequenceNumbersOnNextLogon])
      (simp_all add: HttpSessionController_def request_reset_on_next_logon_def)
next
  assume "sc_shutdown (HttpSessionController env n) rc e = Some (r, e')"
  then show "engine_reaches env e e'"
    by (intro client_call_reaches [where m = "\<lambda>_. handle_shutdown rc" and a = "InitiateGracefulShutdown rc"])
      (simp_all add: HttpSessionController_def handle_shutdown_def)
qed

lemma app_result_state: "app_result f r = Some (resp, c') \<Longrightarrow> \<exists>x. r = Some (x, c')"
  by (auto simp: app_result_def split: option.splits outcome.splits)


section \<open>Session information\<close>

lemma await_answer_none: "\<forall>a. Answer r a \<notin> set t \<Longrightarrow> await_answer True t r = None"
proof -
  assume "\<forall>a. Answer r a \<notin> set t"
  then have "List.find (\<lambda>e. case e of Answer r' _ \<Rightarrow> r' = r | _ \<Rightarrow> False) t = None"
    by (auto simp: find_None_iff split: effect.splits)
  then show ?thesis by (simp add: await_answer_def)
qed

lemma await_answer_new: "\<forall>a. Answer r a \<notin> set t \<Longrightarrow> await_answer b (t @ [Answer r x]) r = Some (Ok x)"
proof -
  assume "\<forall>a. Answer r a \<notin> set t"
  then have "List.find (\<lambda>e. case e of Answer r' _ \<Rightarrow> r' = r | _ \<Rightarrow> False) (t @ [Answer r x]) = Some (Answer r x)"
    by (induction t) (auto split: effect.splits)
  then show ?thesis by (simp add: await_answer_def)
qed

text \<open>The session task takes administrative requests first: if none is waiting, the next turn answers.\<close>

lemma http_session_info:
  assumes "ch_open (eng_ch e)" and "ch_admin (eng_ch e) = []" and new: "\<forall>a. Answer (eng_next e) a \<notin> set (ctx_trace (sess_ctx (eng_session e)))"
  shows "\<exists>e'. sc_get_session_info (HttpSessionController env (Suc n)) e = Some (Ok (get_session_info env (eng_session e)), e') \<and> ch_admin (eng_ch e') = []"
proof -
  let ?r = "eng_next e"
  define e1 where "e1 = e\<lparr>eng_ch := (eng_ch e)\<lparr>ch_admin := [RequestSessionInfo ?r]\<rparr>, eng_next := ?r + 1\<rparr>"
  have call: "client_call handle_get_session_info e = (Ok (), e1)"
    using assms(1,2) by (simp add: client_call_def handle_get_session_info_def send_admin_def e1_def)
  define s' where "s' = snd (handle_input env (AdminInput (RequestSessionInfo ?r)) (eng_session e) :: (unit, unit) outcome \<times> _)"
  have h: "handle_input env (AdminInput (RequestSessionInfo ?r)) (eng_session e) = ((Ok () :: (unit, unit) outcome), s')"
    and t: "ctx_trace (sess_ctx s') = ctx_trace (sess_ctx (eng_session e)) @ [Answer ?r (InfoAnswer (get_session_info env (eng_session e)))]"
    by (simp_all add: s'_def handle_input_def handle_admin_request_def comp_simps in_ctx_def emit_def)
  have turn: "task_turn env e1 = e1\<lparr>eng_session := s', eng_ch := take_input (AdminInput (RequestSessionInfo ?r)) (eng_ch e1)\<rparr>"
    using assms(1) h by (simp add: task_turn_def e1_def select_input_def)
  have e1: "eng_session e1 = eng_session e" "ch_open (eng_ch e1)" using assms(1) by (simp_all add: e1_def)
  have "await_task env (Suc n) ?r e1 = await_task env n ?r (task_turn env e1)"
    by (simp add: await_task.simps [of _ "Suc n"] e1 await_answer_none [OF new])
  also have "\<dots> = Some (Ok (InfoAnswer (get_session_info env (eng_session e))), task_turn env e1)"
    unfolding turn by (simp add: await_task.simps t await_answer_new [OF new])
  finally have "await_task env (Suc n) ?r e1 = Some (Ok (InfoAnswer (get_session_info env (eng_session e))), task_turn env e1)" .
  moreover have "ch_admin (eng_ch (task_turn env e1)) = []" unfolding turn by (simp add: take_input_def e1_def)
  ultimately show ?thesis by (simp add: HttpSessionController_def http_get_session_info_def call)
qed

definition status_name :: "session_status \<Rightarrow> string option" where
  "status_name st = de_string (status_json st)"

lemma status_name_none: "status_name st = None \<longleftrightarrow> (\<exists>b e n. st = StatusAwaitingResend b e n)"
  by (cases st) (simp_all add: status_name_def status_json_def de_string_def)

lemma uint_u64: "0 \<le> uint (n :: u64) \<and> uint n < 2 ^ 64" "of_int (uint (n :: u64)) = n"
  using uint_lt2p [of n] by simp_all

lemma session_info_read:
  "session_info_response_of (JObject [(''session_info'', session_info_json i)])
    = map_option (\<lambda>st. (info_next_sender_seq_number i, info_next_target_seq_number i, st)) (status_name (info_status i))"
proof -
  have numbers: "de_u64 (JInt (uint n)) = Some n" for n using uint_u64 [of n] by (simp add: de_u64_def)
  show ?thesis
    by (simp add: session_info_response_of_def de_struct_def cli_session_info_of_def session_info_json_def numbers status_name_def split: option.split)
qed

text \<open>What \<^verbatim>\<open>hotfix session-info\<close> shows. Asked while no other request is waiting, the session task answers in its next turn with its two sequence numbers and its
  status, and the command prints them: except when the session waits for a resend. Then the server sends an object for the status where the client expects a string, and the
  command fails.\<close>

theorem cli_session_info:
  assumes doc: "axum_documented (axum_dispatch wenv)" and srv: "reaches_server resolve base"
    and "ch_open (eng_ch e)" and "ch_admin (eng_ch e) = []" and "\<forall>a. Answer (eng_next e) a \<notin> set (ctx_trace (sess_ctx (eng_session e)))"
  shows "\<exists>e'. cli_run (server_client resolve wenv (HttpSessionController env (Suc n)) (build_router_with_controller ui cfg) to_text of_text)
        \<lparr>cli_url = base @ replicate k CHR ''/'', cli_command = CmdSessionInfo\<rparr> e
      = Some (case status_name (as_status (sess_state (eng_session e))) of
          Some st \<Rightarrow> Ok (SessionInfoOutput 200 (next_sender_seq_number (env_store env) (ctx_store (sess_ctx (eng_session e))))
            (next_target_seq_number (env_store env) (ctx_store (sess_ctx (eng_session e)))) st)
        | None \<Rightarrow> Err (ParseFailed ''Failed to parse session-info response''), e')
    \<and> (status_name (as_status (sess_state (eng_session e))) = None \<longleftrightarrow> (\<exists>b f a. as_status (sess_state (eng_session e)) = StatusAwaitingResend b f a))"
proof -
  let ?routes = "build_router_with_controller ui cfg" and ?ctrl = "HttpSessionController env (Suc n)"
  let ?info = "get_session_info env (eng_session e)"
  obtain e' where get: "sc_get_session_info ?ctrl e = Some (Ok ?info, e')" using http_session_info [OF assms(3-5)] by blast
  have "\<exists>cap. serve wenv ?ctrl ?routes \<lparr>req_method = GET, req_path = ''/api/session-info'', req_body = NoBody\<rparr> e
      = run_endpoint wenv ?ctrl GetSessionInfo cap NoBody e"
    by (rule serve_routed [OF doc routes_of_api(2)]) simp
  then have served: "serve wenv ?ctrl ?routes \<lparr>req_method = GET, req_path = ''/api/session-info'', req_body = NoBody\<rparr> e
      = Some (json_response (JObject [(''session_info'', session_info_json ?info)]), e')"
    by (auto simp: run_endpoint_def endpoint_session_info_def get app_result_def)
  have "resolve (trim_end_matches CHR ''/'' (base @ replicate k CHR ''/'') @ ''/api/session-info'') = Some ''/api/session-info''"
    using srv trim_slashes [of base k] by (simp add: reaches_server_def)
  then have "cli_run (server_client resolve wenv ?ctrl ?routes to_text of_text) \<lparr>cli_url = base @ replicate k CHR ''/'', cli_command = CmdSessionInfo\<rparr> e
      = Some (case session_info_response_of (JObject [(''session_info'', session_info_json ?info)]) of
          Some (m, n, st) \<Rightarrow> Ok (SessionInfoOutput 200 m n st)
        | None \<Rightarrow> Err (ParseFailed ''Failed to parse session-info response''), e')"
    by (simp add: cli_run_def Let_def with_response_def server_client_def served response_json_def json_response_def split: option.split)
  moreover have "\<dots> = Some (case status_name (as_status (sess_state (eng_session e))) of
          Some st \<Rightarrow> Ok (SessionInfoOutput 200 (next_sender_seq_number (env_store env) (ctx_store (sess_ctx (eng_session e))))
            (next_target_seq_number (env_store env) (ctx_store (sess_ctx (eng_session e)))) st)
        | None \<Rightarrow> Err (ParseFailed ''Failed to parse session-info response''), e')"
    by (simp add: session_info_read get_session_info_def split: option.split)
  ultimately show ?thesis unfolding status_name_none by (intro exI [of _ e']) simp
qed

section \<open>The initiator\<close>

lemma wait_for_shutdown_iff: "wait_for_shutdown cur obs \<longleftrightarrow> cur \<or> (\<exists>pre x post. obs = pre @ x # post \<and> x \<in> {None, Some True})"
proof (induction cur obs rule: wait_for_shutdown.induct)
  case (4 b obs)
  show ?case
  proof (cases b)
    case False
    have "(\<exists>pre x post. Some False # obs = pre @ x # post \<and> x \<in> {None, Some True}) \<longleftrightarrow> (\<exists>pre x post. obs = pre @ x # post \<and> x \<in> {None, Some True})"
      by (auto simp: Cons_eq_append_conv)
    with 4 False show ?thesis by simp
  qed (auto intro: exI [of _ "[]"])
qed (auto intro: exI [of _ "[]"])

text \<open>\<open>Initiator::shutdown\<close> waits for the end of the connection loop. As long as the loop goes on (which is what a shutdown with reconnection asks for),
  it reports that the session is gone after five seconds, although the session runs and has the request.\<close>

theorem shutdown_with_reconnect_reports_gone:
  assumes "ch_open ch" and "set obs \<subseteq> {Some False}"
  shows "initiator_shutdown True False obs ch = (Err SessionGone, ch\<lparr>ch_admin := ch_admin ch @ [InitiateGracefulShutdown True]\<rparr>)"
    and "ch_open (snd (initiator_shutdown True False obs ch))"
proof -
  have "\<not> wait_for_shutdown False obs" using assms(2) by (auto simp: wait_for_shutdown_iff)
  then show "initiator_shutdown True False obs ch = (Err SessionGone, ch\<lparr>ch_admin := ch_admin ch @ [InitiateGracefulShutdown True]\<rparr>)"
    "ch_open (snd (initiator_shutdown True False obs ch))"
    using assms(1) by (simp_all add: initiator_shutdown_def handle_shutdown_def send_admin_def)
qed

section \<open>Examples\<close>

text \<open>A dispatch by search of the table, and an address resolved by its prefix.\<close>

definition lookup_route :: "routes \<Rightarrow> http_method \<Rightarrow> string \<Rightarrow> dispatched" where
  "lookup_route rs m p = (case List.find (\<lambda>(q, m', _). q = p \<and> m' = m) rs of
      Some (_, _, ep) \<Rightarrow> Dispatched ep []
    | None \<Rightarrow> (case List.find (\<lambda>(q, m', _). path_matches q p \<and> m' = m) rs of
        Some (q, _, ep) \<Rightarrow> Dispatched ep (drop (length (takeWhile (\<lambda>c. c \<noteq> CHR ''{'') q)) p)
      | None \<Rightarrow> if list_ex (\<lambda>(q, _). path_matches q p) rs then MethodNotAllowed else NotFound))"

lemma find_route:
  "List.find P rs = Some x \<Longrightarrow> x \<in> set rs \<and> P x"
  by (auto simp: find_Some_iff)

lemma path_matches_refl: "path_matches p p"
proof (cases "CHR ''{'' \<in> set p")
  case True
  then have "length (takeWhile (\<lambda>c. c \<noteq> CHR ''{'') p) < length p" by (induction p) auto
  then show ?thesis using True by (simp add: path_matches_def Let_def takeWhile_eq_take [symmetric])
qed (simp add: path_matches_def)

lemma lookup_route_documented: "axum_documented lookup_route"
  unfolding axum_documented_def
proof (intro conjI allI impI)
  fix rs m p ep cap
  assume "lookup_route rs m p = Dispatched ep cap"
  then show "ep \<in> (snd \<circ> snd) ` set rs"
    by (auto simp: lookup_route_def split: option.splits if_splits dest!: find_route intro!: rev_image_eqI)
next
  fix rs :: routes and m p ep
  assume d: "distinct (map fst rs)" and mem: "(p, m, ep) \<in> set rs"
  then obtain x where x: "List.find (\<lambda>(q, m', _). q = p \<and> m' = m) rs = Some x" by (cases "List.find (\<lambda>(q, m', _). q = p \<and> m' = m) rs") (auto simp: find_None_iff)
  then obtain ep' where "x = (p, m, ep')" "(p, m, ep') \<in> set rs" using find_route [OF x] by (cases x) auto
  with d mem have "x = (p, m, ep)" by (auto dest: eq_key_imp_eq_value)
  with x show "\<exists>cap. lookup_route rs m p = Dispatched ep cap" by (simp add: lookup_route_def)
next
  fix rs :: routes and m p
  assume none: "\<forall>q \<in> fst ` set rs. \<not> path_matches q p"
  have "List.find (\<lambda>(q, m', _). path_matches q p \<and> m' = m) rs = None" "\<not> list_ex (\<lambda>(q, _). path_matches q p) rs"
    using none by (auto simp: find_None_iff list_ex_iff)
  moreover have "List.find (\<lambda>(q, m', _). q = p \<and> m' = m) rs = None"
    using none path_matches_refl [of p] by (force simp: find_None_iff)
  ultimately show "lookup_route rs m p = NotFound" by (simp add: lookup_route_def)
qed

definition sample_web :: web_env where
  "sample_web = \<lparr>axum_dispatch = lookup_route, json_rejection = (\<lambda>_. \<lparr>resp_status = 422, resp_body = PlainText []\<rparr>), render = (\<lambda>_. None),
     assets_get = (\<lambda>_. None), mime_from_path = (\<lambda>_. [])\<rparr>"

definition strip_base :: "string \<Rightarrow> string \<Rightarrow> string option" where
  "strip_base base url = (if take (length base) url = base then Some (drop (length base) url) else None)"

lemma strip_base_reaches: "base = [] \<or> last base \<noteq> CHR ''/'' \<Longrightarrow> reaches_server (strip_base base) base"
  by (simp add: reaches_server_def strip_base_def)

lemma sample_web_documented: "axum_documented (axum_dispatch sample_web)"
  by (simp add: sample_web_def lookup_route_documented)

theorem admin_disabled_no_admin_calls_witness:
  "\<not> enable_admin_endpoints RouterConfig_default
   \<and> serve sample_web \<lparr>sc_get_session_info = (\<lambda>_. None), sc_request_reset_on_next_logon = (\<lambda>c. Some (Ok (), c + 1)), sc_shutdown = (\<lambda>_ c. Some (Ok (), c + 1))\<rparr>
      (build_router True) \<lparr>req_method = POST, req_path = ''/api/reset'', req_body = NoBody\<rparr> (0 :: nat)
    = serve sample_web \<lparr>sc_get_session_info = (\<lambda>_. None), sc_request_reset_on_next_logon = (\<lambda>c. None), sc_shutdown = (\<lambda>_ c. None)\<rparr>
      (build_router True) \<lparr>req_method = POST, req_path = ''/api/reset'', req_body = NoBody\<rparr> 0"
proof -
  have "\<not> enable_admin_endpoints RouterConfig_default" by (simp add: RouterConfig_default_def)
  then show ?thesis unfolding build_router_def by (simp add: admin_disabled_no_admin_calls [OF sample_web_documented])
qed

theorem cli_command_reaches_session_witness:
  "\<exists>e'. cli_run (server_client (strip_base ''http://localhost:9881'') sample_web (HttpSessionController sample_env 1)
        (build_router_with_controller False \<lparr>enable_admin_endpoints = True\<rparr>) (\<lambda>_. []) (\<lambda>_. None))
      \<lparr>cli_url = ''http://localhost:9881/'', cli_command = CmdShutdown False\<rparr> (engine_start (sample_session (new_disconnected True [])))
    = Some (Ok (ShutdownOutput 200), e') \<and> ch_admin (eng_ch e') = [InitiateGracefulShutdown False]"
  using cli_command_reaches_session [OF sample_web_documented strip_base_reaches [of "''http://localhost:9881''"],
      of "CmdShutdown False" "InitiateGracefulShutdown False" sample_env 1 False "\<lparr>enable_admin_endpoints = True\<rparr>" "\<lambda>_. []" "\<lambda>_. None" 1
        "engine_start (sample_session (new_disconnected True []))"]
  by (simp add: admin_request_of_def admin_outcome_def engine_start_def no_channels_def)

text \<open>A session that waits for a resend, as the command line sees it.\<close>

theorem cli_session_info_witness:
  "\<exists>e'. cli_run (server_client (strip_base ''http://localhost:9881'') sample_web (HttpSessionController sample_env 1) (build_router False) (\<lambda>_. []) (\<lambda>_. None))
      \<lparr>cli_url = ''http://localhost:9881'', cli_command = CmdSessionInfo\<rparr> (engine_start (sample_session (AwaitingResend (AwaitingResendState_new 3 5 7))))
    = Some (Err (ParseFailed ''Failed to parse session-info response''), e')"
proof -
  let ?e = "engine_start (sample_session (AwaitingResend (AwaitingResendState_new 3 5 7)))"
  have e: "ch_open (eng_ch ?e)" "ch_admin (eng_ch ?e) = []" "\<forall>a. Answer (eng_next ?e) a \<notin> set (ctx_trace (sess_ctx (eng_session ?e)))"
    "as_status (sess_state (eng_session ?e)) = StatusAwaitingResend 5 7 1"
    by (simp_all add: engine_start_def no_channels_def sample_session_def as_status_def AwaitingResendState_new_def)
  have "status_name (as_status (sess_state (eng_session ?e))) = None" by (simp add: e status_name_none)
  then show ?thesis
    using cli_session_info [OF sample_web_documented strip_base_reaches [of "''http://localhost:9881''"] e(1-3),
        of sample_env 0 False RouterConfig_default "\<lambda>_. []" "\<lambda>_. None" 0]
    by (simp add: build_router_def)
qed


end
