(* ===== verification/Zoned_Types.thy ===== *)
theory Zoned_Types
  imports Field_Types
begin

text \<open>
  The field types of \<^verbatim>\<open>hotfix-message/src/encoding/field_types\<close> that only applications use: \<open>MonthYear\<close>, the time zone indicator
  \<open>Tz\<close> with the types built on it, and the iterators over space-separated values. \<open>MonthYear\<close> and \<open>Tz\<close> interpret the locale
  \<open>field_type\<close>; \<open>TzTime\<close> cannot.
\<close>

section \<open>MonthYear\<close>

datatype day_or_week = DayOfMonth u32 | WeekOfMonth u32

datatype month_year = MonthYear (my_year: u32) (my_month: u32) (my_day_or_week: day_or_week)

definition my_day :: "month_year \<Rightarrow> u32 option" where
  "my_day t = (case my_day_or_week t of DayOfMonth d \<Rightarrow> Some d | WeekOfMonth _ \<Rightarrow> None)"

definition my_week :: "month_year \<Rightarrow> u32 option" where
  "my_week t = (case my_day_or_week t of DayOfMonth _ \<Rightarrow> None | WeekOfMonth w \<Rightarrow> Some w)"

definition to_yyyymmww :: "month_year \<Rightarrow> bytes" where
  "to_yyyymmww t =
     [byte_of_u8 (ucast (my_year t div 1000) + 48),
      byte_of_u8 (ucast ((my_year t div 100) mod 10) + 48),
      byte_of_u8 (ucast ((my_year t div 10) mod 10) + 48),
      byte_of_u8 (ucast (my_year t mod 10) + 48),
      byte_of_u8 (ucast (my_month t div 10) + 48),
      byte_of_u8 (ucast (my_month t mod 10) + 48),
      (case my_day_or_week t of DayOfMonth d \<Rightarrow> byte_of_u8 (ucast (d div 10) + 48) | WeekOfMonth _ \<Rightarrow> CHR ''w''),
      (case my_day_or_week t of DayOfMonth d \<Rightarrow> byte_of_u8 (ucast (d mod 10) + 48) | WeekOfMonth w \<Rightarrow> byte_of_u8 (ucast w + 48))]"

definition my_is_digit :: "char \<Rightarrow> u8 \<Rightarrow> u8 \<Rightarrow> bool" where
  "my_is_digit byte min_digit max_digit \<longleftrightarrow> of_char byte \<ge> min_digit + 48 \<and> of_char byte \<le> max_digit + 48"

definition my_from_digit :: "char \<Rightarrow> u8" where
  "my_from_digit digit = of_char digit - 48"

definition validate_year :: "bytes \<Rightarrow> bool" where
  "validate_year data \<longleftrightarrow> my_is_digit (data ! 0) 0 9 \<and> my_is_digit (data ! 1) 0 9
     \<and> my_is_digit (data ! 2) 0 9 \<and> my_is_digit (data ! 3) 0 9"

definition validate_month :: "bytes \<Rightarrow> bool" where
  "validate_month data \<longleftrightarrow>
     ((data ! 4 = CHR ''0'' \<and> (of_char (data ! 5) :: u8) \<le> 57) \<or> (data ! 4 = CHR ''1'' \<and> (of_char (data ! 5) :: u8) \<le> 50))
     \<and> (of_char (data ! 5) :: u8) \<ge> 48"

definition validate_week :: "bytes \<Rightarrow> bool" where
  "validate_week data \<longleftrightarrow> data ! 6 = CHR ''w'' \<and> my_is_digit (data ! 7) 1 5"

definition validate_day :: "bytes \<Rightarrow> bool" where
  "validate_day data \<longleftrightarrow>
     data ! 6 = CHR ''0'' \<and> (of_char (data ! 7) :: u8) \<ge> 48 \<and> (of_char (data ! 7) :: u8) \<le> 57
   \<or> data ! 6 = CHR ''1'' \<and> (of_char (data ! 7) :: u8) \<ge> 48 \<and> (of_char (data ! 7) :: u8) \<le> 57
   \<or> data ! 6 = CHR ''2'' \<and> (of_char (data ! 7) :: u8) \<ge> 48 \<and> (of_char (data ! 7) :: u8) \<le> 57
   \<or> data ! 6 = CHR ''3'' \<and> (of_char (data ! 7) :: u8) \<ge> 48 \<and> (of_char (data ! 7) :: u8) \<le> 49"

definition my_validate :: "bytes \<Rightarrow> bool" where
  "my_validate data \<longleftrightarrow> length data = 8 \<and> validate_year data \<and> validate_month data \<and> (validate_week data \<or> validate_day data)"

text \<open>The lossy reader indexes without a check: fewer than eight bytes panic, more are ignored.\<close>

definition MonthYear_deserialize_lossy :: "bytes \<Rightarrow> (month_year, string) outcome" where
  "MonthYear_deserialize_lossy data =
     (if length data < 8 then Panic
      else
        let y = ucast (my_from_digit (data ! 0)) * 1000 + ucast (my_from_digit (data ! 1)) * 100
              + ucast (my_from_digit (data ! 2)) * 10 + ucast (my_from_digit (data ! 3));
            m = ucast (my_from_digit (data ! 4)) * 10 + ucast (my_from_digit (data ! 5));
            dw = (if data ! 6 = CHR ''w'' then WeekOfMonth (ucast (my_from_digit (data ! 7)))
                  else DayOfMonth (ucast (my_from_digit (data ! 6)) * 10 + ucast (my_from_digit (data ! 7))))
        in Ok (MonthYear y m dw))"

definition MonthYear_deserialize :: "bytes \<Rightarrow> (month_year, string) outcome" where
  "MonthYear_deserialize data =
     (if my_validate data then MonthYear_deserialize_lossy data else Err ''Invalid day or week format.'')"

section \<open>Tz\<close>

text \<open>The offset is an \<^verbatim>\<open>i32\<close>: a word read as signed.\<close>

datatype tz = Tz (offset_from_utc_in_seconds: "32 word")

definition Tz_UTC :: tz where
  "Tz_UTC = Tz 0"

definition unsigned_abs :: "32 word \<Rightarrow> u32" where
  "unsigned_abs w = (if sint w < 0 then - w else w)"

definition Tz_offset :: "tz \<Rightarrow> int \<times> u64" where
  "Tz_offset t = (sgn (sint (offset_from_utc_in_seconds t)), ucast (unsigned_abs (offset_from_utc_in_seconds t)))"

definition u32_digit_to_ascii :: "u32 \<Rightarrow> char" where
  "u32_digit_to_ascii d = byte_of_u8 (ucast d + 48)"

definition Tz_serialize :: "tz \<Rightarrow> bytes" where
  "Tz_serialize t =
     (if offset_from_utc_in_seconds t = 0 then ''Z''
      else
        let sign = (if sint (offset_from_utc_in_seconds t) > 0 then CHR ''+'' else CHR ''-'');
            h = (ucast (snd (Tz_offset t)) :: u32) div 3600;
            minutes = ((ucast (snd (Tz_offset t)) :: u32) mod 3600) div 60
        in [sign, u32_digit_to_ascii (h div 10), u32_digit_to_ascii (h mod 10)]
           @ (if minutes \<noteq> 0 then [CHR '':'', u32_digit_to_ascii (minutes div 10), u32_digit_to_ascii (minutes mod 10)] else []))"

definition Tz_deserialize :: "bytes \<Rightarrow> (tz, string) outcome" where
  "Tz_deserialize data =
     (if data = [] then Err ''Invalid timezone.''
      else if data ! 0 = CHR ''Z'' then Ok Tz_UTC
      else if data ! 0 \<noteq> CHR ''+'' \<and> data ! 0 \<noteq> CHR ''-'' then Err ''Invalid timezone.''
      else
        let sign = (if data ! 0 = CHR ''+'' then 1 else - 1);
            h = ascii_digit_to_u32 (data ! 1) 10 + ascii_digit_to_u32 (data ! 2) 1;
            mi = ascii_digit_to_u32 (data ! 4) 10 + ascii_digit_to_u32 (data ! 5) 1
        in if length data = 3 then Ok (Tz (sign * (h * 3600)))
           else if length data = 6 then Ok (Tz (sign * (h * 3600 + mi * 60)))
           else Err ''Invalid timezone.'')"

definition Tz_deserialize_lossy :: "bytes \<Rightarrow> (tz, string) outcome" where
  "Tz_deserialize_lossy data =
     (let sign = (if data ! 0 = CHR ''+'' then 1 else - 1);
          h = ascii_digit_to_u32 (data ! 1) 10 + ascii_digit_to_u32 (data ! 2) 1;
          mi = ascii_digit_to_u32 (data ! 4) 10 + ascii_digit_to_u32 (data ! 5) 1
      in if length data = 1 then Ok Tz_UTC
         else if length data = 3 then Ok (Tz (sign * (h * 3600)))
         else if length data = 6 then Ok (Tz (sign * (h * 3600 + mi * 60)))
         else Err ''Invalid timezone.'')"

text \<open>
  A \<open>chrono::FixedOffset\<close> is made by \<open>east_opt\<close> and read by \<open>local_minus_utc\<close>, both of them in \<^verbatim>\<open>chrono\<close>; the reader of a
  \<open>FixedOffset\<close> field in \<^verbatim>\<open>utils_chrono.rs\<close> goes through \<open>Tz\<close>.
\<close>

definition to_chrono_offset :: "(int \<Rightarrow> 'o option) \<Rightarrow> tz \<Rightarrow> ('o, 'e) outcome" where
  "to_chrono_offset east_opt t =
     (case east_opt (sint (ucast (snd (Tz_offset t)) :: 32 word)) of None \<Rightarrow> Panic | Some x \<Rightarrow> Ok x)"

definition from_chrono_offset :: "('o \<Rightarrow> 32 word) \<Rightarrow> 'o \<Rightarrow> tz" where
  "from_chrono_offset local_minus_utc x = Tz (local_minus_utc x)"

definition FixedOffset_serialize :: "('o \<Rightarrow> 32 word) \<Rightarrow> 'o \<Rightarrow> bytes" where
  "FixedOffset_serialize local_minus_utc x = Tz_serialize (from_chrono_offset local_minus_utc x)"

definition FixedOffset_deserialize :: "(int \<Rightarrow> 'o option) \<Rightarrow> bytes \<Rightarrow> ('o, string) outcome" where
  "FixedOffset_deserialize east_opt data = (case Tz_deserialize data of
      Ok t \<Rightarrow> to_chrono_offset east_opt t
    | Err e \<Rightarrow> Err e
    | Panic \<Rightarrow> Panic)"

section \<open>TzTime and TzTimestamp\<close>

datatype tz_time = TzTime (tzt_hour: u32) (tzt_minute: u32) (tzt_second: u32) (second_is_explicit: bool) (tzt_tz: tz)

text \<open>The digits are written as numbers, not as characters.\<close>

definition TzTime_serialize :: "tz_time \<Rightarrow> bytes" where
  "TzTime_serialize t =
     [byte_of_u8 (ucast (tzt_hour t) div 10), byte_of_u8 (ucast (tzt_hour t) mod 10), CHR '':'',
      byte_of_u8 (ucast (tzt_minute t) div 10), byte_of_u8 (ucast (tzt_minute t) mod 10), CHR '':'',
      byte_of_u8 (ucast (tzt_second t) div 10), byte_of_u8 (ucast (tzt_second t) mod 10)]
     @ Tz_serialize (tzt_tz t)"

definition TzTime_deserialize :: "bytes \<Rightarrow> (tz_time, string) outcome" where
  "TzTime_deserialize data =
     (if length data < 6 \<or> data ! 2 \<noteq> CHR '':'' then Err ''Invalid time.''
      else
        let h = ascii_digit_to_u32 (data ! 0) 10 + ascii_digit_to_u32 (data ! 1) 1;
            mi = ascii_digit_to_u32 (data ! 3) 10 + ascii_digit_to_u32 (data ! 4) 1
        in if data ! 5 = CHR '':'' then
             if length data < 8 then Panic
             else
               let s = ascii_digit_to_u32 (data ! 6) 10 + ascii_digit_to_u32 (data ! 7) 1
               in (case Tz_deserialize (drop 8 data) of
                   Ok z \<Rightarrow> Ok (TzTime h mi s True z)
                 | Err _ \<Rightarrow> Err ''Invalid time.''
                 | Panic \<Rightarrow> Panic)
           else (case Tz_deserialize (drop 5 data) of
                   Ok z \<Rightarrow> Ok (TzTime h mi 0 False z)
                 | Err _ \<Rightarrow> Err ''Invalid time.''
                 | Panic \<Rightarrow> Panic))"

datatype tz_timestamp = TzTimestamp (tzs_timestamp: timestamp) (tzs_tz: tz)

definition TzTimestamp_serialize :: "tz_timestamp \<Rightarrow> bytes" where
  "TzTimestamp_serialize t = timestamp_serialize (tzs_timestamp t)"

definition TzTimestamp_deserialize :: "bytes \<Rightarrow> (tz_timestamp, string) outcome" where
  "TzTimestamp_deserialize data = Panic"

section \<open>Space-separated values\<close>

text \<open>\<open>MultipleChars\<close>: the bytes not yet given. The subtraction in \<open>next_back\<close> wraps, so one last byte leaves an empty range.\<close>

definition MultipleChars_next :: "bytes \<Rightarrow> char option \<times> bytes" where
  "MultipleChars_next data = (case data of [] \<Rightarrow> (None, data) | byte # _ \<Rightarrow> (Some byte, drop 2 data))"

definition MultipleChars_next_back :: "bytes \<Rightarrow> char option \<times> bytes" where
  "MultipleChars_next_back data =
     (if data = [] then (None, data)
      else (Some (last data), if length data < 2 then [] else take (length data - 2) data))"

definition MultipleChars_len :: "bytes \<Rightarrow> nat" where
  "MultipleChars_len data = (length data + 1) div 2"

definition iter_position :: "('a \<Rightarrow> bool) \<Rightarrow> 'a list \<Rightarrow> nat option" where
  "iter_position P xs = (let n = length (takeWhile (\<lambda>x. \<not> P x) xs) in if n < length xs then Some n else None)"

record multiple_strings =
  mst_data :: bytes
  mst_i :: nat

definition MultipleStrings_new :: "bytes \<Rightarrow> multiple_strings" where
  "MultipleStrings_new data = \<lparr>mst_data = data, mst_i = 0\<rparr>"

definition MultipleStrings_next :: "multiple_strings \<Rightarrow> bytes option \<times> multiple_strings" where
  "MultipleStrings_next s =
     (if mst_i s \<ge> length (mst_data s) then (None, s)
      else case iter_position (\<lambda>byte. byte \<noteq> CHR '' '') (drop (mst_i s) (mst_data s)) of
          None \<Rightarrow> (None, s)
        | Some k \<Rightarrow>
            let i_start = mst_i s + k;
                i_end = i_start + (case iter_position (\<lambda>byte. byte = CHR '' '') (drop i_start (mst_data s)) of
                    None \<Rightarrow> length (mst_data s) - i_start
                  | Some j \<Rightarrow> j)
            in (Some (take (i_end - i_start) (drop i_start (mst_data s))), s\<lparr>mst_i := i_end\<rparr>))"

text \<open>What a \<^verbatim>\<open>for\<close> loop over an iterator sees: the values until the first \<open>None\<close>, with \<open>next_back\<close> the values from the end.\<close>

function chars_collect :: "bytes \<Rightarrow> bytes" where
  "chars_collect data = (case MultipleChars_next data of (None, _) \<Rightarrow> [] | (Some c, rest) \<Rightarrow> c # chars_collect rest)"
  by pat_completeness auto
termination
  by (relation "measure length") (auto simp: MultipleChars_next_def split: list.splits)

function chars_collect_back :: "bytes \<Rightarrow> bytes" where
  "chars_collect_back data = (case MultipleChars_next_back data of (None, _) \<Rightarrow> [] | (Some c, rest) \<Rightarrow> c # chars_collect_back rest)"
  by pat_completeness auto
termination
  by (relation "measure length") (auto simp: MultipleChars_next_back_def split: if_splits)

lemma iter_position_Some: "iter_position P xs = Some n \<Longrightarrow> n < length xs \<and> P (xs ! n) \<and> n = length (takeWhile (\<lambda>x. \<not> P x) xs)"
  using nth_length_takeWhile [of "\<lambda>x. \<not> P x" xs] by (auto simp: iter_position_def Let_def split: if_splits)

text \<open>A word is given as long as something other than spaces is left, and the index moves past it.\<close>

lemma MultipleStrings_next_eq:
  "MultipleStrings_next s = (let rest = dropWhile (\<lambda>c. c = CHR '' '') (drop (mst_i s) (mst_data s)) in
     if rest = [] then (None, s)
     else (Some (takeWhile (\<lambda>c. c \<noteq> CHR '' '') rest),
           s\<lparr>mst_i := length (mst_data s) - length (dropWhile (\<lambda>c. c \<noteq> CHR '' '') rest)\<rparr>))"
proof -
  define xs where "xs = drop (mst_i s) (mst_data s)"
  define k where "k = length (takeWhile (\<lambda>c. c = CHR '' '') xs)"
  define rest where "rest = dropWhile (\<lambda>c. c = CHR '' '') xs"
  have rest: "rest = drop k xs" by (simp add: rest_def k_def dropWhile_eq_drop)
  have start: "iter_position (\<lambda>byte. byte \<noteq> CHR '' '') xs = (if rest = [] then None else Some k)"
    by (simp add: iter_position_def Let_def rest k_def)
  show ?thesis
  proof (cases "rest = []")
    case True
    with start show ?thesis by (simp add: MultipleStrings_next_def xs_def [symmetric] rest_def [symmetric] Let_def)
  next
    case False
    then have "mst_i s < length (mst_data s)" by (auto simp: rest xs_def)
    have r: "drop (mst_i s + k) (mst_data s) = rest" by (simp add: rest xs_def add.commute)
    define n where "n = length (takeWhile (\<lambda>c. c \<noteq> CHR '' '') rest)"
    have len: "length (mst_data s) - (mst_i s + k) = length rest" using r by (metis length_drop)
    have stop: "(case iter_position (\<lambda>byte. byte = CHR '' '') rest of None \<Rightarrow> length (mst_data s) - (mst_i s + k) | Some j \<Rightarrow> j) = n"
      using length_takeWhile_le [of "\<lambda>c. c \<noteq> CHR '' ''" rest] by (auto simp: iter_position_def Let_def n_def len)
    have tk: "take n rest = takeWhile (\<lambda>c. c \<noteq> CHR '' '') rest" by (simp add: n_def takeWhile_eq_take [symmetric])
    have dw: "length (dropWhile (\<lambda>c. c \<noteq> CHR '' '') rest) = length rest - n"
      by (simp add: dropWhile_eq_drop n_def)
    have "n \<le> length rest" by (simp add: n_def length_takeWhile_le)
    moreover have "mst_i s + k + length rest = length (mst_data s)" using len length_greater_0_conv [THEN iffD2, OF False] by linarith
    ultimately have idx: "length (mst_data s) - (length rest - n) = mst_i s + k + n" by simp
    show ?thesis
      using False \<open>mst_i s < length (mst_data s)\<close> start stop
      by (simp add: MultipleStrings_next_def xs_def [symmetric] rest_def [symmetric] Let_def r tk dw idx)
  qed
qed

lemma MultipleStrings_next_progress:
  assumes "MultipleStrings_next s = (Some w, s')"
  shows "length (mst_data s') - mst_i s' < length (mst_data s) - mst_i s"
proof -
  let ?rest = "dropWhile (\<lambda>c. c = CHR '' '') (drop (mst_i s) (mst_data s))"
  have ne: "?rest \<noteq> []" and s': "s' = s\<lparr>mst_i := length (mst_data s) - length (dropWhile (\<lambda>c. c \<noteq> CHR '' '') ?rest)\<rparr>"
    using assms by (auto simp: MultipleStrings_next_eq Let_def split: if_splits)
  then have "length (dropWhile (\<lambda>c. c \<noteq> CHR '' '') ?rest) < length ?rest"
    using hd_dropWhile [of "\<lambda>c. c = CHR '' ''" "drop (mst_i s) (mst_data s)"] length_dropWhile_le
    by (cases ?rest) (auto simp: less_Suc_eq_le)
  moreover have "length ?rest \<le> length (mst_data s) - mst_i s"
    using length_dropWhile_le [of _ "drop (mst_i s) (mst_data s)"] by simp
  ultimately show ?thesis by (simp add: s')
qed

function strings_collect :: "multiple_strings \<Rightarrow> bytes list" where
  "strings_collect s = (case MultipleStrings_next s of (None, _) \<Rightarrow> [] | (Some w, s') \<Rightarrow> w # strings_collect s')"
  by pat_completeness auto
termination
  by (relation "measure (\<lambda>s. length (mst_data s) - mst_i s)") (auto dest: MultipleStrings_next_progress [OF sym])

section \<open>Digits\<close>

lemma unat_of_char: "unat (of_char c :: u8) = of_char c"
  by (simp add: unsigned_of_nat take_bit_nat_eq_self flip: of_nat_of_char [where 'a = u8])

lemma of_char_between:
  assumes "lo < 10" and "hi < 10"
  shows "(of_char c :: u8) \<ge> of_nat lo + 48 \<and> (of_char c :: u8) \<le> of_nat hi + 48 \<longleftrightarrow> (\<exists>k. lo \<le> k \<and> k \<le> hi \<and> c = digit_char k)"
proof -
  have "c = digit_char (of_char c - 48)" if "48 \<le> (of_char c :: nat)"
    using that by (simp add: digit_char_def)
  then have "lo + 48 \<le> of_char c \<Longrightarrow> of_char c \<le> hi + 48 \<Longrightarrow> lo \<le> of_char c - 48 \<and> of_char c - 48 \<le> hi \<and> c = digit_char (of_char c - 48)"
    by auto
  then show ?thesis
    using assms by (auto simp: word_le_nat_alt unat_of_char unat_add_48 of_char_digit_char)
qed

lemma digit_ranges:
  "my_is_digit c 0 9 \<longleftrightarrow> (\<exists>k < 10. c = digit_char k)"
  "my_is_digit c 1 5 \<longleftrightarrow> (\<exists>k. 1 \<le> k \<and> k \<le> 5 \<and> c = digit_char k)"
  "(of_char c :: u8) \<le> 57 \<and> (of_char c :: u8) \<ge> 48 \<longleftrightarrow> (\<exists>k < 10. c = digit_char k)"
  "(of_char c :: u8) \<le> 50 \<and> (of_char c :: u8) \<ge> 48 \<longleftrightarrow> (\<exists>k \<le> 2. c = digit_char k)"
  "(of_char c :: u8) \<ge> 48 \<and> (of_char c :: u8) \<le> 57 \<longleftrightarrow> (\<exists>k < 10. c = digit_char k)"
  "(of_char c :: u8) \<ge> 48 \<and> (of_char c :: u8) \<le> 49 \<longleftrightarrow> (\<exists>k \<le> 1. c = digit_char k)"
  using of_char_between [of 0 9 c] of_char_between [of 1 5 c] of_char_between [of 0 2 c] of_char_between [of 0 1 c]
  by (auto simp: my_is_digit_def less_Suc_eq_le [of _ 9, simplified])

lemma digit_in_range: "k < 10 \<Longrightarrow> my_is_digit (digit_char k) 0 9"
  by (auto simp: digit_ranges)

lemma my_from_digit_digit: "k < 10 \<Longrightarrow> ucast (my_from_digit (digit_char k)) = (of_nat k :: u32)"
  by (simp add: my_from_digit_def of_char_digit unsigned_of_nat take_bit_nat_eq_self)

lemma byte_of_digit: "k < 10 \<Longrightarrow> byte_of_u8 (ucast (of_nat k :: u32) + 48) = digit_char k"
  using digit_to_ascii_digit(3) [of k] by (simp only: time_digit_to_ascii_def)

lemma digit_char_eq_iff: "j < 10 \<Longrightarrow> k < 10 \<Longrightarrow> digit_char j = digit_char k \<longleftrightarrow> j = k"
  by (metis digit_val_digit_char)

section \<open>MonthYear is read as it is written\<close>

definition month_year_ok :: "month_year \<Rightarrow> bool" where
  "month_year_ok t \<longleftrightarrow> my_year t \<le> 9999 \<and> my_month t \<le> 12
     \<and> (case my_day_or_week t of DayOfMonth d \<Rightarrow> d \<le> 31 | WeekOfMonth w \<Rightarrow> 1 \<le> w \<and> w \<le> 5)"

text \<open>The two texts of eight bytes, with the values they stand for.\<close>

definition year_month_text :: "nat \<Rightarrow> nat \<Rightarrow> bytes" where
  "year_month_text y m = [digit_char (y div 1000), digit_char (y div 100 mod 10), digit_char (y div 10 mod 10),
     digit_char (y mod 10), digit_char (m div 10), digit_char (m mod 10)]"

inductive month_year_text :: "month_year \<Rightarrow> bytes \<Rightarrow> bool" where
  text_day: "y \<le> 9999 \<Longrightarrow> m \<le> 12 \<Longrightarrow> d \<le> 31 \<Longrightarrow> month_year_text (MonthYear (of_nat y) (of_nat m) (DayOfMonth (of_nat d)))
    (year_month_text y m @ [digit_char (d div 10), digit_char (d mod 10)])"
| text_week: "y \<le> 9999 \<Longrightarrow> m \<le> 12 \<Longrightarrow> 1 \<le> w \<Longrightarrow> w \<le> 5 \<Longrightarrow> month_year_text (MonthYear (of_nat y) (of_nat m) (WeekOfMonth (of_nat w)))
    (year_month_text y m @ [CHR ''w'', digit_char w])"

lemma month_year_text_total: "month_year_ok t \<Longrightarrow> \<exists>data. month_year_text t data"
proof (cases t)
  case (MonthYear y m dw)
  assume ok: "month_year_ok t"
  note le = u32_le_numeral
  show ?thesis
  proof (cases dw)
    case (DayOfMonth d)
    with ok MonthYear have "unat y \<le> 9999" "unat m \<le> 12" "unat d \<le> 31" by (auto simp: month_year_ok_def intro: le)
    from text_day [OF this] show ?thesis by (auto simp: MonthYear DayOfMonth)
  next
    case (WeekOfMonth w)
    with ok MonthYear have "unat y \<le> 9999" "unat m \<le> 12" "1 \<le> unat w" "unat w \<le> 5"
      by (auto simp: month_year_ok_def word_le_nat_alt intro: le)
    from text_week [OF this] show ?thesis by (auto simp: MonthYear WeekOfMonth)
  qed
qed

lemma of_nat_le_u32: "k \<le> n \<Longrightarrow> n < 2 ^ 32 \<Longrightarrow> (of_nat k :: u32) \<le> of_nat n"
  by (simp add: word_le_nat_alt unat_of_nat_small)

lemma month_year_text_serialize:
  assumes "month_year_text t data"
  shows "to_yyyymmww t = data" "month_year_ok t"
proof -
  have digits: "y div 1000 < 10" "m div 10 < 10" "d div 10 < 10" if "y \<le> 9999" "m \<le> 12" "d \<le> 31" for y m d :: nat using that by auto
  show "to_yyyymmww t = data"
    using assms by cases (auto simp: to_yyyymmww_def year_month_text_def u32_div_mod byte_of_digit)
  have "1 \<le> (of_nat w :: u32)" if "1 \<le> w" "w \<le> 5" for w
    using of_nat_le_u32 [of 1 w] that by simp
  with assms show "month_year_ok t"
    by cases (auto simp: month_year_ok_def of_nat_le_u32 [of _ 9999, simplified] of_nat_le_u32 [of _ 12, simplified]
      of_nat_le_u32 [of _ 31, simplified] of_nat_le_u32 [of _ 5, simplified])
qed

text \<open>Two decimal digits \<open>i\<close> and \<open>j\<close> are those of one number up to \<open>hi * 10 + lo\<close>.\<close>

lemma two_digits:
  fixes lo hi :: nat
  assumes "lo < 10"
  shows "(\<exists>n. n \<le> hi * 10 + lo \<and> P (n div 10) (n mod 10)) \<longleftrightarrow> (\<exists>i < hi. \<exists>j < 10. P i j) \<or> (\<exists>j \<le> lo. P hi j)" (is "?l \<longleftrightarrow> ?r")
proof
  assume ?l
  then obtain n where n: "n \<le> hi * 10 + lo" "P (n div 10) (n mod 10)" by blast
  then have "n div 10 < hi \<or> n div 10 = hi \<and> n mod 10 \<le> lo" using digits2 [of n] assms by linarith
  with n(2) show ?r by (metis mod_less_divisor zero_less_numeral)
next
  assume ?r
  then consider i j where "i < hi" "j < 10" "P i j" | j where "j \<le> lo" "P hi j" by blast
  then show ?l
  proof cases
    case 1
    then show ?thesis by (intro exI [of _ "i * 10 + j"]) simp
  next
    case 2
    then show ?thesis using assms by (intro exI [of _ "hi * 10 + j"]) simp
  qed
qed

lemma validate_month_iff:
  "validate_month data \<longleftrightarrow> (\<exists>m. m \<le> 12 \<and> data ! 4 = digit_char (m div 10) \<and> data ! 5 = digit_char (m mod 10))"
  using two_digits [of 2 1 "\<lambda>i j. data ! 4 = digit_char i \<and> data ! 5 = digit_char j"] digit_ranges(3,4) [of "data ! 5"]
  by (auto simp: validate_month_def digit_char_simps)

lemma validate_day_iff:
  "validate_day data \<longleftrightarrow> (\<exists>d. d \<le> 31 \<and> data ! 6 = digit_char (d div 10) \<and> data ! 7 = digit_char (d mod 10))"
proof -
  have "(\<exists>i < 3. Q i) \<longleftrightarrow> Q 0 \<or> Q 1 \<or> Q 2" for Q :: "nat \<Rightarrow> bool"
    by (auto simp: numeral_3_eq_3 less_Suc_eq numeral_2_eq_2)
  then show ?thesis
    using two_digits [of 1 3 "\<lambda>i j. data ! 6 = digit_char i \<and> data ! 7 = digit_char j"] digit_ranges(5,6) [of "data ! 7"]
    by (simp add: validate_day_def digit_char_simps) blast
qed

lemma validate_year_iff:
  "validate_year data \<longleftrightarrow> (\<exists>y. y \<le> 9999 \<and> data ! 0 = digit_char (y div 1000) \<and> data ! 1 = digit_char (y div 100 mod 10)
     \<and> data ! 2 = digit_char (y div 10 mod 10) \<and> data ! 3 = digit_char (y mod 10))" (is "_ \<longleftrightarrow> (\<exists>y. ?is_year y)")
proof
  assume "validate_year data"
  then obtain a b c d where k: "a < 10" "b < 10" "c < 10" "d < 10" "data ! 0 = digit_char a" "data ! 1 = digit_char b"
    "data ! 2 = digit_char c" "data ! 3 = digit_char d" by (auto simp: validate_year_def digit_ranges)
  define x where "x = a * 10 + b"
  define z where "z = x * 10 + c"
  define y where "y = z * 10 + d"
  have y: "y div 10 = z" "y mod 10 = d" using k by (simp_all add: y_def)
  have z: "z div 10 = x" "z mod 10 = c" using k by (simp_all add: z_def)
  have x: "x div 10 = a" "x mod 10 = b" using k by (simp_all add: x_def)
  have "y div 100 = x" "y div 1000 = a"
    using y z x div_mult2_eq [of y 10 10] div_mult2_eq [of y 10 100] div_mult2_eq [of z 10 10] by simp_all
  moreover have "y \<le> 9999" using k by (simp add: y_def z_def x_def)
  ultimately have "?is_year y" using k y z x by simp
  then show "\<exists>y. ?is_year y" ..
next
  assume "\<exists>y. ?is_year y"
  then obtain y where y: "?is_year y" by blast
  then have "y div 1000 < 10" by auto
  with y show "validate_year data" by (simp add: validate_year_def digit_in_range)
qed

lemma list_8: "length data = 8 \<Longrightarrow> data = [data ! 0, data ! 1, data ! 2, data ! 3, data ! 4, data ! 5, data ! 6, data ! 7]"
  by (auto simp: numeral_eq_Suc length_Suc_conv)

lemma digit_char_not_w: "k < 10 \<Longrightarrow> digit_char k \<noteq> CHR ''w''"
  using is_ascii_digit_digit_char [of k] by (auto simp: is_ascii_digit_def)

lemma month_year_text_validate: "month_year_text t data \<Longrightarrow> my_validate data"
proof (induction rule: month_year_text.induct)
  case (text_day y m d)
  let ?data = "year_month_text y m @ [digit_char (d div 10), digit_char (d mod 10)]"
  have "validate_year ?data" "validate_month ?data" "validate_day ?data"
    unfolding validate_year_iff validate_month_iff validate_day_iff using text_day
    by (intro exI [of _ y] exI [of _ m] exI [of _ d]; simp add: year_month_text_def)+
  then show ?case by (simp add: my_validate_def) (simp add: year_month_text_def)
next
  case (text_week y m w)
  let ?data = "year_month_text y m @ [CHR ''w'', digit_char w]"
  have "validate_year ?data" "validate_month ?data"
    unfolding validate_year_iff validate_month_iff using text_week
    by (intro exI [of _ y] exI [of _ m]; simp add: year_month_text_def)+
  moreover have "validate_week ?data" using text_week by (auto simp: validate_week_def digit_ranges year_month_text_def)
  ultimately show ?case by (simp add: my_validate_def) (simp add: year_month_text_def)
qed

lemma my_validate_text: "my_validate data \<Longrightarrow> \<exists>t. month_year_text t data"
proof -
  assume v: "my_validate data"
  then obtain y m where ym: "y \<le> 9999" "data ! 0 = digit_char (y div 1000)" "data ! 1 = digit_char (y div 100 mod 10)"
    "data ! 2 = digit_char (y div 10 mod 10)" "data ! 3 = digit_char (y mod 10)"
    "m \<le> 12" "data ! 4 = digit_char (m div 10)" "data ! 5 = digit_char (m mod 10)"
    unfolding my_validate_def validate_year_iff validate_month_iff by blast
  have data: "data = year_month_text y m @ [data ! 6, data ! 7]"
    using v list_8 [of data] by (simp add: my_validate_def year_month_text_def ym(2,4,5,7,8) ym(3) [unfolded One_nat_def])
  from v consider "validate_week data" | "validate_day data" by (auto simp: my_validate_def)
  then show ?thesis
  proof cases
    case 1
    then obtain w where "1 \<le> w" "w \<le> 5" "data ! 6 = CHR ''w''" "data ! 7 = digit_char w"
      by (auto simp: validate_week_def digit_ranges)
    with text_week [OF ym(1,6)] data show ?thesis by metis
  next
    case 2
    then obtain d where "d \<le> 31" "data ! 6 = digit_char (d div 10)" "data ! 7 = digit_char (d mod 10)"
      unfolding validate_day_iff by blast
    with text_day [OF ym(1,6)] data show ?thesis by metis
  qed
qed

lemma month_year_text_lossy: "month_year_text t data \<Longrightarrow> MonthYear_deserialize_lossy data = Ok t"
proof (induction rule: month_year_text.induct)
  case (text_day y m d)
  then have "y div 1000 < 10" "m div 10 < 10" "d div 10 < 10" by auto
  then show ?case
    by (simp add: MonthYear_deserialize_lossy_def year_month_text_def my_from_digit_digit of_nat_digits digit_char_not_w)
next
  case (text_week y m w)
  then have "y div 1000 < 10" "m div 10 < 10" by auto
  with text_week show ?case
    by (simp add: MonthYear_deserialize_lossy_def year_month_text_def my_from_digit_digit of_nat_digits)
qed

lemma MonthYear_deserialize_iff: "MonthYear_deserialize data = Ok t \<longleftrightarrow> month_year_text t data"
proof (cases "my_validate data")
  case True
  then obtain u where u: "month_year_text u data" using my_validate_text by blast
  with True show ?thesis using month_year_text_lossy [OF u] by (auto simp: MonthYear_deserialize_def dest: month_year_text_lossy)
next
  case False
  then show ?thesis using month_year_text_validate by (auto simp: MonthYear_deserialize_def)
qed

interpretation month_year_field: field_type to_yyyymmww MonthYear_deserialize month_year_ok
  by standard (metis MonthYear_deserialize_iff month_year_text_serialize(1) month_year_text_total)

section \<open>Time zones\<close>

text \<open>The offsets that have a text: whole minutes, less than a hundred hours.\<close>

definition tz_ok :: "tz \<Rightarrow> bool" where
  "tz_ok t \<longleftrightarrow> unat (unsigned_abs (offset_from_utc_in_seconds t)) < 360000 \<and> unat (unsigned_abs (offset_from_utc_in_seconds t)) mod 60 = 0"

lemma u32_digit_to_ascii_digit: "k < 10 \<Longrightarrow> u32_digit_to_ascii (of_nat k) = digit_char k"
  using byte_of_digit [of k] by (simp only: u32_digit_to_ascii_def)

lemma sint_of_nat_small:
  assumes "n < 2 ^ 31"
  shows "sint (of_nat n :: 32 word) = int n" "sint (- of_nat n :: 32 word) = - int n"
proof -
  show "sint (of_nat n :: 32 word) = int n"
    using assms by (simp add: signed_of_nat signed_take_bit_int_eq_self)
  have "(- of_nat n :: 32 word) = of_int (- int n)" by simp
  then have "sint (- of_nat n :: 32 word) = signed_take_bit 31 (- int n)" by (simp only: signed_of_int) simp
  also have "\<dots> = - int n" using assms by (intro signed_take_bit_int_eq_self) simp_all
  finally show "sint (- of_nat n :: 32 word) = - int n" .
qed

lemma unsigned_abs_of_nat:
  assumes "n < 2 ^ 31"
  shows "unsigned_abs (of_nat n) = of_nat n" "unsigned_abs (- of_nat n) = of_nat n"
  using sint_of_nat_small [OF assms] by (auto simp: unsigned_abs_def)

lemma tz_cases:
  assumes "tz_ok t"
  obtains s h mi where "s = 1 \<or> s = - 1" "h < 100" "mi < 60" "t = Tz (s * of_nat (h * 3600 + mi * 60))"
proof -
  define n where "n = unat (unsigned_abs (offset_from_utc_in_seconds t))"
  have n: "n < 360000" "n mod 60 = 0" using assms by (simp_all add: tz_ok_def n_def)
  have "t = Tz (of_nat n) \<or> t = Tz (- of_nat n)" by (cases t) (auto simp: n_def unsigned_abs_def)
  moreover have "n = n div 3600 * 3600 + n mod 3600 div 60 * 60"
  proof -
    have "n mod 3600 mod 60 = n mod 60" by (rule mod_mod_cancel) simp
    then have "n mod 3600 = n mod 3600 div 60 * 60" using n(2) div_mult_mod_eq [of "n mod 3600" 60] by simp
    then show ?thesis using div_mult_mod_eq [of n 3600] by simp
  qed
  moreover have "n div 3600 < 100" "n mod 3600 div 60 < 60" using n(1) by (auto simp: less_mult_imp_div_less)
  ultimately show ?thesis
    using that [of 1 "n div 3600" "n mod 3600 div 60"] that [of "- 1" "n div 3600" "n mod 3600 div 60"] by auto
qed

lemma ucast_u64_u32: "ucast (ucast (w :: u32) :: u64) = w"
  by (rule bit_word_eqI) (auto simp: bit_simps)

lemma Tz_serialize_digits:
  assumes "h < 100" "mi < 60" "h + mi \<noteq> 0" and t: "t = Tz (s * of_nat (h * 3600 + mi * 60))" "s = 1 \<or> s = - 1"
  shows "Tz_serialize t = [if s = 1 then CHR ''+'' else CHR ''-'', digit_char (h div 10), digit_char (h mod 10)]
    @ (if mi = 0 then [] else [CHR '':'', digit_char (mi div 10), digit_char (mi mod 10)])"
proof -
  define n where "n = h * 3600 + mi * 60"
  have n: "0 < n" "n < 2 ^ 31" using assms by (auto simp: n_def)
  have off: "ucast (snd (Tz_offset t)) = (of_nat n :: u32)"
    using t unsigned_abs_of_nat [OF n(2)] by (auto simp: Tz_offset_def n_def [symmetric] ucast_u64_u32)
  have nz: "(of_nat n :: 32 word) \<noteq> 0" using sint_of_nat_small(1) [OF n(2)] n(1) by auto
  have sg: "0 < sint (offset_from_utc_in_seconds t) \<longleftrightarrow> s = 1" and zero: "offset_from_utc_in_seconds t \<noteq> 0"
    using t sint_of_nat_small [OF n(2)] n(1) nz by (auto simp: n_def [symmetric])
  have "(of_nat n :: u32) div 3600 = of_nat h" "(of_nat n :: u32) mod 3600 div 60 = of_nat mi"
  proof -
    have "n div 3600 = h" "n mod 3600 = mi * 60" using assms(2) by (simp_all add: n_def)
    then show "(of_nat n :: u32) div 3600 = of_nat h" "(of_nat n :: u32) mod 3600 div 60 = of_nat mi"
      using n(2) by (simp_all add: word_unat_eq_iff unat_div unat_mod unat_of_nat)
  qed
  moreover have "h div 10 < 10" "mi div 10 < 10" "h < 2 ^ 32" "mi < 2 ^ 32" using assms by auto
  moreover have "(of_nat mi :: u32) = 0 \<longleftrightarrow> mi = 0" using assms(2) by (simp add: word_unat_eq_iff unat_of_nat)
  ultimately show ?thesis
    using sg zero by (auto simp: Tz_serialize_def off u32_div_mod u32_digit_to_ascii_digit)
qed

lemma Tz_deserialize_digits:
  assumes "h < 100" "mi < 60" "s = 1 \<or> s = - 1"
  shows "Tz_deserialize ([if s = 1 then CHR ''+'' else CHR ''-'', digit_char (h div 10), digit_char (h mod 10)]
    @ (if mi = 0 then [] else [CHR '':'', digit_char (mi div 10), digit_char (mi mod 10)])) = Ok (Tz (s * of_nat (h * 3600 + mi * 60)))"
proof -
  have "h div 10 < 10" "mi div 10 < 10" using assms by auto
  moreover have "(1 :: 32 word) \<noteq> - 1" by simp
  ultimately show ?thesis
    using assms(3) by (auto simp: Tz_deserialize_def Let_def of_nat_digits)
qed

interpretation tz_field: field_type Tz_serialize Tz_deserialize tz_ok
proof
  fix t
  assume "tz_ok t"
  then obtain s h mi where s: "s = 1 \<or> s = - 1" and b: "h < 100" "mi < 60" and t: "t = Tz (s * of_nat (h * 3600 + mi * 60))"
    by (rule tz_cases)
  show "Tz_deserialize (Tz_serialize t) = Ok t"
  proof (cases "h + mi = 0")
    case True
    with t show ?thesis by (simp add: Tz_serialize_def Tz_deserialize_def Tz_UTC_def)
  next
    case False
    have "Tz_deserialize (Tz_serialize t) = Ok (Tz (s * of_nat (h * 3600 + mi * 60)))"
      by (simp only: Tz_serialize_digits [OF b False t s] Tz_deserialize_digits [OF b s])
    then show ?thesis by (simp only: t)
  qed
qed

section \<open>What iterating gives\<close>

declare chars_collect.simps [simp del] chars_collect_back.simps [simp del] strings_collect.simps [simp del]

text \<open>The reference: cut at every space, drop the empty pieces.\<close>

fun split_spaces :: "bytes \<Rightarrow> bytes list" where
  "split_spaces [] = [[]]"
| "split_spaces (c # cs) = (if c = CHR '' '' then [] # split_spaces cs
     else case split_spaces cs of [] \<Rightarrow> [[c]] | w # ws \<Rightarrow> (c # w) # ws)"

definition split_words :: "bytes \<Rightarrow> bytes list" where
  "split_words data = filter (\<lambda>w. w \<noteq> []) (split_spaces data)"

lemma split_words_simps [simp]:
  "split_words [] = []" "split_words (CHR '' '' # cs) = split_words cs"
  by (simp_all add: split_words_def)

lemma split_words_dropWhile: "split_words (dropWhile (\<lambda>c. c = CHR '' '') cs) = split_words cs"
  by (induction cs) auto

lemma split_spaces_not_Nil: "split_spaces cs \<noteq> []"
  by (induction cs) (auto split: list.splits)

lemma split_spaces_takeWhile:
  "split_spaces cs = takeWhile (\<lambda>c. c \<noteq> CHR '' '') cs #
     (case dropWhile (\<lambda>c. c \<noteq> CHR '' '') cs of [] \<Rightarrow> [] | _ # rest \<Rightarrow> split_spaces rest)"
  by (induction cs) auto

lemma split_words_Cons:
  assumes "c \<noteq> CHR '' ''"
  shows "split_words (c # cs) = takeWhile (\<lambda>c. c \<noteq> CHR '' '') (c # cs) # split_words (dropWhile (\<lambda>c. c \<noteq> CHR '' '') (c # cs))"
proof (cases "dropWhile (\<lambda>c. c \<noteq> CHR '' '') cs")
  case Nil
  with assms show ?thesis by (simp add: split_words_def split_spaces_takeWhile [of cs] del: dropWhile_eq_Nil_conv)
next
  case (Cons x rest)
  then have "x = CHR '' ''" using hd_dropWhile [of "\<lambda>c. c \<noteq> CHR '' ''" cs] by simp
  with assms Cons show ?thesis by (simp add: split_words_def split_spaces_takeWhile [of cs])
qed

lemma strings_collect_words: "strings_collect s = split_words (drop (mst_i s) (mst_data s))"
proof (induction s rule: strings_collect.induct)
  case (1 s)
  let ?rest = "dropWhile (\<lambda>c. c = CHR '' '') (drop (mst_i s) (mst_data s))"
  show ?case
  proof (cases ?rest)
    case Nil
    then have "split_words (drop (mst_i s) (mst_data s)) = []"
      using split_words_dropWhile [of "drop (mst_i s) (mst_data s)"] by (simp del: dropWhile_eq_Nil_conv)
    then show ?thesis using Nil by (subst strings_collect.simps) (simp add: MultipleStrings_next_eq)
  next
    case (Cons c cs)
    then have c: "c \<noteq> CHR '' ''" using hd_dropWhile [of "\<lambda>c. c = CHR '' ''" "drop (mst_i s) (mst_data s)"] by simp
    let ?tail = "dropWhile (\<lambda>c. c \<noteq> CHR '' '') (c # cs)"
    define s' where "s' = s\<lparr>mst_i := length (mst_data s) - length ?tail\<rparr>"
    have nxt: "MultipleStrings_next s = (Some (takeWhile (\<lambda>c. c \<noteq> CHR '' '') (c # cs)), s')"
      using Cons by (simp add: MultipleStrings_next_eq s'_def)
    obtain j where j: "?tail = drop j (mst_data s)"
      unfolding Cons [symmetric] by (metis dropWhile_eq_drop drop_drop)
    have "drop (length (mst_data s) - length (drop j (mst_data s))) (mst_data s) = drop j (mst_data s)" for j
      by (cases "j \<le> length (mst_data s)") auto
    then have "drop (mst_i s') (mst_data s') = ?tail" unfolding s'_def j by simp
    then have "strings_collect s' = split_words ?tail" using 1 nxt by simp
    then show ?thesis
      using nxt split_words_Cons [OF c] split_words_dropWhile [of "drop (mst_i s) (mst_data s)"] Cons
      by (subst strings_collect.simps) simp
  qed
qed

lemma chars_collect_simps [simp]:
  "chars_collect [] = []" "chars_collect [c] = [c]" "chars_collect (c # x # cs) = c # chars_collect cs"
  by (subst chars_collect.simps, simp add: MultipleChars_next_def)+

lemma chars_collect_nth: "chars_collect data = map (\<lambda>i. data ! (2 * i)) [0..<MultipleChars_len data]"
proof (induction data rule: induct_list012)
  case (3 c x cs)
  have "MultipleChars_len (c # x # cs) = Suc (MultipleChars_len cs)" by (simp add: MultipleChars_len_def)
  then show ?case using 3 by (simp only: chars_collect_simps upt_conv_Cons [OF zero_less_Suc] map_Suc_upt [symmetric]) (simp add: comp_def)
qed (simp_all add: MultipleChars_len_def)

lemma chars_collect_back_step:
  "chars_collect_back (data @ [x, c]) = c # chars_collect_back data" "chars_collect_back [] = []" "chars_collect_back [c] = [c]"
  by (subst chars_collect_back.simps, simp add: MultipleChars_next_back_def chars_collect_back.simps [of "[]"])+

section \<open>Properties\<close>

text \<open>\<open>MonthYear\<close> has one text per value. \<open>MonthYear::deserialize\<close> accepts exactly the texts that \<open>to_yyyymmww\<close> writes for years up to
  9999, months up to 12 and days up to 31 or weeks 1 to 5, and gives the value they were written from. Month and day zero are among them.\<close>

theorem month_year_exact: "MonthYear_deserialize data = Ok t \<longleftrightarrow> month_year_ok t \<and> to_yyyymmww t = data"
  using month_year_text_serialize month_year_text_total MonthYear_deserialize_iff by metis

text \<open>Times with a zone cannot be read back. \<open>TzTime\<close> writes the digits of hour, minute and second as the bytes 0 to 9 and reads
  them as characters: every time written with a zone that has a text is accepted again, as a different time.\<close>

theorem tz_time_misread:
  assumes "tzt_hour t < 256" "tzt_minute t < 256" "tzt_second t < 256" and "tz_ok (tzt_tz t)"
  shows "TzTime_deserialize (TzTime_serialize t)
      = Ok (TzTime (tzt_hour t - 528) (tzt_minute t - 528) (tzt_second t - 528) True (tzt_tz t))
    \<and> tzt_hour t - 528 \<noteq> tzt_hour t"
proof -
  have digits: "ascii_digit_to_u32 (byte_of_u8 (ucast w div 10)) 10 + ascii_digit_to_u32 (byte_of_u8 (ucast w mod 10)) 1 = w - 528"
    if "w < 256" for w :: u32
  proof -
    obtain k where k: "w = of_nat k" "k < 256" using \<open>w < 256\<close> that [of "unat w"] by (auto simp: word_less_nat_alt)
    have u: "unat ((ucast w :: u8) div 10) = k div 10" "unat ((ucast w :: u8) mod 10) = k mod 10"
      using k by (simp_all add: unat_div unat_mod unsigned_of_nat take_bit_nat_eq_self)
    have c: "(of_char (char_of (n :: nat)) :: u32) = of_nat n" if "n < 256" for n
      using that by (simp flip: of_nat_of_char [where 'a = u32])
    have "k div 10 < 256" "k mod 10 < 256" using k by auto
    then have "ascii_digit_to_u32 (byte_of_u8 (ucast w div 10)) 10 + ascii_digit_to_u32 (byte_of_u8 (ucast w mod 10)) 1
        = (of_nat (k div 10) - 48) * 10 + (of_nat (k mod 10) - 48)" by (simp add: ascii_digit_to_u32_def u c)
    also have "\<dots> = of_nat k - 528" using of_nat_digits(1) [of k, where 'a = u32] by (simp add: algebra_simps)
    finally show ?thesis by (simp only: k(1))
  qed
  show ?thesis
    using assms by (cases t) (simp add: TzTime_serialize_def TzTime_deserialize_def digits tz_field.roundtrip)
qed

theorem tz_time_misread_witness:
  "TzTime_deserialize (TzTime_serialize (TzTime 7 39 20 True Tz_UTC)) \<noteq> Ok (TzTime 7 39 20 True Tz_UTC)"
  using tz_time_misread [of "TzTime 7 39 20 True Tz_UTC"] by (auto simp: tz_ok_def Tz_UTC_def unsigned_abs_def)

text \<open>A time that ends right after the second colon is not refused: the reader indexes past the end.\<close>

theorem tz_time_short_panics: "TzTime_deserialize ''12:34:'' = Panic \<and> TzTime_deserialize ''12:34:5'' = Panic"
  by (simp add: TzTime_deserialize_def)

lemma unsigned_abs_uminus: "unsigned_abs (- w) = unsigned_abs w"
proof -
  define n where "n = unat w"
  have w: "w = of_nat n" "n < 2 ^ 32" using unsigned_less [of w, where ?'a = nat] by (simp_all add: n_def)
  consider "n < 2 ^ 31" | "n = 2 ^ 31" | "2 ^ 32 - n < 2 ^ 31" by (cases "n < 2 ^ 31"; cases "n = 2 ^ 31") auto
  then show ?thesis
  proof cases
    case 1
    then show ?thesis by (simp only: w unsigned_abs_of_nat)
  next
    case 2
    then have "- w = w" unfolding w(1) neg_eq_iff_add_eq_0 by simp
    then show ?thesis by (rule arg_cong)
  next
    case 3
    have "(of_nat (2 ^ 32 - n) :: 32 word) = of_nat (2 ^ 32) - of_nat n" using w(2) by (intro of_nat_diff) simp
    then have "w = - of_nat (2 ^ 32 - n)" by (simp add: w(1))
    then show ?thesis using unsigned_abs_of_nat [OF 3] by simp
  qed
qed

text \<open>West becomes east. \<open>Tz::to_chrono_offset\<close> gives \<^verbatim>\<open>chrono\<close> the absolute value: a \<open>FixedOffset\<close> field with a minus sign is read
  as the one with a plus sign.\<close>

theorem fixed_offset_loses_sign:
  "FixedOffset_deserialize east_opt (CHR ''-'' # digits) = FixedOffset_deserialize east_opt (CHR ''+'' # digits)"
proof -
  let ?h = "ascii_digit_to_u32 (digits ! 0) 10 + ascii_digit_to_u32 (digits ! 1) 1"
  let ?m = "ascii_digit_to_u32 (digits ! 3) 10 + ascii_digit_to_u32 (digits ! 4) 1"
  have west: "(to_chrono_offset east_opt (Tz (- w)) :: (_, string) outcome) = to_chrono_offset east_opt (Tz w)" for w
    by (simp add: to_chrono_offset_def Tz_offset_def unsigned_abs_uminus)
  show ?thesis
    using west [of "?h * 3600"] west [of "?h * 3600 + ?m * 60"]
    by (auto simp: FixedOffset_deserialize_def Tz_deserialize_def Let_def)
qed

text \<open>\<open>MultipleStrings\<close> yields the words between the spaces, in order, and \<open>MultipleChars\<close> every second byte, as many as its
  \<open>len\<close> says; from the back it yields the same bytes only when the data does not end with a separator.\<close>

theorem multiple_strings_words: "strings_collect (MultipleStrings_new data) = filter (\<lambda>w. w \<noteq> []) (split_spaces data)"
  by (simp add: strings_collect_words MultipleStrings_new_def split_words_def)

theorem multiple_chars_every_second:
  "chars_collect data = map (\<lambda>i. data ! (2 * i)) [0..<MultipleChars_len data]"
  by (rule chars_collect_nth)

lemma chars_collect_append: "odd (length data) \<Longrightarrow> chars_collect (data @ [x, c]) = chars_collect data @ [c]"
  by (induction data rule: induct_list012) auto

theorem multiple_chars_back:
  assumes "odd (length data)"
  shows "chars_collect_back data = rev (chars_collect data)"
  using assms
proof (induction data rule: length_induct)
  case (1 data)
  consider c where "data = [c]" | xs x c where "data = xs @ [x, c]"
    using 1(2) by (cases data rule: rev_cases) (auto, metis append.assoc append_Cons append_Nil rev_exhaust)
  then show ?case
  proof cases
    case 2
    with 1 have "chars_collect_back xs = rev (chars_collect xs)" "odd (length xs)" by auto
    with 2 show ?thesis by (simp add: chars_collect_back_step chars_collect_append)
  qed (simp add: chars_collect_back_step)
qed

theorem multiple_chars_back_witness: "chars_collect_back ''a b c'' = ''cba''"
  using multiple_chars_back [of "''a b c''"] by simp

text \<open>With a trailing separator the two directions disagree.\<close>

theorem multiple_chars_back_differs: "chars_collect ''a b '' = ''ab'' \<and> chars_collect_back ''a b '' = ''  ''"
  using chars_collect_back_step(1) [of "''a ''" "CHR ''b''" "CHR '' ''"] chars_collect_back_step(1) [of "[]" "CHR ''a''" "CHR '' ''"]
  by (simp add: chars_collect_back_step(2))

end
