(* ===== verification/Value_Types.thy ===== *)
theory Value_Types
  imports Zoned_Types Message
begin

text \<open>
  The remaining values of \<^verbatim>\<open>hotfix-message/src/encoding\<close>: integers of every width with and without sign, byte strings and arrays
  (\<^verbatim>\<open>primitives.rs\<close>), tags, the \<^verbatim>\<open>chrono\<close> types (\<^verbatim>\<open>utils_chrono.rs\<close>), the enumerations whose \<open>FieldType\<close> the macro of
  \<^verbatim>\<open>hotfix-derive\<close> writes, the typed access of \<^verbatim>\<open>field_access.rs\<close> and the growable buffer of \<^verbatim>\<open>buffer.rs\<close>. Integers
  and derived enumerations interpret \<open>field_type\<close>. The conversions of floating point numbers are parameters.
\<close>

section \<open>Integers\<close>

text \<open>The macro \<open>impl_unsigned\<close>, for a word of any width.\<close>

definition unsigned_serialize_with :: "nat \<Rightarrow> 'a::len word \<Rightarrow> bytes" where
  "unsigned_serialize_with padding n = show_padded padding (unat n)"

definition parse_uint :: "bytes \<Rightarrow> 'a::len word option" where
  "parse_uint s = map_option of_nat (parse_unsigned (2 ^ LENGTH('a) - 1) s)"

definition unsigned_deserialize :: "bytes \<Rightarrow> ('a::len word, string) outcome" where
  "unsigned_deserialize data = (case from_utf8 data of
      None \<Rightarrow> Err ''Invalid byte sequence; expected UTF-8 valid bytes.''
    | Some s \<Rightarrow> (case parse_uint s of None \<Rightarrow> Err ''Invalid integer digits.'' | Some n \<Rightarrow> Ok n))"

definition lossy_digits :: "bytes \<Rightarrow> 'a::len word" where
  "lossy_digits data = foldl (\<lambda>n c. n * 10 + (of_char c - 48)) 0 data"

definition unsigned_deserialize_lossy :: "bytes \<Rightarrow> ('a::len word, string) outcome" where
  "unsigned_deserialize_lossy data = Ok (lossy_digits data)"

text \<open>The macro \<open>impl_signed\<close>: a word read as signed.\<close>

definition show_int :: "int \<Rightarrow> bytes" where
  "show_int i = (if i < 0 then CHR ''-'' # show_nat (nat (- i)) else show_nat (nat i))"

definition signed_serialize :: "'a::len word \<Rightarrow> bytes" where
  "signed_serialize n = show_int (sint n)"

text \<open>\<open>str::parse\<close> for a signed type: one sign is taken, at least one digit is needed, other characters and overflow are errors.\<close>

definition parse_int :: "bytes \<Rightarrow> 'a::len word option" where
  "parse_int s = (case s of
      [] \<Rightarrow> None
    | c # cs \<Rightarrow>
        let negative = (c = CHR ''-'');
            ds = (if c = CHR ''+'' \<or> c = CHR ''-'' then cs else s)
        in if ds = [] then None
           else case digits_value 0 ds of
               None \<Rightarrow> None
             | Some n \<Rightarrow>
                 if negative then (if n \<le> 2 ^ (LENGTH('a) - 1) then Some (- of_nat n) else None)
                 else (if n < 2 ^ (LENGTH('a) - 1) then Some (of_nat n) else None))"

definition signed_deserialize :: "bytes \<Rightarrow> ('a::len word, string) outcome" where
  "signed_deserialize data = (case from_utf8 data of
      None \<Rightarrow> Err ''Invalid byte sequence; expected UTF-8 valid bytes.''
    | Some s \<Rightarrow> (case parse_int s of None \<Rightarrow> Err ''Invalid integer digits.'' | Some n \<Rightarrow> Ok n))"

text \<open>The macro \<open>lossy_deserialize_signed\<close>: the sign is read as a digit as well.\<close>

definition signed_deserialize_lossy :: "bytes \<Rightarrow> ('a::len word, string) outcome" where
  "signed_deserialize_lossy data =
     (let n = lossy_digits data in Ok (if data \<noteq> [] \<and> hd data = CHR ''-'' then - n else n))"

text \<open>\<^verbatim>\<open>TagU32\<close> is a \<^verbatim>\<open>NonZeroU32\<close>.\<close>

definition tag_deserialize :: "bytes \<Rightarrow> (u32, string) outcome" where
  "tag_deserialize data = (case from_utf8 data of
      None \<Rightarrow> Err ''Invalid byte sequence; expected UTF-8 valid bytes.''
    | Some s \<Rightarrow> (case parse_u32 s of
        None \<Rightarrow> Err ''Invalid integer digits.''
      | Some n \<Rightarrow> if n = 0 then Err ''Invalid integer digits.'' else Ok n))"

definition tag_serialize :: "u32 \<Rightarrow> bytes" where
  "tag_serialize n = show_u32 n"

definition tag_deserialize_lossy :: "bytes \<Rightarrow> (u32, string) outcome" where
  "tag_deserialize_lossy data = (case unsigned_deserialize_lossy data of Ok n \<Rightarrow> Ok (max n 1) | e \<Rightarrow> e)"

section \<open>Floating point\<close>

text \<open>The macro \<open>impl_float\<close>. The value is opaque; \<open>display\<close> and \<open>parse\<close> are the conversions of the standard library.\<close>

definition float_serialize :: "('f \<Rightarrow> bytes) \<Rightarrow> 'f \<Rightarrow> bytes" where
  "float_serialize display x = display x"

definition float_deserialize :: "(bytes \<Rightarrow> 'f option) \<Rightarrow> bytes \<Rightarrow> ('f, string) outcome" where
  "float_deserialize parse data = (case from_utf8 data of
      None \<Rightarrow> Err ''Invalid byte sequence; expected UTF-8 valid bytes.''
    | Some s \<Rightarrow> (case parse s of None \<Rightarrow> Err ''Invalid integer digits.'' | Some x \<Rightarrow> Ok x))"

section \<open>The round trip the crate offers as a test\<close>

text \<open>\<open>test_utility_verify_serialization_behavior\<close>; a panic counts as a failure of the test.\<close>

definition verify_serialization_behavior ::
    "('v \<Rightarrow> bytes) \<Rightarrow> (bytes \<Rightarrow> ('v, 'e) outcome) \<Rightarrow> (bytes \<Rightarrow> ('v, 'e) outcome) \<Rightarrow> 'v \<Rightarrow> bool" where
  "verify_serialization_behavior ser deser lossy item =
    (case deser (ser item) of
       Ok v \<Rightarrow> (case lossy (ser item) of Ok w \<Rightarrow> v = item \<and> w = item | _ \<Rightarrow> False)
     | _ \<Rightarrow> False)"

section \<open>Bytes\<close>

definition bytes_serialize :: "bytes \<Rightarrow> bytes" where
  "bytes_serialize b = b"

definition bytes_deserialize :: "bytes \<Rightarrow> (bytes, unit) outcome" where
  "bytes_deserialize data = Ok data"

definition array_deserialize :: "nat \<Rightarrow> bytes \<Rightarrow> (bytes, unit) outcome" where
  "array_deserialize n data = (if length data = n then Ok data else Err ())"

section \<open>Derived enumerations\<close>

text \<open>
  The variants of an enumeration with the attribute \<^verbatim>\<open>#[hotfix(variant = ..)]\<close>. The macro writes one arm per variant, in this order, into the
  two \<^verbatim>\<open>match\<close> expressions; a value of the enumeration is the identifier of its variant.
\<close>

record enum_variant =
  ev_ident :: string
  ev_variant :: bytes

definition derived_serialize :: "enum_variant list \<Rightarrow> string \<Rightarrow> bytes" where
  "derived_serialize vs i = (case List.find (\<lambda>v. ev_ident v = i) vs of Some v \<Rightarrow> ev_variant v | None \<Rightarrow> [])"

definition derived_deserialize :: "enum_variant list \<Rightarrow> bytes \<Rightarrow> (string, unit) outcome" where
  "derived_deserialize vs data = (case List.find (\<lambda>v. ev_variant v = data) vs of Some v \<Rightarrow> Ok (ev_ident v) | None \<Rightarrow> Err ())"

section \<open>The types of chrono\<close>

text \<open>
  A \<open>NaiveDate\<close> is what \<^verbatim>\<open>chrono\<close> says of it: year, month and day; a \<open>NaiveTime\<close> its hour, minute, second and nanosecond. The formats
  are written out, the parsers \<open>parse_from_str\<close> are arguments.
\<close>

record naive_date_fields =
  nd_year :: int
  nd_month :: nat
  nd_day :: nat

record naive_time_fields =
  nt_hour :: nat
  nt_minute :: nat
  nt_second :: nat
  nt_nanosecond :: nat

text \<open>\<^verbatim>\<open>{:04}\<close> on an \<^verbatim>\<open>i32\<close>: the sign counts for the width.\<close>

definition show_padded_int :: "nat \<Rightarrow> int \<Rightarrow> bytes" where
  "show_padded_int w i = (if i < 0 then CHR ''-'' # show_padded (w - 1) (nat (- i)) else show_padded w (nat i))"

definition NaiveDate_serialize :: "naive_date_fields \<Rightarrow> bytes" where
  "NaiveDate_serialize d = show_padded_int 4 (nd_year d) @ show_padded 2 (nd_month d) @ show_padded 2 (nd_day d)"

definition NaiveTime_serialize_with :: "bool \<Rightarrow> naive_time_fields \<Rightarrow> bytes" where
  "NaiveTime_serialize_with with_millis t =
     show_padded 2 (nt_hour t) @ '':'' @ show_padded 2 (nt_minute t) @ '':'' @ show_padded 2 (nt_second t)
     @ (if with_millis then ''.'' @ show_padded 3 (nt_nanosecond t div 1000000) else [])"

definition NaiveDateTime_serialize_with :: "bool \<Rightarrow> naive_date_fields \<times> naive_time_fields \<Rightarrow> bytes" where
  "NaiveDateTime_serialize_with with_millis dt =
     NaiveDate_serialize (fst dt) @ ''-'' @ NaiveTime_serialize_with with_millis (snd dt)"

definition NaiveDate_deserialize :: "(string \<Rightarrow> bytes \<Rightarrow> 'd option) \<Rightarrow> bytes \<Rightarrow> ('d, string) outcome" where
  "NaiveDate_deserialize parse_date data = (case from_utf8 data of
      None \<Rightarrow> Err ''Invalid byte sequence; expected UTF-8 valid bytes.''
    | Some s \<Rightarrow> (case parse_date ''%Y%m%d'' s of None \<Rightarrow> Err ''Invalid time.'' | Some d \<Rightarrow> Ok d))"

definition NaiveTime_deserialize :: "(string \<Rightarrow> bytes \<Rightarrow> 't option) \<Rightarrow> bytes \<Rightarrow> ('t, string) outcome" where
  "NaiveTime_deserialize parse_time data = (case from_utf8 data of
      None \<Rightarrow> Err ''Invalid byte sequence; expected UTF-8 valid bytes.''
    | Some s \<Rightarrow> (case parse_time (if length data = 8 then ''%H:%M:%S'' else ''%H:%M:%S.%3f'') s of
        None \<Rightarrow> Err ''Invalid time.''
      | Some t \<Rightarrow> Ok t))"

definition NaiveDateTime_deserialize ::
    "(string \<Rightarrow> bytes \<Rightarrow> 'd option) \<Rightarrow> (string \<Rightarrow> bytes \<Rightarrow> 't option) \<Rightarrow> bytes \<Rightarrow> ('d \<times> 't, string) outcome" where
  "NaiveDateTime_deserialize parse_date parse_time data =
     (if length data < 10 then Err ''Datetime field too short.''
      else case NaiveDate_deserialize parse_date (take 8 data) of
          Ok d \<Rightarrow>
            if data ! 8 \<noteq> CHR ''-'' then Err ''Hyphen in datetime not found.''
            else (case NaiveTime_deserialize parse_time (drop 9 data) of Ok t \<Rightarrow> Ok (d, t) | Err e \<Rightarrow> Err e | Panic \<Rightarrow> Panic)
        | Err e \<Rightarrow> Err e
        | Panic \<Rightarrow> Panic)"

text \<open>A \<open>DateTime<FixedOffset>\<close>: the local date and the offset are written; \<open>combine\<close> is \<open>from_naive_utc_and_offset\<close> with \<open>with_timezone\<close>.\<close>

definition DateTime_serialize :: "('o \<Rightarrow> 32 word) \<Rightarrow> naive_date_fields \<Rightarrow> 'o \<Rightarrow> bytes" where
  "DateTime_serialize local_minus_utc date_naive timezone = NaiveDate_serialize date_naive @ FixedOffset_serialize local_minus_utc timezone"

definition DateTime_deserialize ::
    "(string \<Rightarrow> bytes \<Rightarrow> 'd option) \<Rightarrow> (string \<Rightarrow> bytes \<Rightarrow> 't option) \<Rightarrow> (int \<Rightarrow> 'o option) \<Rightarrow> ('d \<times> 't \<Rightarrow> 'o \<Rightarrow> 'dt)
     \<Rightarrow> bytes \<Rightarrow> ('dt, string) outcome" where
  "DateTime_deserialize parse_date parse_time east_opt combine data =
     (if length data < 17 then Err ''Datetime too short.''
      else case NaiveDateTime_deserialize parse_date parse_time (take 17 data) of
          Ok dt \<Rightarrow> (case FixedOffset_deserialize east_opt (drop 17 data) of Ok z \<Rightarrow> Ok (combine dt z) | Err e \<Rightarrow> Err e | Panic \<Rightarrow> Panic)
        | Err e \<Rightarrow> Err e
        | Panic \<Rightarrow> Panic)"

section \<open>Typed access\<close>

text \<open>The hand-written \<open>PartialEq\<close>.\<close>

fun field_value_error_eq :: "'e field_value_error \<Rightarrow> 'e field_value_error \<Rightarrow> bool" where
  "field_value_error_eq Missing Missing = True"
| "field_value_error_eq _ _ = False"

text \<open>The trait methods of \<open>FieldMap\<close> over \<open>get_raw\<close>: \<^verbatim>\<open>map(..).transpose()\<close>, and \<^verbatim>\<open>map_err(Invalid).and_then(ok_or(Missing))\<close>.\<close>

definition access_get_opt :: "('f \<Rightarrow> bytes option) \<Rightarrow> (bytes \<Rightarrow> ('v, 'e) outcome) \<Rightarrow> 'f \<Rightarrow> ('v option, 'e) outcome" where
  "access_get_opt get_raw deserialize f = (case get_raw f of
      None \<Rightarrow> Ok None
    | Some b \<Rightarrow> (case deserialize b of Ok v \<Rightarrow> Ok (Some v) | Err e \<Rightarrow> Err e | Panic \<Rightarrow> Panic))"

definition access_get :: "('f \<Rightarrow> bytes option) \<Rightarrow> (bytes \<Rightarrow> ('v, 'e) outcome) \<Rightarrow> 'f \<Rightarrow> ('v, 'e field_value_error) outcome" where
  "access_get get_raw deserialize f = (case access_get_opt get_raw deserialize f of
      Ok None \<Rightarrow> Err Missing
    | Ok (Some v) \<Rightarrow> Ok v
    | Err e \<Rightarrow> Err (Invalid e)
    | Panic \<Rightarrow> Panic)"

definition access_group_opt :: "('f \<Rightarrow> ('g, 'e field_value_error) outcome) \<Rightarrow> 'f \<Rightarrow> ('g option, 'e) outcome" where
  "access_group_opt get_group f = (case get_group f of
      Ok g \<Rightarrow> Ok (Some g)
    | Err Missing \<Rightarrow> Ok None
    | Err (Invalid e) \<Rightarrow> Err e
    | Panic \<Rightarrow> Panic)"

text \<open>\<open>GroupEntries\<close>: a group as its \<open>get\<close>, and the range of indices not yet given.\<close>

definition entries_next :: "(nat \<Rightarrow> 'x option) \<Rightarrow> nat \<times> nat \<Rightarrow> 'x option \<times> (nat \<times> nat)" where
  "entries_next get r = (if fst r < snd r then (get (fst r), (Suc (fst r), snd r)) else (None, r))"

definition entries_next_back :: "(nat \<Rightarrow> 'x option) \<Rightarrow> nat \<times> nat \<Rightarrow> 'x option \<times> (nat \<times> nat)" where
  "entries_next_back get r = (if fst r < snd r then (get (snd r - 1), (fst r, snd r - 1)) else (None, r))"

section \<open>Buffers\<close>

text \<open>The default method \<open>Buffer::resize\<close>: the subtraction wraps.\<close>

definition buffer_resize_default :: "usize \<Rightarrow> char \<Rightarrow> bytes \<Rightarrow> bytes" where
  "buffer_resize_default new_len filler buf = buf @ replicate (unat (new_len - of_nat (length buf))) filler"

section \<open>Reading integers back\<close>

interpretation unsigned_field: field_type "unsigned_serialize_with padding" unsigned_deserialize "\<lambda>_. True" for padding
proof
  fix n :: "'a::len word"
  have "unat n \<le> 2 ^ LENGTH('a) - 1" using unsigned_less [of n, where ?'a = nat] by (metis Suc_diff_1 less_Suc_eq_le zero_less_numeral zero_less_power)
  then show "unsigned_deserialize (unsigned_serialize_with padding n) = Ok n"
    by (simp add: unsigned_serialize_with_def unsigned_deserialize_def parse_uint_def parse_unsigned_show_padded from_utf8_ascii
        is_ascii_digits show_padded_digits)
qed

interpretation tag_field: field_type tag_serialize tag_deserialize "\<lambda>t. t \<noteq> 0"
  by standard (simp add: tag_serialize_def tag_deserialize_def from_utf8_ascii)

lemma show_nat_no_sign: "show_nat n = c # cs \<Longrightarrow> c \<noteq> CHR ''+'' \<and> c \<noteq> CHR ''-''"
  using show_nat_digits [of c n] by (auto simp: is_ascii_digit_def)

lemma parse_int_show:
  fixes n :: "'a::len word"
  shows "parse_int (show_int (sint n)) = Some n"
proof (cases "sint n < 0")
  case True
  have "- (2 ^ (LENGTH('a) - 1)) \<le> sint n" by (rule sint_ge)
  then have "nat (- sint n) \<le> 2 ^ (LENGTH('a) - 1)" using True by (simp add: nat_le_iff)
  moreover have "- of_nat (nat (- sint n)) = n" using True by (simp add: of_nat_nat)
  ultimately show ?thesis using True by (simp add: show_int_def parse_int_def digits_value_show_nat)
next
  case False
  have "sint n < 2 ^ (LENGTH('a) - 1)" by (rule sint_lt)
  then have "nat (sint n) < 2 ^ (LENGTH('a) - 1)" using False by (simp add: nat_less_iff)
  moreover have "of_nat (nat (sint n)) = n" using False by (simp add: of_nat_nat)
  moreover obtain c cs where c: "show_nat (nat (sint n)) = c # cs" by (cases "show_nat (nat (sint n))") auto
  ultimately show ?thesis
    using False show_nat_no_sign [OF c] digits_value_show_nat [of "nat (sint n)"] by (simp add: show_int_def parse_int_def c)
qed

interpretation signed_field: field_type signed_serialize signed_deserialize "\<lambda>_. True"
proof
  fix n :: "'a::len word"
  have "is_ascii (show_int (sint n))" by (simp add: show_int_def)
  then show "signed_deserialize (signed_serialize n) = Ok n"
    by (simp add: signed_serialize_def signed_deserialize_def from_utf8_ascii parse_int_show)
qed

text \<open>What the lossy readers make of the digits of a number, with \<open>a\<close> read before them.\<close>

lemma foldl_digits:
  "foldl (\<lambda>n c. n * 10 + (of_char c - 48)) (a :: 'a::len word) (show_nat v) = a * 10 ^ length (show_nat v) + of_nat v"
proof (induction v rule: show_nat.induct)
  case (1 v)
  show ?case
  proof (cases "v < 10")
    case True
    then show ?thesis by (simp add: show_nat.simps [of v] of_char_digit)
  next
    case False
    have "(of_nat v :: 'a word) = of_nat (v div 10) * 10 + of_nat (v mod 10)" using of_nat_digits(1) [of v, where 'a = "'a word"] by simp
    moreover have "of_char (digit_char (v mod 10)) - 48 = (of_nat (v mod 10) :: 'a word)" by (rule of_char_digit) simp
    ultimately show ?thesis using 1 False by (simp add: show_nat.simps [of v])
  qed
qed

lemma lossy_digits_show: "lossy_digits (show_nat v) = of_nat v"
  by (simp add: lossy_digits_def foldl_digits)

lemma lossy_nonneg:
  fixes n :: "'a::len word"
  assumes n: "0 \<le> sint n"
  shows "signed_deserialize_lossy (signed_serialize n) = Ok n"
proof -
  obtain c cs where c: "show_nat (nat (sint n)) = c # cs" by (cases "show_nat (nat (sint n))") auto
  have "(of_nat (nat (sint n)) :: 'a word) = n" using n by (simp add: of_nat_nat)
  then have "lossy_digits (c # cs) = n" using lossy_digits_show [of "nat (sint n)", where 'a = 'a] c by simp
  with n c show_nat_no_sign [OF c] show ?thesis
    by (simp add: signed_deserialize_lossy_def signed_serialize_def show_int_def)
qed

lemma lossy_negative:
  fixes n :: "'a::len word"
  assumes "sint n < 0"
  shows "signed_deserialize_lossy (signed_serialize n) = Ok (n + 3 * 10 ^ length (show_nat (nat (- sint n))))"
proof -
  have "(of_nat (nat (- sint n)) :: 'a word) = of_int (- sint n)" using assms by (simp only: of_nat_nat) 
  then have neg: "(of_nat (nat (- sint n)) :: 'a word) = - n" by simp
  have "lossy_digits (CHR ''-'' # show_nat (nat (- sint n))) = - 3 * 10 ^ length (show_nat (nat (- sint n))) - n"
    using neg foldl_digits [of "- 3 :: 'a word" "nat (- sint n)"] by (simp add: lossy_digits_def)
  then show ?thesis using assms
    by (simp add: signed_deserialize_lossy_def signed_serialize_def show_int_def)
qed


section \<open>Derived enumerations are read back\<close>

lemma find_distinct: "distinct (map f vs) \<Longrightarrow> v \<in> set vs \<Longrightarrow> List.find (\<lambda>u. f u = f v) vs = Some v"
  by (induction vs) auto

lemma derived_serialize_variant: "distinct (map ev_ident vs) \<Longrightarrow> v \<in> set vs \<Longrightarrow> derived_serialize vs (ev_ident v) = ev_variant v"
  by (simp add: derived_serialize_def find_distinct)

text \<open>An enumeration of a dictionary: its identifiers are distinct because it compiles.\<close>

definition enum_ok :: "enum_variant list \<Rightarrow> string \<Rightarrow> bool" where
  "enum_ok vs i \<longleftrightarrow> distinct (map ev_ident vs) \<and> distinct (map ev_variant vs) \<and> i \<in> ev_ident ` set vs"

interpretation derived_field: field_type "derived_serialize vs" "derived_deserialize vs" "enum_ok vs" for vs
proof
  fix i
  assume ok: "enum_ok vs i"
  then obtain v where "v \<in> set vs" "i = ev_ident v" by (auto simp: enum_ok_def)
  with ok show "derived_deserialize vs (derived_serialize vs i) = Ok i"
    by (simp add: enum_ok_def derived_serialize_variant derived_deserialize_def find_distinct)
qed

section \<open>Entries of a group\<close>

text \<open>The entries between two indices, taken from the front or from the back.\<close>

fun entries_collect :: "nat \<Rightarrow> (nat \<Rightarrow> 'x option) \<Rightarrow> nat \<times> nat \<Rightarrow> 'x list" where
  "entries_collect 0 get r = []"
| "entries_collect (Suc k) get r = (case entries_next get r of (None, _) \<Rightarrow> [] | (Some x, r') \<Rightarrow> x # entries_collect k get r')"

fun entries_collect_back :: "nat \<Rightarrow> (nat \<Rightarrow> 'x option) \<Rightarrow> nat \<times> nat \<Rightarrow> 'x list" where
  "entries_collect_back 0 get r = []"
| "entries_collect_back (Suc k) get r =
     (case entries_next_back get r of (None, _) \<Rightarrow> [] | (Some x, r') \<Rightarrow> x # entries_collect_back k get r')"

lemma entries_collect_range:
  assumes "\<And>i. i < n \<Longrightarrow> get i = Some (xs i)"
  shows "b \<le> n \<Longrightarrow> n - b < k \<Longrightarrow> entries_collect k get (b, n) = map xs [b..<n]"
proof (induction k arbitrary: b)
  case (Suc k)
  then show ?case using assms by (cases "b < n") (auto simp: entries_next_def upt_conv_Cons)
qed simp

lemma entries_collect_back_range:
  assumes "\<And>i. i < n \<Longrightarrow> get i = Some (xs i)"
  shows "e \<le> n \<Longrightarrow> e < k \<Longrightarrow> entries_collect_back k get (0, e) = rev (map xs [0..<e])"
proof (induction k arbitrary: e)
  case (Suc k)
  then show ?case using assms by (cases e) (auto simp: entries_next_back_def)
qed simp

section \<open>Properties\<close>

text \<open>The fast reader misreads every negative number. \<open>deserialize_lossy\<close> of a signed type takes the minus sign for the digit -3 and negates
  the sum: what was written for a number that is not negative is read back, what was written for a negative one never is.\<close>

theorem lossy_signed_misread:
  fixes n :: "64 word"
  shows "signed_deserialize (signed_serialize n) = Ok n
    \<and> (signed_deserialize_lossy (signed_serialize n) = Ok n \<longleftrightarrow> 0 \<le> sint n)
    \<and> (sint n < 0 \<longrightarrow> signed_deserialize_lossy (signed_serialize n) = Ok (n + 3 * 10 ^ length (show_nat (nat (- sint n)))))"
proof -
  have pow: "(3 * 10 ^ k :: 64 word) \<noteq> 0" if "k < 20" for k :: nat
  proof -
    have "\<forall>k \<in> set [0..<20]. (3 * 10 ^ k :: 64 word) \<noteq> 0" by (simp add: upt_rec)
    with that show ?thesis by simp
  qed
  have "length (show_nat (nat (- sint n))) < 20" if "sint n < 0"
  proof -
    have "- (2 ^ 63) \<le> sint n" using sint_ge [of n] by simp
    then have "nat (- sint n) < 10 ^ Suc 18" using that by (simp add: nat_less_iff)
    from length_show_nat_le [OF this] show ?thesis by simp
  qed
  then have "sint n < 0 \<Longrightarrow> n + 3 * 10 ^ length (show_nat (nat (- sint n))) \<noteq> n" using pow by simp
  then show ?thesis using lossy_nonneg [of n] lossy_negative [of n] signed_field.roundtrip [of n] by force
qed

theorem lossy_signed_misread_witness: "signed_deserialize_lossy (signed_serialize (- 5 :: 64 word)) = Ok (25 :: 64 word)"
proof -
  have "sint (- 5 :: 64 word) = - 5" by simp
  then show ?thesis using lossy_signed_misread [of "- 5"] by (simp add: bytes_simps)
qed

text \<open>The crate's own test of a field type fails on every negative number.\<close>

theorem signed_fails_own_test:
  "verify_serialization_behavior signed_serialize signed_deserialize signed_deserialize_lossy n \<longleftrightarrow> 0 \<le> sint (n :: 64 word)"
proof (cases "0 \<le> sint n")
  case True
  then have "signed_deserialize_lossy (signed_serialize n) = Ok n" using lossy_signed_misread [of n] by blast
  with True show ?thesis by (simp add: verify_serialization_behavior_def signed_field.roundtrip)
next
  case False
  then have "signed_deserialize_lossy (signed_serialize n) \<noteq> Ok n" using lossy_signed_misread [of n] by blast
  with False show ?thesis by (auto simp: verify_serialization_behavior_def signed_field.roundtrip split: outcome.splits)
qed

text \<open>A floating point type reads what it writes wherever the standard library does.\<close>

lemma float_roundtrip: "is_ascii (display x) \<Longrightarrow> parse (display x) = Some x \<Longrightarrow> float_deserialize parse (float_serialize display x) = Ok x"
  by (simp add: float_serialize_def float_deserialize_def from_utf8_ascii)

text \<open>A derived enumeration meets the contract of \<open>FieldType\<close> exactly when the texts of its variants are distinct; with a repeated text the
  first variant is read for both.\<close>

theorem derived_enum_roundtrip:
  assumes "distinct (map ev_ident vs)"
  shows "(\<forall>v \<in> set vs. derived_deserialize vs (derived_serialize vs (ev_ident v)) = Ok (ev_ident v)) \<longleftrightarrow> distinct (map ev_variant vs)"
proof
  assume all: "\<forall>v \<in> set vs. derived_deserialize vs (derived_serialize vs (ev_ident v)) = Ok (ev_ident v)"
  have "inj_on ev_variant (set vs)"
  proof (rule inj_onI)
    fix u v
    assume "u \<in> set vs" "v \<in> set vs" "ev_variant u = ev_variant v"
    with all assms have "ev_ident u = ev_ident v" by (metis derived_serialize_variant outcome.inject(1))
    with assms \<open>u \<in> set vs\<close> \<open>v \<in> set vs\<close> show "u = v" by (meson distinct_map inj_onD)
  qed
  with assms show "distinct (map ev_variant vs)" by (simp add: distinct_map)
next
  assume "distinct (map ev_variant vs)"
  with assms show "\<forall>v \<in> set vs. derived_deserialize vs (derived_serialize vs (ev_ident v)) = Ok (ev_ident v)"
    by (auto intro!: derived_field.roundtrip simp: enum_ok_def)
qed

theorem derived_enum_roundtrip_witness:
  "derived_deserialize [\<lparr>ev_ident = ''Buy'', ev_variant = ''1''\<rparr>, \<lparr>ev_ident = ''Sell'', ev_variant = ''2''\<rparr>]
     (derived_serialize [\<lparr>ev_ident = ''Buy'', ev_variant = ''1''\<rparr>, \<lparr>ev_ident = ''Sell'', ev_variant = ''2''\<rparr>] ''Sell'') = Ok ''Sell''"
  using derived_enum_roundtrip [of "[\<lparr>ev_ident = ''Buy'', ev_variant = ''1''\<rparr>, \<lparr>ev_ident = ''Sell'', ev_variant = ''2''\<rparr>]"] by simp

text \<open>A \<open>DateTime<FixedOffset>\<close> is written without its time of day, so that no text it writes is long enough to be read.\<close>

theorem date_time_unreadable:
  assumes "0 \<le> nd_year d" "nd_year d \<le> 9999" "nd_month d < 100" "nd_day d < 100"
  shows "DateTime_deserialize parse_date parse_time east_opt combine (DateTime_serialize local_minus_utc d z) = Err ''Datetime too short.''"
proof -
  have "length (show_padded (Suc 3) (nat (nd_year d))) = Suc 3" "length (show_padded (Suc 1) (nd_month d)) = Suc 1"
    "length (show_padded (Suc 1) (nd_day d)) = Suc 1"
    by (rule length_show_padded; use assms in simp)+
  then have "length (NaiveDate_serialize d) = 8"
    using assms(1) by (simp add: NaiveDate_serialize_def show_padded_int_def numeral_eq_Suc)
  moreover have "length (FixedOffset_serialize local_minus_utc z) \<le> 6" by (simp add: FixedOffset_serialize_def Tz_serialize_def Let_def)
  ultimately have "length (DateTime_serialize local_minus_utc d z) < 17" by (simp add: DateTime_serialize_def)
  then show ?thesis by (simp add: DateTime_deserialize_def)
qed

text \<open>Iterating over a group gives its entries in order, from the back in reverse order.\<close>

theorem group_entries:
  assumes "\<And>i. i < n \<Longrightarrow> get i = Some (xs i)"
  shows "entries_collect (Suc n) get (0, n) = map xs [0..<n] \<and> entries_collect_back (Suc n) get (0, n) = rev (map xs [0..<n])"
  using entries_collect_range [of n get xs 0 "Suc n"] entries_collect_back_range [of n get xs n "Suc n"] assms by simp

text \<open>The equality of \<open>FieldValueError\<close> is not reflexive.\<close>

theorem field_value_error_not_reflexive: "field_value_error_eq x x \<longleftrightarrow> x = Missing"
  by (cases x) simp_all

text \<open>The default \<open>Buffer::resize\<close> extends as documented, but never truncates: for a smaller length it appends almost \<open>2\<^sup>6\<^sup>4\<close> bytes.\<close>

theorem buffer_resize_default_length:
  assumes "length buf < 2 ^ 64"
  shows "length (buffer_resize_default n c buf) = (if length buf \<le> unat n then unat n else unat n + 2 ^ 64)"
proof -
  have "unat (n - of_nat (length buf)) = (if length buf \<le> unat n then unat n - length buf else unat n + 2 ^ 64 - length buf)"
    using assms by (simp add: unat_sub_if' unat_of_nat word_le_nat_alt)
  with assms show ?thesis by (simp add: buffer_resize_default_def)
qed

end
