(* ===== verification/Codegen.thy ===== *)
theory Codegen
  imports Specification Value_Types File_Store
begin

text \<open>
  The generator of field definitions (\<^verbatim>\<open>hotfix-codegen/src/lib.rs\<close>): from a dictionary, the text of a Rust module with an enumeration for
  each field with allowed values and a constant for each field. The constants are the values the rest of the program names its fields
  by (\<^verbatim>\<open>hotfix-message/src/encoding/definitions.rs\<close>). The views of a dictionary that are only printed (\<^verbatim>\<open>field.rs\<close>, \<^verbatim>\<open>layout.rs\<close> of
  \<^verbatim>\<open>hotfix-dictionary\<close>) are here too. Text is UTF-8. The case conversions of the crate \<open>heck\<close>, the version of the package and the date of the run are
  parameters.

  It is shown that the generator returns for every dictionary a message builder accepts unless a field has the tag zero; that
  a constant has the location the parser expects the field in; that the text has no white space around it; and where the two makers of links to the
  documentation part.
\<close>

section \<open>Hard-coded definitions\<close>

text \<open>The definition of a field with the two attributes that messages do not look at.\<close>

record hard_coded_definition = field_def +
  def_name :: string
  def_data_type :: fix_datatype

definition hard_coded_tag :: "hard_coded_definition \<Rightarrow> (tag, 'e) outcome" where
  "hard_coded_tag h = (if def_tag h = 0 then Panic else Ok (def_tag h))"

section \<open>Views of a dictionary\<close>

text \<open>\<open>IsFieldDefinition\<close> of \<open>Field\<close>.\<close>

definition Field_location :: "field_data \<Rightarrow> field_location" where
  "Field_location f = BodyLoc"

definition doc_url_onixs :: "field_data \<Rightarrow> string \<Rightarrow> string" where
  "doc_url_onixs f v =
    (let v' = (if v = ''FIX.4.0'' then ''4.0''
        else if v = ''FIX.4.1'' then ''4.1''
        else if v = ''FIX.4.2'' then ''4.2''
        else if v = ''FIX.4.3'' then ''4.3''
        else if v = ''FIX.4.4'' then ''4.4''
        else if v = ''FIX.5.0'' then ''5.0''
        else if v = ''FIX.5.0SP1'' then ''5.0.SP1''
        else if v = ''FIX.5.0SP2'' then ''5.0.SP2''
        else if v = ''FIXT.1.1'' then ''FIXT.1.1''
        else v)
     in ''https://www.onixs.biz/fix-dictionary/'' @ v' @ ''/tagNum_'' @ show_u32 (fd_tag f) @ ''.html'')"

definition data_tag :: "field_data \<Rightarrow> (tag option, 'e) outcome" where
  "data_tag f = (case fd_associated_data_tag f of
      None \<Rightarrow> Ok None
    | Some t \<Rightarrow> if (ucast t :: u32) = 0 then Panic else Ok (Some (ucast t)))"

definition Component_id :: "component_data \<Rightarrow> u32" where
  "Component_id c = ucast (cd_id c)"

definition is_group :: "component_data \<Rightarrow> bool" where
  "is_group c = (case cd_component_type c of FixmlBlock repeating _ _ \<Rightarrow> repeating | _ \<Rightarrow> False)"

definition tag_text :: "dictionary \<Rightarrow> layout_item \<Rightarrow> (string, 'e) outcome" where
  "tag_text d item = (case item_kind item of
      ComponentItem n \<Rightarrow> (case component_by_name d n of None \<Rightarrow> Panic | Some c \<Rightarrow> Ok (cd_name c))
    | GroupItem t _ \<Rightarrow> (case field_by_tag d t of None \<Rightarrow> Panic | Some f \<Rightarrow> Ok (fd_name f))
    | FieldItem t \<Rightarrow> (case field_by_tag d t of None \<Rightarrow> Panic | Some f \<Rightarrow> Ok (fd_name f)))"

definition nl :: string where
  "nl = [CHR 0x0A]"

definition dquote :: string where
  "dquote = [CHR 0x22]"

definition squote :: string where
  "squote = [CHR 0x27]"

definition show_bool :: "bool \<Rightarrow> string" where
  "show_bool b = (if b then ''true'' else ''false'')"

text \<open>A line \<^verbatim>\<open><kind name='..' required='..' />\<close>.\<close>

definition element_line :: "string \<Rightarrow> string \<Rightarrow> bool \<Rightarrow> string" where
  "element_line kind name req =
     ''<'' @ kind @ '' name='' @ squote @ name @ squote @ '' required='' @ squote @ show_bool req @ squote @ '' />'' @ nl"

definition display_layout_item :: "nat \<Rightarrow> dictionary \<Rightarrow> layout_item \<Rightarrow> (string, 'e) outcome" where
  "display_layout_item indent d item = (case (resolve_item_kind d (item_kind item) :: (resolved_kind, 'e) outcome) of
      Ok k \<Rightarrow> (case tag_text d item of
          Ok name \<Rightarrow> Ok (replicate indent CHR '' '' @ (case k of
              ResolvedField _ \<Rightarrow> element_line ''field'' name (required item)
            | ResolvedGroup _ _ \<Rightarrow> element_line ''group'' name (required item) @ ''</group>'' @ nl
            | ResolvedComponent _ \<Rightarrow> element_line ''component'' name (required item) @ ''</component>'' @ nl))
        | Err e \<Rightarrow> Err e
        | Panic \<Rightarrow> Panic)
    | Err e \<Rightarrow> Err e
    | Panic \<Rightarrow> Panic)"

text \<open>The names of the variants of \<open>FixDatatype\<close>, as \<open>IntoStaticStr\<close> gives them.\<close>

fun variant_name :: "fix_datatype \<Rightarrow> string" where
  "variant_name DtChar = ''Char''"
| "variant_name DtBoolean = ''Boolean''"
| "variant_name DtFloat = ''Float''"
| "variant_name DtAmt = ''Amt''"
| "variant_name DtPrice = ''Price''"
| "variant_name DtPriceOffset = ''PriceOffset''"
| "variant_name DtQty = ''Qty''"
| "variant_name DtPercentage = ''Percentage''"
| "variant_name DtInt = ''Int''"
| "variant_name DtDayOfMonth = ''DayOfMonth''"
| "variant_name DtLength = ''Length''"
| "variant_name DtNumInGroup = ''NumInGroup''"
| "variant_name DtSeqNum = ''SeqNum''"
| "variant_name DtTagNum = ''TagNum''"
| "variant_name DtString = ''String''"
| "variant_name DtData = ''Data''"
| "variant_name DtMonthYear = ''MonthYear''"
| "variant_name DtMultipleCharValue = ''MultipleCharValue''"
| "variant_name DtCurrency = ''Currency''"
| "variant_name DtExchange = ''Exchange''"
| "variant_name DtLanguage = ''Language''"
| "variant_name DtLocalMktDate = ''LocalMktDate''"
| "variant_name DtMultipleStringValue = ''MultipleStringValue''"
| "variant_name DtUtcDateOnly = ''UtcDateOnly''"
| "variant_name DtUtcTimeOnly = ''UtcTimeOnly''"
| "variant_name DtUtcTimestamp = ''UtcTimestamp''"
| "variant_name DtXmlData = ''XmlData''"
| "variant_name DtCountry = ''Country''"

section \<open>The generator\<close>

text \<open>What the generator takes from elsewhere: \<open>heck\<close>, \<^verbatim>\<open>CARGO_PKG_VERSION\<close> and \<^verbatim>\<open>Utc::now().to_rfc2822()\<close>.\<close>

record codegen_env =
  to_pascal_case :: "string \<Rightarrow> string"
  to_shouty_snake_case :: "string \<Rightarrow> string"
  hotfix_version :: string
  now_rfc2822 :: string

record settings =
  indentation :: string
  indentation_depth :: u32
  hotfix_crate_name :: string
  derives_for_allowed_values :: "string list"
  attributes_for_allowed_values :: "string list"

definition Settings_default :: settings where
  "Settings_default = \<lparr>indentation = ''    '', indentation_depth = 0, hotfix_crate_name = ''hotfix'',
     derives_for_allowed_values = [''Debug'', ''Copy'', ''Clone'', ''PartialEq'', ''Eq'', ''Hash'', ''FieldType''],
     attributes_for_allowed_values = []\<rparr>"

text \<open>\<open>join\<close> of a slice of strings.\<close>

fun join_with :: "string \<Rightarrow> string list \<Rightarrow> string" where
  "join_with sep [] = []"
| "join_with sep [s] = s"
| "join_with sep (s # ss) = s @ sep @ join_with sep ss"

definition generated_code_notice :: "codegen_env \<Rightarrow> string" where
  "generated_code_notice env =
     ''// Generated automatically by HotFIX '' @ hotfix_version env @ '' on '' @ now_rfc2822 env @ ''.'' @ nl @
     ''//'' @ nl @
     ''// DO NOT MODIFY MANUALLY.'' @ nl @
     ''// DO NOT COMMIT TO VERSION CONTROL.'' @ nl @
     ''// ALL CHANGES WILL BE OVERWRITTEN.''"

fun contains_whitespace :: "bytes \<Rightarrow> bool" where
  "contains_whitespace [] = False"
| "contains_whitespace (c # s) = (0 < whitespace_front (map of_char (c # s)) \<or> contains_whitespace s)"

definition indent_string :: "string \<Rightarrow> string \<Rightarrow> string" where
  "indent_string s prefix = foldl (\<lambda>acc line. (if contains_whitespace line then acc @ prefix else acc) @ line @ nl) [] (lines s)"

definition is_ascii_alphabetic :: "char \<Rightarrow> bool" where
  "is_ascii_alphabetic c \<longleftrightarrow> is_ascii_uppercase c \<or> 97 \<le> (of_char c :: nat) \<and> (of_char c :: nat) \<le> 122"

definition variant_identifier :: "codegen_env \<Rightarrow> field_enum_data \<Rightarrow> string" where
  "variant_identifier env v =
    (let identifier = to_pascal_case env (fe_description v);
         first = (case fe_description v of [] \<Rightarrow> CHR ''_'' | c # _ \<Rightarrow> c)
     in if \<not> is_ascii_alphabetic first then CHR ''_'' # identifier else identifier)"

definition codegen_field_type_enum_variant :: "codegen_env \<Rightarrow> field_enum_data \<Rightarrow> settings \<Rightarrow> string" where
  "codegen_field_type_enum_variant env v st =
    (let value_literal = fe_value v in
     indent_string (''/// Field variant '' @ squote @ value_literal @ squote @ ''.'' @ nl @
       ''#[hotfix(variant = '' @ dquote @ value_literal @ dquote @ '')]'' @ nl @
       variant_identifier env v @ '','') (indentation st))"

definition codegen_field_type_enum :: "codegen_env \<Rightarrow> field_data \<Rightarrow> settings \<Rightarrow> (string, 'e) outcome" where
  "codegen_field_type_enum env f st = (case fd_value_restrictions f of
      None \<Rightarrow> Panic
    | Some vs \<Rightarrow>
        (let derives = join_with '', '' (derives_for_allowed_values st);
             attributes = join_with nl (attributes_for_allowed_values st);
             variants = join_with nl (map (\<lambda>v. codegen_field_type_enum_variant env v st) vs);
             name = to_pascal_case env (fd_name f)
         in Ok (''/// Field type variants for [`'' @ name @ ''`].'' @ nl @
              ''#[derive('' @ derives @ '')]'' @ nl @
              attributes @ nl @
              ''pub enum '' @ name @ '' {'' @ nl @
              variants @ nl @
              ''}'')))"

definition onixs_dictionary_id :: "string \<Rightarrow> string option" where
  "onixs_dictionary_id v =
     (if v = ''FIX.4.0'' then Some ''4.0''
      else if v = ''FIX.4.1'' then Some ''4.1''
      else if v = ''FIX.4.2'' then Some ''4.2''
      else if v = ''FIX.4.3'' then Some ''4.3''
      else if v = ''FIX.4.4'' then Some ''4.4''
      else if v = ''FIX.5.0'' then Some ''5.0''
      else if v = ''FIX.5.0-SP1'' then Some ''5.0.sp1''
      else if v = ''FIX.5.0-SP2'' then Some ''5.0.sp2''
      else if v = ''FIXT.1.1'' then Some ''fixt1.1''
      else None)"

definition onixs_link_to_field :: "string \<Rightarrow> field_data \<Rightarrow> (string option, 'e) outcome" where
  "onixs_link_to_field v f = (case onixs_dictionary_id v of
      None \<Rightarrow> Ok None
    | Some i \<Rightarrow> (case Field_tag f of
        Ok t \<Rightarrow> Ok (Some (''https://www.onixs.biz/fix-dictionary/'' @ i @ ''/tagnum_'' @ show_u32 t @ ''.html''))
      | Err e \<Rightarrow> Err e
      | Panic \<Rightarrow> Panic))"

definition onixs_link_to_dictionary :: "string \<Rightarrow> string option" where
  "onixs_link_to_dictionary v = (case onixs_dictionary_id v of
      None \<Rightarrow> None
    | Some i \<Rightarrow> Some (''https://www.onixs.biz/fix-dictionary/'' @ i @ ''/index.html''))"

text \<open>The text of a constant from its parts.\<close>

definition constant_text :: "string \<Rightarrow> string \<Rightarrow> string \<Rightarrow> string \<Rightarrow> string \<Rightarrow> string \<Rightarrow> string" where
  "constant_text doc identifier name tag data_type location =
     doc @ nl @
     ''pub const '' @ identifier @ '': &HardCodedFixFieldDefinition = &HardCodedFixFieldDefinition {'' @ nl @
     ''    name: '' @ dquote @ name @ dquote @ '','' @ nl @
     ''    tag: '' @ tag @ '','' @ nl @
     ''    data_type: FixDatatype::'' @ data_type @ '','' @ nl @
     ''    location: FieldLocation::'' @ location @ '','' @ nl @
     ''};''"

definition field_doc :: "string \<Rightarrow> string \<Rightarrow> string option \<Rightarrow> string" where
  "field_doc name tag link = (case link of
      Some l \<Rightarrow> ''/// Field attributes for [`'' @ name @ '' <'' @ tag @ ''>`]('' @ l @ '').''
    | None \<Rightarrow> ''/// Field attributes for `'' @ name @ '' <'' @ tag @ ''>`.'')"

definition gen_field_definition_with_hashsets ::
    "codegen_env \<Rightarrow> dictionary \<Rightarrow> tag list \<Rightarrow> tag list \<Rightarrow> field_data \<Rightarrow> (string, 'e) outcome" where
  "gen_field_definition_with_hashsets env d hs ts f = (case Field_tag f of
      Ok t \<Rightarrow>
        (let name = to_shouty_snake_case env (fd_name f);
             tag = show_u32 t;
             loc = (if t \<in> set hs then ''Header'' else if t \<in> set ts then ''Trailer'' else ''Body'')
         in case onixs_link_to_field (version d) f of
              Ok doc_link \<Rightarrow> (case fix_datatype_of d f of
                  Ok dt \<Rightarrow> Ok (constant_text (field_doc name tag doc_link) name (fd_name f) tag (variant_name dt) loc)
                | Err e \<Rightarrow> Err e
                | Panic \<Rightarrow> Panic)
            | Err e \<Rightarrow> Err e
            | Panic \<Rightarrow> Panic)
    | Err e \<Rightarrow> Err e
    | Panic \<Rightarrow> Panic)"

text \<open>The loop that fills a hash set with the fields of a component.\<close>

fun insert_field_tags :: "dictionary \<Rightarrow> layout_item list \<Rightarrow> tag list \<Rightarrow> (tag list, 'e) outcome" where
  "insert_field_tags d [] tags = Ok tags"
| "insert_field_tags d (item # items) tags = (case (resolve_item_kind d (item_kind item) :: (resolved_kind, 'e) outcome) of
      Ok (ResolvedField f) \<Rightarrow> (case (Field_tag f :: (tag, 'e) outcome) of
          Ok t \<Rightarrow> insert_field_tags d items (List.insert t tags)
        | Err e \<Rightarrow> Err e
        | Panic \<Rightarrow> Panic)
    | Ok _ \<Rightarrow> insert_field_tags d items tags
    | Err e \<Rightarrow> Err e
    | Panic \<Rightarrow> Panic)"

definition tags_of_component :: "dictionary \<Rightarrow> string \<Rightarrow> (tag list, 'e) outcome" where
  "tags_of_component d n = (case component_by_name d n of
      None \<Rightarrow> Panic
    | Some c \<Rightarrow> insert_field_tags d (cd_layout_items c) [])"

definition codegen_field_definition_struct :: "codegen_env \<Rightarrow> dictionary \<Rightarrow> field_data \<Rightarrow> (string, 'e) outcome" where
  "codegen_field_definition_struct env d f = (case (tags_of_component d ''StandardHeader'' :: (tag list, 'e) outcome) of
      Ok hs \<Rightarrow> (case (tags_of_component d ''StandardTrailer'' :: (tag list, 'e) outcome) of
          Ok ts \<Rightarrow> gen_field_definition_with_hashsets env d hs ts f
        | Err e \<Rightarrow> Err e
        | Panic \<Rightarrow> Panic)
    | Err e \<Rightarrow> Err e
    | Panic \<Rightarrow> Panic)"

text \<open>\<open>map\<close> and \<open>collect\<close> of an iterator whose function may panic.\<close>

fun collect_outcomes :: "('a, 'e) outcome list \<Rightarrow> ('a list, 'e) outcome" where
  "collect_outcomes [] = Ok []"
| "collect_outcomes (r # rs) = (case r of
      Ok x \<Rightarrow> (case collect_outcomes rs of Ok xs \<Rightarrow> Ok (x # xs) | Err e \<Rightarrow> Err e | Panic \<Rightarrow> Panic)
    | Err e \<Rightarrow> Err e
    | Panic \<Rightarrow> Panic)"

definition module_text :: "string \<Rightarrow> string \<Rightarrow> string \<Rightarrow> string \<Rightarrow> string \<Rightarrow> string" where
  "module_text notice top_comment hotfix_path enum_definitions field_defs =
     notice @ nl @ nl @
     ''// '' @ top_comment @ nl @ nl @
     ''use '' @ hotfix_path @ ''::dict::FieldLocation;'' @ nl @
     ''use '' @ hotfix_path @ ''::dict::FixDatatype;'' @ nl @
     ''use '' @ hotfix_path @ ''::{FieldType, HardCodedFixFieldDefinition};'' @ nl @ nl @
     enum_definitions @ nl @ nl @
     field_defs"

definition gen_definitions :: "codegen_env \<Rightarrow> dictionary \<Rightarrow> settings \<Rightarrow> (string, 'e) outcome" where
  "gen_definitions env d st =
    (case collect_outcomes (map (\<lambda>f. codegen_field_type_enum env f st) (filter (\<lambda>f. fd_value_restrictions f \<noteq> None) (dict_fields d))) of
      Ok enums \<Rightarrow> (case collect_outcomes (map (codegen_field_definition_struct env d) (dict_fields d)) of
          Ok field_defs \<Rightarrow>
            (let top_comment = (case onixs_link_to_dictionary (version d) of Some l \<Rightarrow> l | None \<Rightarrow> [])
             in Ok (module_text (generated_code_notice env) top_comment (hotfix_crate_name st) (join_with (nl @ nl) enums)
                  (join_with nl field_defs)))
        | Err e \<Rightarrow> Err e
        | Panic \<Rightarrow> Panic)
    | Err e \<Rightarrow> Err e
    | Panic \<Rightarrow> Panic)"

text \<open>The build script of \<^verbatim>\<open>hotfix-message\<close> writes the module for a dictionary into the output directory. The file system is a map from paths;
  \<open>creates\<close> says whether a file can be created and \<open>writes\<close> how much of a text arrives (\<open>None\<close>: all of it). An error leaves what was done before it.\<close>

definition path_join :: "string \<Rightarrow> string \<Rightarrow> string" where
  "path_join dir file = dir @ ''/'' @ file"

definition build_codegen ::
    "codegen_env \<Rightarrow> string option \<Rightarrow> (string \<Rightarrow> bool) \<Rightarrow> (string \<Rightarrow> nat option) \<Rightarrow> dictionary \<Rightarrow> string
      \<Rightarrow> (string \<rightharpoonup> bytes, unit, unit) comp" where
  "build_codegen env out_dir creates writes d filename fs = (case out_dir of
      None \<Rightarrow> (Panic, fs)
    | Some dir \<Rightarrow> (case (gen_definitions env d (Settings_default\<lparr>hotfix_crate_name := ''crate''\<rparr>) :: (string, unit) outcome) of
        Ok code \<Rightarrow>
          (let path = path_join dir filename in
           if \<not> creates path then (Err (), fs)
           else case writes path of
               None \<Rightarrow> (Ok (), fs(path \<mapsto> code))
             | Some n \<Rightarrow> (Err (), fs(path \<mapsto> take n code)))
      | Err e \<Rightarrow> (Err e, fs)
      | Panic \<Rightarrow> (Panic, fs)))"

text \<open>The specifications that are compiled in: \<open>specs\<close> gives the text of each, \<open>parse\<close> is the XML parser. The features of the crate select which of them exist.\<close>

datatype fix_release = Fix40 | Fix41 | Fix42 | Fix43 | Fix44 | Fix50 | Fix50sp1 | Fix50sp2 | Fixt11

definition embedded_dictionary :: "(string \<Rightarrow> xml_node option) \<Rightarrow> (fix_release \<Rightarrow> string) \<Rightarrow> fix_release \<Rightarrow> (dictionary, 'e) outcome" where
  "embedded_dictionary parse specs r = (case from_quickfix_spec parse (specs r) of Ok d \<Rightarrow> Ok d | _ \<Rightarrow> Panic)"

definition common_dictionaries ::
    "(string \<Rightarrow> xml_node option) \<Rightarrow> (fix_release \<Rightarrow> string) \<Rightarrow> (fix_release \<Rightarrow> bool) \<Rightarrow> (dictionary list, 'e) outcome" where
  "common_dictionaries parse specs enabled =
     collect_outcomes (map (embedded_dictionary parse specs) (filter enabled [Fix40, Fix41, Fix42, Fix43, Fix44, Fix50, Fix50sp1, Fix50sp2, Fixt11]))"

text \<open>The build script: the modules for FIX 4.2 and 4.4 if their features are on, then the one for FIXT 1.1.\<close>

definition build_one ::
    "(string \<Rightarrow> xml_node option) \<Rightarrow> (fix_release \<Rightarrow> string) \<Rightarrow> (dictionary \<Rightarrow> string \<Rightarrow> ('f, unit, unit) comp) \<Rightarrow> fix_release \<Rightarrow> string \<Rightarrow> ('f, unit, unit) comp" where
  "build_one parse specs codegen r filename = bind_comp (lift_outcome (embedded_dictionary parse specs r)) (\<lambda>d. codegen d filename)"

definition build_main ::
    "(string \<Rightarrow> xml_node option) \<Rightarrow> (fix_release \<Rightarrow> string) \<Rightarrow> (fix_release \<Rightarrow> bool) \<Rightarrow> (dictionary \<Rightarrow> string \<Rightarrow> ('f, unit, unit) comp) \<Rightarrow> ('f, unit, unit) comp" where
  "build_main parse specs enabled codegen =
     bind_comp (if enabled Fix42 then build_one parse specs codegen Fix42 ''fix42.rs'' else ret ()) (\<lambda>_.
     bind_comp (if enabled Fix44 then build_one parse specs codegen Fix44 ''fix44.rs'' else ret ()) (\<lambda>_.
     build_one parse specs codegen Fixt11 ''fixt11.rs''))"

section \<open>The generator returns\<close>

text \<open>The generator reads the fields of a component as the message builder does, and panics where the builder reports a missing component.\<close>

lemma insert_field_tags_collect:
  "insert_field_tags d items acc = (case collect_field_tags d items acc of Ok tags \<Rightarrow> Ok tags | _ \<Rightarrow> Panic)"
proof (induction items arbitrary: acc)
  case (Cons item items)
  show ?case using Cons.IH
    by (auto simp: resolve_item_kind_def Field_tag_def split: layout_item_kind.splits option.splits)
qed simp

lemma tags_of_component_eq:
  "tags_of_component d n = (case get_tags_for_component d n of Ok tags \<Rightarrow> Ok tags | _ \<Rightarrow> Panic)"
  by (simp add: tags_of_component_def get_tags_for_component_def insert_field_tags_collect split: option.split)

lemma builder_tags:
  assumes "MessageBuilder_new n d cfg = Some (Ok b)"
  shows "tags_of_component d ''StandardHeader'' = Ok (header_tags b)" "tags_of_component d ''StandardTrailer'' = Ok (trailer_tags b)"
    and "dict b = d"
  using assms by (auto simp: MessageBuilder_new_def tags_of_component_eq split: outcome.splits option.splits)

text \<open>The location of a field by the parts the parser sorts it into.\<close>

definition parser_location :: "message_builder \<Rightarrow> tag \<Rightarrow> string" where
  "parser_location b t = (if is_header_tag b t then ''Header'' else if is_trailer_tag b t then ''Trailer'' else ''Body'')"

definition field_link :: "string \<Rightarrow> tag \<Rightarrow> string option" where
  "field_link v t = map_option (\<lambda>i. ''https://www.onixs.biz/fix-dictionary/'' @ i @ ''/tagnum_'' @ show_u32 t @ ''.html'') (onixs_dictionary_id v)"

lemma onixs_link_to_field_eq: "t \<noteq> 0 \<Longrightarrow> fd_tag f = t \<Longrightarrow> onixs_link_to_field v f = Ok (field_link v t)"
  by (simp add: onixs_link_to_field_def field_link_def Field_tag_def split: option.split)

lemma struct_returns:
  assumes b: "MessageBuilder_new n d cfg = Some (Ok b)" and "fd_tag f \<noteq> 0"
    and dt: "datatype_by_name d (fd_data_type_name f) = Some dt"
  shows "codegen_field_definition_struct env d f =
    (let name = to_shouty_snake_case env (fd_name f); t = fd_tag f
     in Ok (constant_text (field_doc name (show_u32 t) (field_link (version d) t)) name (fd_name f) (show_u32 t) (variant_name (dt_datatype dt))
          (parser_location b t)))"
  using assms(2)
  by (simp add: codegen_field_definition_struct_def builder_tags [OF b] gen_field_definition_with_hashsets_def Field_tag_def
      onixs_link_to_field_eq fix_datatype_of_def dt parser_location_def is_header_tag_def is_trailer_tag_def Let_def)

lemma struct_panics: "fd_tag f = 0 \<Longrightarrow> MessageBuilder_new n d cfg = Some (Ok b) \<Longrightarrow> codegen_field_definition_struct env d f = Panic"
  by (simp add: codegen_field_definition_struct_def builder_tags gen_field_definition_with_hashsets_def Field_tag_def)

lemma collect_outcomes_ok: "\<forall>r \<in> set rs. \<exists>x. r = Ok x \<Longrightarrow> \<exists>xs. collect_outcomes rs = Ok xs \<and> length xs = length rs"
  by (induction rs) auto

lemma collect_outcomes_panic: "\<forall>r \<in> set rs. r = Panic \<or> (\<exists>x. r = Ok x) \<Longrightarrow> Panic \<in> set rs \<Longrightarrow> collect_outcomes rs = Panic"
proof (induction rs)
  case (Cons r rs)
  show ?case
  proof (cases "Panic \<in> set rs")
    case False
    then have "r = Panic" using Cons.prems by auto
    then show ?thesis by simp
  qed (use Cons in auto)
qed simp

lemma enum_returns: "fd_value_restrictions f \<noteq> None \<Longrightarrow> \<exists>text. codegen_field_type_enum env f st = Ok text"
  by (auto simp: codegen_field_type_enum_def Let_def)

lemma enums_return:
  "\<exists>enums. collect_outcomes (map (\<lambda>f. codegen_field_type_enum env f st) (filter (\<lambda>f. fd_value_restrictions f \<noteq> None) fs)) = Ok enums"
proof -
  have "\<forall>r \<in> set (map (\<lambda>f. codegen_field_type_enum env f st) (filter (\<lambda>f. fd_value_restrictions f \<noteq> None) fs)). \<exists>x. r = Ok x"
    by (auto intro: enum_returns)
  then show ?thesis using collect_outcomes_ok by blast
qed

text \<open>The keys of a hash map are distinct, and a consistent dictionary files a field under its tag.\<close>

lemma fields_filed:
  assumes "dictionary_ok d" and "distinct (map fst (fields_by_tags d))" and "f \<in> set (dict_fields d)"
  shows "field_by_tag d (fd_tag f) = Some f" "\<exists>dt. datatype_by_name d (fd_data_type_name f) = Some dt"
proof -
  obtain t where "(t, f) \<in> set (fields_by_tags d)" using assms(3) by (auto simp: dict_fields_def)
  then have t: "field_by_tag d t = Some f" using assms(2) by (simp add: field_by_tag_def)
  with assms(1) show "field_by_tag d (fd_tag f) = Some f" "\<exists>dt. datatype_by_name d (fd_data_type_name f) = Some dt"
    by (auto simp: dictionary_ok_def fields_ok_def)
qed

text \<open>A dictionary a message builder accepts is one the generator returns for, unless a field has the tag zero: \<open>Field::tag\<close> then panics. The reader
  files such a field without complaint.\<close>

theorem gen_definitions_returns:
  assumes b: "MessageBuilder_new n d cfg = Some (Ok b)" and ok: "dictionary_ok d" and keys: "distinct (map fst (fields_by_tags d))"
  shows "if field_by_tag d 0 = None then \<exists>code. gen_definitions env d st = (Ok code :: (string, 'e) outcome)
    else gen_definitions env d st = (Panic :: (string, 'e) outcome)"
proof -
  let ?rs = "map (codegen_field_definition_struct env d) (dict_fields d) :: (string, 'e) outcome list"
  have one: "if fd_tag f = 0 then codegen_field_definition_struct env d f = (Panic :: (string, 'e) outcome)
      else \<exists>text. codegen_field_definition_struct env d f = (Ok text :: (string, 'e) outcome)" if "f \<in> set (dict_fields d)" for f
    using fields_filed(2) [OF ok keys that] by (auto simp: struct_panics [OF _ b] struct_returns [OF b] Let_def)
  have zero: "field_by_tag d 0 = None \<longleftrightarrow> (\<forall>f \<in> set (dict_fields d). fd_tag f \<noteq> 0)"
  proof
    assume "field_by_tag d 0 = None"
    then show "\<forall>f \<in> set (dict_fields d). fd_tag f \<noteq> 0" using fields_filed(1) [OF ok keys] by fastforce
  next
    assume all: "\<forall>f \<in> set (dict_fields d). fd_tag f \<noteq> 0"
    have "fd_tag f = 0 \<and> f \<in> set (dict_fields d)" if "field_by_tag d 0 = Some f" for f
    proof
      show "fd_tag f = 0" using that ok by (auto simp: dictionary_ok_def fields_ok_def)
      show "f \<in> set (dict_fields d)" using that by (force simp: field_by_tag_def dict_fields_def dest: map_of_SomeD)
    qed
    with all show "field_by_tag d 0 = None" by (cases "field_by_tag d 0") auto
  qed
  obtain enums where enums: "collect_outcomes (map (\<lambda>f. codegen_field_type_enum env f st)
      (filter (\<lambda>f. fd_value_restrictions f \<noteq> None) (dict_fields d))) = (Ok enums :: (string list, 'e) outcome)"
    using enums_return by blast
  show ?thesis
  proof (cases "field_by_tag d 0 = None")
    case True
    then have "\<forall>r \<in> set ?rs. \<exists>x. r = Ok x" using one zero by auto
    from collect_outcomes_ok [OF this] obtain xs where "collect_outcomes ?rs = Ok xs" by blast
    with enums True show ?thesis unfolding gen_definitions_def by (simp only: outcome.case if_True) (auto simp: Let_def)
  next
    case False
    then obtain f where f: "f \<in> set (dict_fields d)" "fd_tag f = 0" using zero by auto
    have "Panic \<in> set ?rs" using one [OF f(1)] f by (metis (full_types) image_eqI image_set)
    moreover have "\<forall>r \<in> set ?rs. r = Panic \<or> (\<exists>x. r = Ok x)" using one by auto metis
    ultimately have "collect_outcomes ?rs = Panic" by (rule collect_outcomes_panic [rotated])
    with enums False show ?thesis unfolding gen_definitions_def by (simp only: outcome.case if_False)
  qed
qed

section \<open>What is generated\<close>

lemma collect_outcomes_set: "collect_outcomes rs = Ok xs \<Longrightarrow> Ok x \<in> set rs \<Longrightarrow> x \<in> set xs"
  by (induction rs arbitrary: xs) (auto split: outcome.splits)

lemma join_with_contains: "s \<in> set ss \<Longrightarrow> \<exists>pre post. join_with sep ss = pre @ s @ post"
proof (induction sep ss rule: join_with.induct)
  case (3 sep s' s'' ss)
  show ?case
  proof (cases "s = s'")
    case True
    then have "join_with sep (s' # s'' # ss) = [] @ s @ (sep @ join_with sep (s'' # ss))" by simp
    then show ?thesis by blast
  next
    case False
    then obtain pre post where "join_with sep (s'' # ss) = pre @ s @ post" using 3 by auto
    then have "join_with sep (s' # s'' # ss) = (s' @ sep @ pre) @ s @ post" by simp
    then show ?thesis by blast
  qed
qed (auto intro: exI [of _ "[]"])

text \<open>C24. The generated constants agree with the parser. From a dictionary a message builder accepts, the module contains for every field of
  the dictionary (which has a tag other than zero, and no field has the tag zero) a constant with the name, the tag and the data type of the field, and its
  location is the part of the message into which a parser with that dictionary sorts the field.\<close>

theorem generated_constants:
  assumes b: "MessageBuilder_new n d cfg = Some (Ok b)" and ok: "dictionary_ok d" and keys: "distinct (map fst (fields_by_tags d))"
    and zero: "field_by_tag d 0 = None" and f: "field_by_tag d t = Some f"
  shows "\<exists>code pre post dt. gen_definitions env d st = (Ok code :: (string, 'e) outcome)
    \<and> datatype_by_name d (fd_data_type_name f) = Some dt
    \<and> code = pre @ (let name = to_shouty_snake_case env (fd_name f)
        in constant_text (field_doc name (show_u32 t) (field_link (version d) t)) name (fd_name f) (show_u32 t)
             (variant_name (dt_datatype dt)) (parser_location b t)) @ post"
proof -
  have tag: "fd_tag f = t" and mem: "f \<in> set (dict_fields d)"
    using f ok by (auto simp: dictionary_ok_def fields_ok_def) (force simp: field_by_tag_def dict_fields_def dest: map_of_SomeD)
  then obtain dt where dt: "datatype_by_name d (fd_data_type_name f) = Some dt" using fields_filed(2) [OF ok keys] by blast
  have "t \<noteq> 0" using f zero by auto
  define c where "c = (let name = to_shouty_snake_case env (fd_name f)
        in constant_text (field_doc name (show_u32 t) (field_link (version d) t)) name (fd_name f) (show_u32 t)
             (variant_name (dt_datatype dt)) (parser_location b t))"
  have struct: "codegen_field_definition_struct env d f = (Ok c :: (string, 'e) outcome)"
    using \<open>t \<noteq> 0\<close> tag by (simp add: struct_returns [OF b _ dt] c_def Let_def)
  obtain code where code: "gen_definitions env d st = (Ok code :: (string, 'e) outcome)"
    using gen_definitions_returns [OF b ok keys, of env st] zero by auto
  then obtain enums defs where defs: "collect_outcomes (map (codegen_field_definition_struct env d) (dict_fields d)) = (Ok defs :: (string list, 'e) outcome)"
    and eq: "code = module_text (generated_code_notice env) (case onixs_link_to_dictionary (version d) of Some l \<Rightarrow> l | None \<Rightarrow> [])
      (hotfix_crate_name st) (join_with (nl @ nl) enums) (join_with nl defs)"
    by (auto simp: gen_definitions_def Let_def split: outcome.splits)
  have "c \<in> set defs" using mem by (auto intro!: collect_outcomes_set [OF defs] simp flip: struct)
  then obtain pre post where "join_with nl defs = pre @ c @ post" using join_with_contains by blast
  then have "\<exists>pre'. code = pre' @ c @ post" by (simp add: eq module_text_def)
  then show ?thesis using code dt c_def by blast
qed

lemma sample_dictionary_builder:
  "\<exists>b. MessageBuilder_new 1 sample_dictionary default_config = Some (Ok b) \<and> header_tags b = [8] \<and> trailer_tags b = []"
  by (simp add: MessageBuilder_new_def sample_dictionary_def get_tags_for_component_def component_by_name_def new_component_def
      resolve_item_kind_def field_by_tag_def Field_tag_def build_message_specifications_def messages_def message_spec_of_def)

definition sample_codegen_env :: codegen_env where
  "sample_codegen_env = \<lparr>to_pascal_case = (\<lambda>s. s), to_shouty_snake_case = to_ascii_uppercase, hotfix_version = ''0'', now_rfc2822 = ''today''\<rparr>"

theorem generated_constants_witness:
  "\<exists>code pre post dt. gen_definitions sample_codegen_env sample_dictionary Settings_default = (Ok code :: (string, unit) outcome)
    \<and> datatype_by_name sample_dictionary ''String'' = Some dt
    \<and> code = pre @ constant_text (field_doc ''BEGINSTRING'' (show_u32 8) (field_link ''FIX.4.4'' 8)) ''BEGINSTRING'' ''BeginString'' (show_u32 8)
        (variant_name (dt_datatype dt)) ''Header'' @ post"
proof -
  obtain b where b: "MessageBuilder_new 1 sample_dictionary default_config = Some (Ok b)" "header_tags b = [8]" "trailer_tags b = []"
    using sample_dictionary_builder by blast
  define f where "f = snd (fields_by_tags sample_dictionary ! 0)"
  have f: "field_by_tag sample_dictionary 8 = Some f" "field_by_tag sample_dictionary 0 = None"
      "distinct (map fst (fields_by_tags sample_dictionary))" "fd_name f = ''BeginString''" "fd_data_type_name f = ''String''"
      "version sample_dictionary = ''FIX.4.4''"
    by (simp_all add: f_def sample_dictionary_def field_by_tag_def)
  have "to_shouty_snake_case sample_codegen_env (fd_name f) = ''BEGINSTRING''" unfolding f sample_codegen_env_def by code_simp
  moreover have "parser_location b 8 = ''Header''" by (simp add: parser_location_def is_header_tag_def b)
  ultimately show ?thesis
    using generated_constants [OF b(1) sample_dictionary_ok f(3,2,1), of sample_codegen_env Settings_default, where 'e = unit]
    by (simp only: f Let_def)
qed

section \<open>White space\<close>

text \<open>A printable ASCII character is not white space, and does not end an encoded white space character.\<close>

lemma whitespace_front_plain: "32 < a \<Longrightarrow> a < 128 \<Longrightarrow> whitespace_front (a # r) = 0"
  by (cases r; cases "tl r") auto

lemma whitespace_back_plain: "32 < c \<Longrightarrow> c < 128 \<Longrightarrow> whitespace_back (c # r) = 0"
  by (cases r; cases "tl r") auto

lemma str_trim_plain:
  assumes "32 < (of_char a :: nat)" "(of_char a :: nat) < 128" "32 < (of_char z :: nat)" "(of_char z :: nat) < 128"
  shows "str_trim (a # s @ [z]) = a # s @ [z]"
proof -
  have front: "trim_with whitespace_front (a # s @ [z]) = a # s @ [z]"
    using assms(1,2) by (subst trim_with.simps) (simp add: whitespace_front_plain del: whitespace_front.simps)
  have ending: "trim_with whitespace_back (z # r) = z # r" for r
    using assms(3,4) by (subst trim_with.simps) (simp add: whitespace_back_plain del: whitespace_back.simps)
  show ?thesis unfolding str_trim_def front using ending [of "rev (a # s)"] by simp
qed

lemma notice_split: "\<exists>s. generated_code_notice env = CHR ''/'' # s @ [CHR ''.'']"
proof -
  have "generated_code_notice env = CHR ''/'' # (tl (generated_code_notice env) :: string)" by (simp add: generated_code_notice_def)
  moreover have "\<exists>s. tl (generated_code_notice env) = s @ [CHR ''.'']"
  proof -
    have "\<exists>s. generated_code_notice env = CHR ''/'' # s @ ''// ALL CHANGES WILL BE OVERWRITTEN.''"
      unfolding generated_code_notice_def by simp
    then obtain s where "generated_code_notice env = CHR ''/'' # s @ ''// ALL CHANGES WILL BE OVERWRITTEN'' @ [CHR ''.'']" by auto
    then have "tl (generated_code_notice env) = (s @ ''// ALL CHANGES WILL BE OVERWRITTEN'') @ [CHR ''.'']" by simp
    then show ?thesis by blast
  qed
  ultimately show ?thesis by metis
qed

theorem generated_code_notice_trimmed: "str_trim (generated_code_notice env) = generated_code_notice env"
proof -
  obtain s where "generated_code_notice env = CHR ''/'' # s @ [CHR ''.'']" using notice_split by blast
  then show ?thesis by (simp add: str_trim_plain)
qed

lemma join_with_last: "ss \<noteq> [] \<Longrightarrow> (\<And>s. s \<in> set ss \<Longrightarrow> \<exists>r. s = r @ [c]) \<Longrightarrow> \<exists>r. join_with sep ss = r @ [c]"
proof (induction sep ss rule: join_with.induct)
  case (3 sep s s' ss)
  then obtain r where "join_with sep (s' # ss) = r @ [c]" by auto
  then have "join_with sep (s # s' # ss) = (s @ sep @ r) @ [c]" by simp
  then show ?case by blast
qed auto

lemma constant_text_last: "\<exists>r. constant_text doc i n t dt loc = r @ [CHR '';'']"
proof -
  have "\<exists>r. constant_text doc i n t dt loc = r @ ''}'' @ [CHR '';'']" unfolding constant_text_def by simp
  then show ?thesis by auto
qed

lemma struct_last: "codegen_field_definition_struct env d f = Ok s \<Longrightarrow> \<exists>r. s = r @ [CHR '';'']"
  using constant_text_last
  by (auto simp: codegen_field_definition_struct_def gen_field_definition_with_hashsets_def Let_def split: outcome.splits)

lemma collect_outcomes_mem: "collect_outcomes rs = Ok xs \<Longrightarrow> x \<in> set xs \<Longrightarrow> Ok x \<in> set rs"
  by (induction rs arbitrary: xs) (auto split: outcome.splits)

lemma collect_outcomes_length: "collect_outcomes rs = Ok xs \<Longrightarrow> length xs = length rs"
  by (induction rs arbitrary: xs) (auto split: outcome.splits)

lemma trim_with_length: "length (trim_with ws t) \<le> length t"
  by (induction ws t rule: trim_with.induct) (subst trim_with.simps, auto)

text \<open>The generated module has no white space around it as long as the dictionary has a field; without one it ends in two line feeds.\<close>

theorem gen_definitions_trimmed:
  assumes "gen_definitions env d st = Ok code"
  shows "str_trim code = code \<longleftrightarrow> dict_fields d \<noteq> []"
proof -
  obtain enums defs :: "string list" and top where defs: "collect_outcomes (map (codegen_field_definition_struct env d) (dict_fields d)) = (Ok defs :: (string list, 'a) outcome)"
    and code: "code = module_text (generated_code_notice env) top (hotfix_crate_name st) (join_with (nl @ nl) enums) (join_with nl defs)"
    using assms by (auto simp: gen_definitions_def Let_def split: outcome.splits)
  obtain s where "generated_code_notice env = CHR ''/'' # s" using notice_split by blast
  then obtain s' where s': "code = CHR ''/'' # s' @ nl @ nl @ join_with nl defs" by (simp add: code module_text_def)
  show ?thesis
  proof (cases "dict_fields d = []")
    case True
    have "trim_with whitespace_front code = code"
      unfolding s' by (subst trim_with.simps) (simp add: whitespace_front_plain del: whitespace_front.simps)
    moreover have "trim_with whitespace_back (CHR 0x0A # t) = trim_with whitespace_back t" for t
      by (subst trim_with.simps) simp
    ultimately have "length (str_trim code) < length code"
      using defs True trim_with_length [of whitespace_back "rev s' @ ''/''"] by (simp add: str_trim_def s' nl_def)
    with True show ?thesis by auto
  next
    case False
    have "\<exists>r. t = r @ [CHR '';'']" if t: "t \<in> set defs" for t
    proof -
      obtain f where "codegen_field_definition_struct env d f = (Ok t :: (string, 'a) outcome)"
        using collect_outcomes_mem [OF defs t] by (metis ex_map_conv)
      then show ?thesis by (rule struct_last)
    qed
    moreover have "defs \<noteq> []" using collect_outcomes_length [OF defs] False by auto
    ultimately obtain r where "join_with nl defs = r @ [CHR '';'']" using join_with_last by blast
    then have "code = CHR ''/'' # (s' @ nl @ nl @ r) @ [CHR '';'']" by (simp add: s')
    then have "str_trim code = code" using str_trim_plain [of "CHR ''/''" "CHR '';''" "s' @ nl @ nl @ r"] by simp
    with False show ?thesis by simp
  qed
qed

section \<open>Links, locations and enumerations\<close>

text \<open>The reader names a service pack with a hyphen. The generator knows this name; \<open>doc_url_onixs\<close> knows one without it, and puts the version
  of a dictionary that was read into the link as it is.\<close>

theorem service_pack_links:
  assumes "QuickFixReader_empty root () = (Ok r, u)"
    and "attribute ''type'' root = Some ''FIX''" "attribute ''major'' root = Some ''5''" "attribute ''minor'' root = Some ''0''"
      "attribute ''servicepack'' root = Some ''1''"
  shows "onixs_dictionary_id (reader_version r) = Some ''5.0.sp1''"
    and "doc_url_onixs f (reader_version r) = ''https://www.onixs.biz/fix-dictionary/FIX.5.0-SP1/tagNum_'' @ show_u32 (fd_tag f) @ ''.html''"
    and "doc_url_onixs f ''FIX.5.0SP1'' = ''https://www.onixs.biz/fix-dictionary/5.0.SP1/tagNum_'' @ show_u32 (fd_tag f) @ ''.html''"
proof -
  have "reader_version r = ''FIX.5.0-SP1''"
    using assms by (auto simp: QuickFixReader_empty_def find_tagged_child_def ok_or_def comp_simps Let_def split: option.splits)
  then show "onixs_dictionary_id (reader_version r) = Some ''5.0.sp1''"
    "doc_url_onixs f (reader_version r) = ''https://www.onixs.biz/fix-dictionary/FIX.5.0-SP1/tagNum_'' @ show_u32 (fd_tag f) @ ''.html''"
    "doc_url_onixs f ''FIX.5.0SP1'' = ''https://www.onixs.biz/fix-dictionary/5.0.SP1/tagNum_'' @ show_u32 (fd_tag f) @ ''.html''"
    by (simp_all add: onixs_dictionary_id_def doc_url_onixs_def)
qed

text \<open>The derived \<open>FieldType\<close> of a generated enumeration, from the attributes of its variants.\<close>

definition generated_variants :: "codegen_env \<Rightarrow> field_enum_data list \<Rightarrow> enum_variant list" where
  "generated_variants env vs = map (\<lambda>v. \<lparr>ev_ident = variant_identifier env v, ev_variant = fe_value v\<rparr>) vs"

text \<open>A generated enumeration whose identifiers differ (otherwise it does not compile) reads back what it writes if and only if the dictionary
  lists no value of the field twice.\<close>

theorem generated_enum_roundtrip:
  assumes "distinct (map (variant_identifier env) vs)"
  shows "(\<forall>v \<in> set vs. derived_deserialize (generated_variants env vs) (derived_serialize (generated_variants env vs) (variant_identifier env v))
      = Ok (variant_identifier env v)) \<longleftrightarrow> distinct (map fe_value vs)"
proof -
  have eqs: "map ev_ident (generated_variants env vs) = map (variant_identifier env) vs" "map ev_variant (generated_variants env vs) = map fe_value vs"
    by (simp_all add: generated_variants_def)
  have "(\<forall>w \<in> set (generated_variants env vs). P (ev_ident w)) \<longleftrightarrow> (\<forall>v \<in> set vs. P (variant_identifier env v))" for P
    by (simp add: generated_variants_def)
  from this [of "\<lambda>i. derived_deserialize (generated_variants env vs) (derived_serialize (generated_variants env vs) i) = Ok i"]
  show ?thesis using derived_enum_roundtrip [of "generated_variants env vs"] assms by (simp add: eqs)
qed

text \<open>The identifier of a variant is never empty and starts with a letter or an underscore, whatever the description, as long as the conversion keeps a
  first letter a letter.\<close>

lemma variant_identifier_start:
  assumes "\<And>s. s \<noteq> [] \<Longrightarrow> is_ascii_alphabetic (hd s) \<Longrightarrow> to_pascal_case env s \<noteq> [] \<and> is_ascii_alphabetic (hd (to_pascal_case env s))"
  shows "variant_identifier env v \<noteq> [] \<and> (is_ascii_alphabetic (hd (variant_identifier env v)) \<or> hd (variant_identifier env v) = CHR ''_'')"
proof (cases "fe_description v")
  case Nil
  then show ?thesis by (simp add: variant_identifier_def is_ascii_alphabetic_def is_ascii_uppercase_def)
next
  case (Cons c cs)
  then show ?thesis using assms [of "c # cs"] by (simp add: variant_identifier_def Let_def)
qed

text \<open>Only the lines of a variant that contain white space are indented: the line of the identifier is not.\<close>

lemma indent_string_example:
  "indent_string (''/// x'' @ nl @ ''Buy,'') ''  '' = ''  /// x'' @ nl @ ''Buy,'' @ nl"
  by (simp add: indent_string_def nl_def lines.simps strip_cr_def)

section \<open>The build script\<close>

lemma build_codegen_Ok:
  assumes "build_codegen env out creates writes d filename fs = (Ok u, fs')"
  shows "\<exists>dir code. out = Some dir \<and> gen_definitions env d (Settings_default\<lparr>hotfix_crate_name := ''crate''\<rparr>) = (Ok code :: (string, unit) outcome)
    \<and> fs' = fs(path_join dir filename \<mapsto> code)"
  using assms by (auto simp: build_codegen_def Let_def split: option.splits outcome.splits if_splits)

lemma build_one_Ok:
  assumes "build_one parse specs (build_codegen env (Some dir) creates writes) r filename fs = (Ok (), fs')"
  shows "\<exists>d code. embedded_dictionary parse specs r = (Ok d :: (dictionary, unit) outcome)
    \<and> gen_definitions env d (Settings_default\<lparr>hotfix_crate_name := ''crate''\<rparr>) = (Ok code :: (string, unit) outcome)
    \<and> fs' = fs(path_join dir filename \<mapsto> code)"
  using assms by (auto simp: build_one_def bind_comp_Ok lift_outcome_def dest!: build_codegen_Ok)

text \<open>A build that succeeds has written the whole module of FIXT 1.1, and those of the versions that are enabled; the later files do not overwrite the earlier ones.\<close>

theorem build_writes_modules:
  assumes "build_main parse specs enabled (build_codegen env (Some dir) creates writes) fs = (Ok (), fs')"
    and "(r, filename) \<in> {(Fix42, ''fix42.rs''), (Fix44, ''fix44.rs''), (Fixt11, ''fixt11.rs'')}" and "enabled r \<or> r = Fixt11"
  shows "\<exists>d code. embedded_dictionary parse specs r = (Ok d :: (dictionary, unit) outcome)
    \<and> gen_definitions env d (Settings_default\<lparr>hotfix_crate_name := ''crate''\<rparr>) = (Ok code :: (string, unit) outcome)
    \<and> fs' (path_join dir filename) = Some code"
proof -
  let ?step = "\<lambda>r f. if enabled r then build_one parse specs (build_codegen env (Some dir) creates writes) r f else ret ()"
  obtain fs1 fs2 where s1: "?step Fix42 ''fix42.rs'' fs = (Ok (), fs1)" and s2: "?step Fix44 ''fix44.rs'' fs1 = (Ok (), fs2)"
    and s3: "build_one parse specs (build_codegen env (Some dir) creates writes) Fixt11 ''fixt11.rs'' fs2 = (Ok (), fs')"
    using assms(1) by (auto simp: build_main_def bind_comp_Ok)
  have names: "path_join dir f = path_join dir g \<longleftrightarrow> f = g" for f g by (simp add: path_join_def)
  from build_one_Ok [OF s3] have frame3: "fs' (path_join dir f) = fs2 (path_join dir f)" if "f \<noteq> ''fixt11.rs''" for f
    using that by (auto simp: names)
  have frame2: "fs2 (path_join dir ''fix42.rs'') = fs1 (path_join dir ''fix42.rs'')"
    using s2 by (auto simp: names ret_def split: if_splits dest!: build_one_Ok)
  consider "r = Fix42" "filename = ''fix42.rs''" "enabled Fix42" | "r = Fix44" "filename = ''fix44.rs''" "enabled Fix44" | "r = Fixt11" "filename = ''fixt11.rs''"
    using assms(2,3) by auto
  then show ?thesis
  proof cases
    case 1
    with s1 build_one_Ok [of parse specs env dir creates writes Fix42 "''fix42.rs''" fs fs1] show ?thesis by (auto simp: frame3 frame2)
  next
    case 2
    with s2 build_one_Ok [of parse specs env dir creates writes Fix44 "''fix44.rs''" fs1 fs2] show ?thesis by (auto simp: frame3)
  next
    case 3
    with build_one_Ok [OF s3] show ?thesis by auto
  qed
qed

end
