(* ===== verification/Session_Outbox.thy ===== *)
theory Session_Outbox
  imports Session_Timers
begin

text \<open>
  The outbound side of a session over all its handlers: what the store holds for a later resend and what may ever reach a
  writer. Both are one invariant of the context, an instance of the locale \<open>kept_invariant\<close> over any store that keeps the
  store contract and answers a range with messages it holds.
\<close>

section \<open>The invariant\<close>

text \<open>\<open>raw\<close> was written under the number \<open>n\<close> from a message of the engine or one that the application gave to the session.\<close>

definition own_message :: "session_config \<Rightarrow> (outbound_message \<Rightarrow> bool) \<Rightarrow> u64 \<Rightarrow> bytes \<Rightarrow> bool" where
  "own_message cfg app n raw \<longleftrightarrow> (\<exists>om. (engine_message om \<or> app om) \<and> generated cfg n om raw)"

text \<open>No number is missing: the store has a message for every number up to the last one used, written under that number.\<close>

definition outbox_ok :: "session_config \<Rightarrow> (outbound_message \<Rightarrow> bool) \<Rightarrow> abs_store \<Rightarrow> bool" where
  "outbox_ok cfg app a \<longleftrightarrow> (\<forall>n. n \<noteq> 0 \<longrightarrow> n \<le> abs_sender a \<longrightarrow> n \<in> dom (abs_messages a))
     \<and> (\<forall>n raw. abs_messages a n = Some raw \<longrightarrow> own_message cfg app n raw)"

text \<open>\<open>raw\<close> is the stored message \<open>msg\<close>, read back and marked as a possible duplicate at some time.\<close>

definition resent_copy :: "message_builder \<Rightarrow> msg_config \<Rightarrow> bytes \<Rightarrow> bytes \<Rightarrow> bool" where
  "resent_copy mb mc msg raw \<longleftrightarrow> (\<exists>parsed m now. build_message mb msg = (Ok parsed :: (parsed_message, session_operation_error) outcome)
     \<and> into_message parsed = Some m \<and> raw = fst (encode mc (snd (prepare_message_for_resend now m))))"

definition written_ok ::
    "session_config \<Rightarrow> message_builder \<Rightarrow> msg_config \<Rightarrow> (outbound_message \<Rightarrow> bool) \<Rightarrow> bytes \<Rightarrow> bool" where
  "written_ok cfg mb mc app raw \<longleftrightarrow>
     (\<exists>n. own_message cfg app n raw) \<or> (\<exists>n msg. own_message cfg app n msg \<and> resent_copy mb mc msg raw)"

definition effect_ok ::
    "session_config \<Rightarrow> message_builder \<Rightarrow> msg_config \<Rightarrow> (outbound_message \<Rightarrow> bool) \<Rightarrow> effect \<Rightarrow> bool" where
  "effect_ok cfg mb mc app e \<longleftrightarrow> (\<forall>w raw. e = ToWriter w (SendMessage raw) \<longrightarrow> written_ok cfg mb mc app raw)"

definition outbox_inv ::
    "('s \<Rightarrow> abs_store) \<Rightarrow> ('s \<Rightarrow> bool) \<Rightarrow> session_config \<Rightarrow> message_builder \<Rightarrow> msg_config \<Rightarrow> (outbound_message \<Rightarrow> bool)
     \<Rightarrow> 's session_ctx \<Rightarrow> bool" where
  "outbox_inv content invar cfg mb mc app c \<longleftrightarrow> (ctx_config c = cfg \<and> ctx_builder c = mb \<and> ctx_message_config c = mc)
     \<and> invar (ctx_store c) \<and> outbox_ok cfg app (content (ctx_store c))
     \<and> list_all (effect_ok cfg mb mc app) (ctx_trace c)"

lemma effect_ok_simps [simp]:
  "effect_ok cfg mb mc app (ToWriter w (SendMessage raw)) = written_ok cfg mb mc app raw"
  "effect_ok cfg mb mc app (ToWriter w Disconnect)"
  "\<forall>w x. e \<noteq> ToWriter w x \<Longrightarrow> effect_ok cfg mb mc app e"
  by (auto simp: effect_ok_def)

lemma outbox_ok_target [simp]: "outbox_ok cfg app (a\<lparr>abs_target := n\<rparr>) = outbox_ok cfg app a"
  by (simp add: outbox_ok_def)

lemma outbox_ok_fresh [simp]: "abs_sender a = 0 \<Longrightarrow> abs_messages a = Map.empty \<Longrightarrow> outbox_ok cfg app a"
  by (simp add: outbox_ok_def)

text \<open>A message persisted under the next number extends the range by that number, also where the counter wraps to zero.\<close>

lemma outbox_ok_persisted:
  assumes "outbox_ok cfg app a" and "own_message cfg app (abs_sender a + 1) raw"
  shows "outbox_ok cfg app (persisted a raw)"
proof -
  have "n \<in> dom ((abs_messages a)(abs_sender a + 1 \<mapsto> raw))" if "n \<noteq> 0" "n \<le> abs_sender a + 1" for n
  proof (cases "n = abs_sender a + 1")
    case False
    with that have less: "n < 1 + abs_sender a" by (simp add: add.commute)
    then have "unat (1 + abs_sender a) = Suc (unat (abs_sender a))" by (intro unatSuc) auto
    with less have "n \<le> abs_sender a" by (simp add: word_less_nat_alt word_le_nat_alt)
    with assms(1) that(1) show ?thesis by (auto simp: outbox_ok_def)
  qed simp
  with assms show ?thesis by (auto simp: outbox_ok_def)
qed

section \<open>Every handler keeps it\<close>

text \<open>What the outbound side needs of a store beside the contract: a range is answered with messages that are stored.\<close>

locale replay_store = store_spec "env_store env" content invar "\<lambda>_ _. True"
  for env :: "('s, 'tz) session_env" and content :: "'s \<Rightarrow> abs_store" and invar :: "'s \<Rightarrow> bool" +
  assumes slice_sound: "invar st \<Longrightarrow> store_get_slice (env_store env) lo hi st = Ok msgs \<Longrightarrow>
    set msgs \<subseteq> ran (abs_messages (content st))"
begin

lemma outbox_store:
  assumes "outbox_inv content invar cfg mb mc app c" and "invar st" and "outbox_ok cfg app (content st)"
  shows "outbox_inv content invar cfg mb mc app (c\<lparr>ctx_store := st\<rparr>)"
  using assms by (simp add: outbox_inv_def)

lemma outbox_prepare:
  assumes "engine_message om \<or> app om"
  shows "ensures (outbox_inv content invar cfg mb mc app) (prepare_message env om) (\<lambda>r. own_message cfg app (fst r) (snd r))"
proof (rule ensuresI)
  fix c r c'
  assume c: "outbox_inv content invar cfg mb mc app c" and run: "prepare_message env om c = (r, c')"
  let ?a = "content (ctx_store c)" and ?c1 = "c\<lparr>ctx_clock := ctx_clock c + 1\<rparr>"
  let ?g = "generate_message (wall (env_clock env (ctx_clock c))) (begin_string cfg) (sender_comp_id cfg) (target_comp_id cfg)
    (abs_sender ?a + 1) om"
  have parts: "invar (ctx_store c)" "ctx_config c = cfg" "outbox_ok cfg app ?a"
    using c by (simp_all add: outbox_inv_def)
  have eq: "prepare_message env om c = bind_comp (lift_outcome ?g) (\<lambda>msg.
     and_then (map_err SequenceNumber (with_store (increment_sender_seq_number (env_store env))))
     (and_then (map_err Persist (with_store (store_add (env_store env) (abs_sender ?a + 1) msg)))
     (ret (abs_sender ?a + 1, msg)))) ?c1"
    using parts by (simp add: prepare_message_def comp_simps read_clock_def next_sender_spec split: outcome.split)
  have c1: "outbox_inv content invar cfg mb mc app ?c1" using c by (simp add: outbox_inv_def)
  show "outbox_inv content invar cfg mb mc app c' \<and> (\<forall>a. r = Ok a \<longrightarrow> own_message cfg app (fst a) (snd a))"
  proof (cases "?g :: (bytes, internal_send_error) outcome")
    case (Ok raw)
    obtain s1 where s1: "increment_sender_seq_number (env_store env) (ctx_store c) = (Ok (), s1)" "invar s1"
        "content s1 = ?a\<lparr>abs_sender := abs_sender ?a + 1\<rparr>"
      using inc_sender_spec [OF parts(1)] by blast
    obtain s2 where s2: "store_add (env_store env) (abs_sender ?a + 1) raw s1 = (Ok (), s2)" "invar s2"
        "content s2 = (content s1)\<lparr>abs_messages := (abs_messages (content s1))(abs_sender ?a + 1 \<mapsto> raw)\<rparr>"
      using add_spec [OF s1(2) TrueI] by blast
    have own: "own_message cfg app (abs_sender ?a + 1) raw"
      using assms generate_message_cases [OF Ok] by (auto simp: own_message_def generated_def)
    have "content s2 = persisted ?a raw" using s1(3) s2(3) by (simp add: persisted_def)
    with outbox_ok_persisted [OF parts(3) own] have "outbox_inv content invar cfg mb mc app (?c1\<lparr>ctx_store := s2\<rparr>)"
      by (intro outbox_store [OF c1 s2(2)]) simp
    moreover have "r = Ok (abs_sender ?a + 1, raw)" "c' = ?c1\<lparr>ctx_store := s2\<rparr>"
      using run s1(1) s2(1) Ok by (auto simp: eq and_then_def comp_simps with_store_def)
    ultimately show ?thesis using own by simp
  qed (use run c1 in \<open>auto simp: eq comp_simps\<close>)
qed

end

sublocale replay_store \<subseteq> outbox: kept_task env UNIV cfg mb mc "\<lambda>om. engine_message om \<or> app om"
  "effect_ok cfg mb mc app" "\<lambda>msg. \<exists>n. own_message cfg app n msg" "outbox_inv content invar cfg mb mc app" for cfg mb mc app
proof
  fix om assume "engine_message om \<or> app om"
  then show "ensures (outbox_inv content invar cfg mb mc app) (prepare_message env om)
      (\<lambda>r. \<forall>w \<in> UNIV. effect_ok cfg mb mc app (ToWriter w (SendMessage (snd r))))"
    by (rule ensures_weaken [OF outbox_prepare]) (auto simp: written_ok_def)
next
  fix c lo hi msgs
  assume "outbox_inv content invar cfg mb mc app c" "store_get_slice (env_store env) lo hi (ctx_store c) = Ok msgs"
  then show "list_all (\<lambda>msg. \<exists>n. own_message cfg app n msg) msgs"
    using slice_sound [of "ctx_store c" lo hi msgs] by (fastforce simp: outbox_inv_def outbox_ok_def list_all_iff ran_def)
next
  fix now n n' raw
  assume "generate_message now (begin_string cfg) (sender_comp_id cfg) (target_comp_id cfg) n (SequenceReset True n')
      = (Ok raw :: (bytes, session_operation_error) outcome)"
  then have "generated cfg n (SequenceReset True n') raw"
    using generate_message_cases by (fastforce simp: generated_def)
  then have "own_message cfg app n raw" using engine_messageI(8) unfolding own_message_def by blast
  then show "effect_ok cfg mb mc app (ToWriter w (SendMessage raw))" for w by (auto simp: written_ok_def)
next
  fix w msg parsed m now
  assume "\<exists>n. own_message cfg app n msg" "build_message mb msg = (Ok parsed :: (parsed_message, session_operation_error) outcome)"
    "into_message parsed = Some m"
  then show "effect_ok cfg mb mc app (ToWriter w (SendMessage (fst (encode mc (snd (prepare_message_for_resend now m))))))"
    unfolding effect_ok_simps written_ok_def resent_copy_def by blast
next
  fix c
  assume c: "outbox_inv content invar cfg mb mc app c"
  then have inv: "invar (ctx_store c)" and ok: "outbox_ok cfg app (content (ctx_store c))" by (simp_all add: outbox_inv_def)
  show "outbox_inv content invar cfg mb mc app (c\<lparr>ctx_store := snd (increment_target_seq_number (env_store env) (ctx_store c))\<rparr>)"
    using inc_target_spec [OF inv] ok by (auto intro!: outbox_store [OF c])
  show "outbox_inv content invar cfg mb mc app (c\<lparr>ctx_store := snd (set_target_seq_number (env_store env) n (ctx_store c))\<rparr>)" for n
    using set_target_spec [OF inv, of n] ok by (auto intro!: outbox_store [OF c])
  show "outbox_inv content invar cfg mb mc app (c\<lparr>ctx_store := snd (store_reset (env_store env) created (ctx_store c))\<rparr>)" for created
    using reset_spec [OF inv, of created] by (auto intro!: outbox_store [OF c])
qed (auto simp: outbox_inv_def)

context replay_store
begin

lemma outbox_step:
  assumes "session_step env s i s'" and "session_kept UNIV (outbox_inv content invar cfg mb mc app) sch s"
    and "\<And>om r. i = OutboundInput om r \<Longrightarrow> app om"
  shows "session_kept UNIV (outbox_inv content invar cfg mb mc app) sch s'"
proof -
  have "keeps (session_kept UNIV (outbox_inv content invar cfg mb mc app) sch)
      (handle_input env i :: (_, unit, unit) comp)"
    by (rule outbox.kept_handle_input) (use assms(3) in auto)
  with assms(1,2) show ?thesis by (auto simp: session_step_simp dest: ensuresD)
qed

lemma outbox_run:
  assumes "session_run env s is s'" and "session_kept UNIV (outbox_inv content invar cfg mb mc app) sch s"
    and "\<forall>om r. OutboundInput om r \<in> set is \<longrightarrow> app om"
  shows "session_kept UNIV (outbox_inv content invar cfg mb mc app) sch s'"
  using assms
proof (induction rule: session_run.induct)
  case (run_cons s i s' "is" s'')
  then have "session_kept UNIV (outbox_inv content invar cfg mb mc app) sch s'"
    by (intro outbox_step [OF run_cons.hyps(1)]) auto
  with run_cons.IH run_cons.prems(2) show ?case by auto
qed simp

end

lemma mem_replay_store:
  assumes "env_store env = InMemoryMessageStore"
  shows "replay_store env mem_abs (\<lambda>_. True)"
proof -
  have "set msgs \<subseteq> ran (abs_messages (mem_abs st))" if "mem_get_slice lo hi st = Ok msgs" for lo hi st msgs
    using that by (fastforce simp: mem_get_slice_def slice_of_def mem_abs_def map_filter_def ran_def split: if_splits)
  with mem.store_spec_axioms assms show ?thesis
    by (simp add: replay_store_def replay_store_axioms_def InMemoryMessageStore_def)
qed

interpretation sample_outbox: replay_store sample_env mem_abs "\<lambda>_. True"
  by (rule mem_replay_store) (simp add: sample_env_def)

section \<open>Properties\<close>

text \<open>C5. The outbox is complete. Over a store that takes every message, from the creation of a session on, whatever inputs it handles (messages of the peer, timers,
  connects and disconnects, administrative requests, resets), the store has a message for every sequence number up to the last one
  used, each written under exactly that number with the identity of the session, from a message of the engine or one the application
  sent; and every message handed to a writer is such a message, or a copy of one that was read back and marked for a resend.\<close>

theorem outbox_complete:
  assumes "replay_store env content invar" and "invar st" and "outbox_ok cfg app (content st)"
    and "Session_new env cfg mb validate sch st now = Ok s0" and "session_run env s0 is s"
    and "\<forall>om r. OutboundInput om r \<in> set is \<longrightarrow> app om"
  shows "outbox_ok cfg app (content (ctx_store (sess_ctx s)))
    \<and> (\<forall>w raw. ToWriter w (SendMessage raw) \<in> set (ctx_trace (sess_ctx s)) \<longrightarrow>
         written_ok cfg mb (ctx_message_config (sess_ctx s)) app raw)"
proof -
  let ?mc = "default_config\<lparr>validate_user_defined_fields := validate\<rparr>"
  have "session_kept UNIV (outbox_inv content invar cfg mb ?mc app) (sess_schedule s0) s0"
    using assms(2-4) by (auto simp: Session_new_def session_kept_def outbox_inv_def split: outcome.splits)
  from replay_store.outbox_run [OF assms(1,5) this] assms(6)
  have "outbox_inv content invar cfg mb ?mc app (sess_ctx s)" by (simp add: session_kept_def)
  then show ?thesis by (auto simp: outbox_inv_def list_all_iff effect_ok_def)
qed

text \<open>\<open>returns m\<close>: from every state \<open>m\<close> ends with a value.\<close>

definition returns :: "('st, 'a, 'e) comp \<Rightarrow> bool" where
  "returns m \<longleftrightarrow> (\<forall>s. \<exists>a s'. m s = (Ok a, s'))"

lemma returnsI: "(\<And>s. \<exists>a s'. m s = (Ok a, s')) \<Longrightarrow> returns m"
  by (simp add: returns_def)

lemma returnsD: "returns m \<Longrightarrow> \<exists>a s'. m s = (Ok a, s')"
  by (simp add: returns_def)

lemma returns_bind:
  assumes "returns m" and "\<And>a. returns (f a)"
  shows "returns (bind_comp m f)"
proof (rule returnsI)
  fix s
  obtain a s' where "m s = (Ok a, s')" using returnsD [OF assms(1)] by blast
  then show "\<exists>b s''. bind_comp m f s = (Ok b, s'')" using returnsD [OF assms(2), of a s'] by (simp add: bind_comp_def)
qed

lemma returns_and_then: "returns m \<Longrightarrow> returns n \<Longrightarrow> returns (and_then m n)"
  unfolding and_then_def by (rule returns_bind)

lemma returns_comp: "returns (ret a)" "returns (gets g)" "returns (modify h)" "returns (emit e)" "returns (set_state st)"
  "returns (read_clock env)"
  by (simp_all add: returns_def comp_simps emit_def set_state_def read_clock_def)

lemma returns_mapped:
  assumes "returns m"
  shows "returns (map_err k m)" "returns (log_err m)"
proof -
  show "returns (map_err k m)"
  proof (rule returnsI)
    fix s
    show "\<exists>a s'. map_err k m s = (Ok a, s')" using returnsD [OF assms, of s] by (auto simp: map_err_def)
  qed
  show "returns (log_err m)"
  proof (rule returnsI)
    fix s
    show "\<exists>a s'. log_err m s = (Ok a, s')" using returnsD [OF assms, of s] by (auto simp: log_err_def)
  qed
qed

lemma returns_in_ctx:
  assumes "returns m"
  shows "returns (in_ctx m)"
proof (rule returnsI)
  fix s
  show "\<exists>a s'. in_ctx m s = (Ok a, s')" using returnsD [OF assms, of "sess_ctx s"] by (auto simp: in_ctx_def)
qed

lemma returns_reset: "returns (with_store (store_reset (env_store sample_env) now))"
  by (simp add: returns_def with_store_def sample_env_def mem_defs)

lemmas returns_intros = returns_bind returns_and_then returns_comp returns_mapped returns_in_ctx returns_reset

lemma sample_logon_returns: "returns (session_send_message sample_env (Logon h r))"
  unfolding returns_def by (intro allI, rule sample.any_send [OF TrueI logon.outbound_laws_axioms]) blast

lemma sample_connect_returns: "returns (on_connect sample_env w)"
  unfolding on_connect_def send_logon_def reset_peer_timer_def apply_transition_def with_send_context_def transition_result.case
  by (auto intro!: returns_intros sample_logon_returns)

lemma sample_connects:
  "\<exists>s. handle_input sample_env (EventInput (Connected 3)) (sample_session (new_disconnected True ''initialising''))
     = (Ok () :: (unit, unit) outcome, s)"
proof -
  have "is_same_session_period utc_zone 0 NonStop 0 0 = Ok SamePeriod"
    by (simp add: is_same_session_period_def is_active_at_def get_session_bounds_def)
  then have "\<exists>s'. handle_schedule_check sample_env (sample_session (new_disconnected True ''initialising'')) = (Ok () :: (unit, unit) outcome, s')"
    by (simp add: handle_schedule_check_def notify_awaiter_def notify_schedule_awaiter_def is_active_at_def sample_env_def mem_defs mem_default_def
        and_then_def bind_comp_def gets_def modify_def ret_def set_state_def in_ctx_def read_clock_def sample_session_def
        new_disconnected_def)
  moreover have "returns (log_err (on_connect sample_env 3) :: (_, unit, unit) comp)"
    by (intro returns_intros sample_connect_returns)
  ultimately show ?thesis by (fastforce simp: handle_input_def handle_session_event_def and_then_def bind_comp_def returns_def)
qed

theorem outbox_complete_witness:
  "\<exists>s. session_run sample_env (sample_session (new_disconnected True ''initialising'')) [EventInput (Connected 3)] s
    \<and> outbox_ok sample_config (\<lambda>_. False) (mem_abs (ctx_store (sess_ctx s)))"
proof -
  let ?s0 = "sample_session (new_disconnected True ''initialising'')"
  obtain s where "handle_input sample_env (EventInput (Connected 3)) ?s0 = (Ok () :: (unit, unit) outcome, s)"
    using sample_connects by blast
  then have "session_step sample_env ?s0 (EventInput (Connected 3)) s"
    unfolding session_step_simp by (simp add: input_enabled_def)
  then have run: "session_run sample_env ?s0 [EventInput (Connected 3)] s" by (blast intro: session_run.intros)
  have "outbox_ok sample_config (\<lambda>_. False) (mem_abs (mem_default 0))" by simp
  from outbox_complete [OF sample_outbox.replay_store_axioms TrueI this sample_session_new run] run show ?thesis by auto
qed

end
