(* ===== verification/Store_Conformance.thy ===== *)
theory Store_Conformance
  imports File_Store Mongo_Store
begin

text \<open>
  The conformance harness that \<^verbatim>\<open>hotfix-store/src/test_utils.rs\<close> exports for implementations of the store trait. A factory is the record
  \<open>test_store_factory\<close>: how a store is created in a world \<open>'w\<close> (the directory, the database), what closing it leaves there, and whether it
  claims to persist. A test is a computation on the world; a failed assertion or \<open>expect\<close> is a panic. The readings of the clock a test
  makes are its arguments. The locale \<open>harness_store\<close> shows that the contract of a store is enough for the tests on one instance.
\<close>

section \<open>The harness\<close>

record ('w, 's) test_store_factory =
  factory_ops :: "'s message_store"
  create_store :: "utc \<Rightarrow> ('w, 's, store_error) comp"
  close_store :: "'s \<Rightarrow> 'w \<Rightarrow> 'w"
  is_persistent :: bool

definition expect :: "('st, 'a, 'e) comp \<Rightarrow> ('st, 'a, 'f) comp" where
  "expect m = (\<lambda>s. case m s of (Ok a, s') \<Rightarrow> (Ok a, s') | (_, s') \<Rightarrow> (Panic, s'))"

definition assert_that :: "bool \<Rightarrow> ('st, unit, 'e) comp" where
  "assert_that b = (if b then ret () else panic)"

fun run_all :: "('st, unit, 'e) comp list \<Rightarrow> ('st, unit, 'e) comp" where
  "run_all [] = ret ()"
| "run_all (m # ms) = bind_comp m (\<lambda>_. run_all ms)"

type_synonym 's test_step = "('s, unit, store_error) comp"

definition add_step :: "'s message_store \<Rightarrow> u64 \<Rightarrow> bytes \<Rightarrow> 's test_step" where
  "add_step ops n m = expect (store_add ops n m)"

definition op_step :: "('s, unit, store_error) comp \<Rightarrow> 's test_step" where
  "op_step m = expect m"

definition assert_sender :: "'s message_store \<Rightarrow> u64 \<Rightarrow> 's test_step" where
  "assert_sender ops n = bind_comp (gets (next_sender_seq_number ops)) (\<lambda>k. assert_that (k = n))"

definition assert_target :: "'s message_store \<Rightarrow> u64 \<Rightarrow> 's test_step" where
  "assert_target ops n = bind_comp (gets (next_target_seq_number ops)) (\<lambda>k. assert_that (k = n))"

text \<open>\<open>get_slice\<close>, then the assertions on the length and the elements of what it returned.\<close>

definition assert_slice :: "'s message_store \<Rightarrow> usize \<Rightarrow> usize \<Rightarrow> bytes list \<Rightarrow> 's test_step" where
  "assert_slice ops b e expected =
     bind_comp (expect (\<lambda>s. (store_get_slice ops b e s, s))) (\<lambda>messages.
     assert_that (length messages = length expected \<and> (\<forall>i < length expected. messages ! i = expected ! i)))"

definition assert_slice_length :: "'s message_store \<Rightarrow> usize \<Rightarrow> usize \<Rightarrow> nat \<Rightarrow> 's test_step" where
  "assert_slice_length ops b e n =
     bind_comp (expect (\<lambda>s. (store_get_slice ops b e s, s))) (\<lambda>messages. assert_that (length messages = n))"

definition assert_created :: "'s message_store \<Rightarrow> (utc \<Rightarrow> bool) \<Rightarrow> 's test_step" where
  "assert_created ops P = bind_comp (gets (creation_time ops)) (\<lambda>t. assert_that (P t))"

text \<open>One store instance: created, used and dropped.\<close>

definition on_new_store :: "('w, 's) test_store_factory \<Rightarrow> utc \<Rightarrow> ('s, 'a, store_error) comp \<Rightarrow> ('w, 'a, store_error) comp" where
  "on_new_store f now test =
     bind_comp (expect (create_store f now)) (\<lambda>s w. case test s of (r, s') \<Rightarrow> (r, close_store f s' w))"

section \<open>The tests\<close>

definition test_new_store_initialization :: "('w, 's) test_store_factory \<Rightarrow> utc \<Rightarrow> ('w, unit, store_error) comp" where
  "test_new_store_initialization f now = (let ops = factory_ops f in
     on_new_store f now (run_all [assert_sender ops 1, assert_target ops 1]))"

definition test_add_and_get_messages :: "('w, 's) test_store_factory \<Rightarrow> utc \<Rightarrow> ('w, unit, store_error) comp" where
  "test_add_and_get_messages f now = (let ops = factory_ops f in
     on_new_store f now (run_all
       [add_step ops 1 ''test message 1'', add_step ops 2 ''test message 2'', add_step ops 3 ''test message 3'',
        assert_slice ops 1 3 [''test message 1'', ''test message 2'', ''test message 3'']]))"

definition test_get_slice_partial_range :: "('w, 's) test_store_factory \<Rightarrow> utc \<Rightarrow> ('w, unit, store_error) comp" where
  "test_get_slice_partial_range f now = (let ops = factory_ops f in
     on_new_store f now (run_all
       [add_step ops 1 ''message 1'', add_step ops 2 ''message 2'', add_step ops 3 ''message 3'', add_step ops 4 ''message 4'',
        assert_slice ops 2 3 [''message 2'', ''message 3'']]))"

definition test_get_slice_empty_range :: "('w, 's) test_store_factory \<Rightarrow> utc \<Rightarrow> ('w, unit, store_error) comp" where
  "test_get_slice_empty_range f now = (let ops = factory_ops f in
     on_new_store f now (run_all [assert_slice_length ops 1 3 0]))"

definition test_increment_sender_seq_number :: "('w, 's) test_store_factory \<Rightarrow> utc \<Rightarrow> ('w, unit, store_error) comp" where
  "test_increment_sender_seq_number f now = (let ops = factory_ops f in
     on_new_store f now (run_all
       [assert_sender ops 1, op_step (increment_sender_seq_number ops), assert_sender ops 2,
        op_step (increment_sender_seq_number ops), assert_sender ops 3]))"

definition test_increment_target_seq_number :: "('w, 's) test_store_factory \<Rightarrow> utc \<Rightarrow> ('w, unit, store_error) comp" where
  "test_increment_target_seq_number f now = (let ops = factory_ops f in
     on_new_store f now (run_all
       [assert_target ops 1, op_step (increment_target_seq_number ops), assert_target ops 2,
        op_step (increment_target_seq_number ops), assert_target ops 3]))"

definition test_set_target_seq_number :: "('w, 's) test_store_factory \<Rightarrow> utc \<Rightarrow> ('w, unit, store_error) comp" where
  "test_set_target_seq_number f now = (let ops = factory_ops f in
     on_new_store f now (run_all
       [assert_target ops 1, op_step (set_target_seq_number ops 10), assert_target ops 11,
        op_step (set_target_seq_number ops 5), assert_target ops 6]))"

definition test_reset_store :: "('w, 's) test_store_factory \<Rightarrow> utc \<Rightarrow> utc \<Rightarrow> ('w, unit, store_error) comp" where
  "test_reset_store f now later = (let ops = factory_ops f in
     on_new_store f now (run_all
       [add_step ops 1 ''message 1'', add_step ops 2 ''message 2'', op_step (increment_sender_seq_number ops),
        op_step (increment_target_seq_number ops), assert_sender ops 2, assert_target ops 2, assert_slice_length ops 1 2 2,
        op_step (store_reset ops later),
        assert_sender ops 1, assert_target ops 1, assert_slice_length ops 1 2 0]))"

definition test_persistence_across_store_instances ::
    "('w, 's) test_store_factory \<Rightarrow> utc \<Rightarrow> utc \<Rightarrow> ('w, unit, store_error) comp" where
  "test_persistence_across_store_instances f now later = (let ops = factory_ops f in
     if \<not> is_persistent f then ret ()
     else run_all
       [on_new_store f now (run_all
          [add_step ops 1 ''persistent message'', op_step (increment_sender_seq_number ops), op_step (set_target_seq_number ops 5)]),
        on_new_store f later (run_all
          [assert_sender ops 2, assert_target ops 6, assert_slice ops 1 1 [''persistent message'']])])"

definition test_get_slice_beyond_available_messages :: "('w, 's) test_store_factory \<Rightarrow> utc \<Rightarrow> ('w, unit, store_error) comp" where
  "test_get_slice_beyond_available_messages f now = (let ops = factory_ops f in
     on_new_store f now (run_all [add_step ops 1 ''only message'', assert_slice ops 1 10 [''only message'']]))"

definition test_overwrite_existing_message :: "('w, 's) test_store_factory \<Rightarrow> utc \<Rightarrow> ('w, unit, store_error) comp" where
  "test_overwrite_existing_message f now = (let ops = factory_ops f in
     on_new_store f now (run_all
       [add_step ops 1 ''original message'', add_step ops 1 ''updated message'', assert_slice ops 1 1 [''updated message'']]))"

definition test_creation_time_is_set :: "('w, 's) test_store_factory \<Rightarrow> utc \<Rightarrow> utc \<Rightarrow> utc \<Rightarrow> ('w, unit, store_error) comp" where
  "test_creation_time_is_set f before now after = (let ops = factory_ops f in
     on_new_store f now (run_all [assert_created ops (\<lambda>t. before \<le> t), assert_created ops (\<lambda>t. t \<le> after)]))"

definition test_creation_time_is_preserved :: "('w, 's) test_store_factory \<Rightarrow> utc \<Rightarrow> utc \<Rightarrow> ('w, unit, store_error) comp" where
  "test_creation_time_is_preserved f now later = (let ops = factory_ops f in
     if \<not> is_persistent f then ret ()
     else
       bind_comp (on_new_store f now (gets (creation_time ops))) (\<lambda>creation_time1.
       on_new_store f later (run_all [assert_created ops (\<lambda>t. creation_time1 = t)])))"

definition test_creation_time_gets_reset_correctly ::
    "('w, 's) test_store_factory \<Rightarrow> utc \<Rightarrow> utc \<Rightarrow> utc \<Rightarrow> utc \<Rightarrow> ('w, unit, store_error) comp" where
  "test_creation_time_gets_reset_correctly f now after_sleep reset_at reopened = (let ops = factory_ops f in
     bind_comp (on_new_store f now
         (bind_comp (op_step (store_reset ops reset_at)) (\<lambda>_.
          bind_comp (gets (creation_time ops)) (\<lambda>reset_creation_time.
          bind_comp (assert_that (after_sleep < reset_creation_time)) (\<lambda>_. ret reset_creation_time))))) (\<lambda>reset_creation_time.
     if \<not> is_persistent f then ret ()
     else on_new_store f reopened (run_all [assert_created ops (\<lambda>t. reset_creation_time = t)])))"

lemmas test_defs = test_new_store_initialization_def test_add_and_get_messages_def test_get_slice_partial_range_def
  test_get_slice_empty_range_def test_increment_sender_seq_number_def test_increment_target_seq_number_def
  test_set_target_seq_number_def test_reset_store_def test_get_slice_beyond_available_messages_def
  test_overwrite_existing_message_def test_creation_time_is_set_def

text \<open>The macro \<open>conformance_tests!\<close>: every test with a factory of its own, that is, from the same initial world.\<close>

definition conformance_tests :: "('w, 's) test_store_factory \<Rightarrow> utc \<Rightarrow> utc \<Rightarrow> utc \<Rightarrow> utc \<Rightarrow> ('w, unit, store_error) comp list" where
  "conformance_tests f t0 t1 t2 t3 =
     [test_new_store_initialization f t1, test_add_and_get_messages f t1, test_get_slice_partial_range f t1,
      test_get_slice_empty_range f t1, test_increment_sender_seq_number f t1, test_increment_target_seq_number f t1,
      test_set_target_seq_number f t1, test_reset_store f t1 t2, test_persistence_across_store_instances f t1 t2,
      test_get_slice_beyond_available_messages f t1, test_overwrite_existing_message f t1,
      test_creation_time_is_set f t0 t1 t2, test_creation_time_is_preserved f t1 t2,
      test_creation_time_gets_reset_correctly f t1 t2 t3 t3]"

definition suite_passes :: "('w, 's) test_store_factory \<Rightarrow> 'w \<Rightarrow> utc \<Rightarrow> utc \<Rightarrow> utc \<Rightarrow> utc \<Rightarrow> bool" where
  "suite_passes f w t0 t1 t2 t3 \<longleftrightarrow> list_all (\<lambda>test. fst (test w) = Ok ()) (conformance_tests f t0 t1 t2 t3)"

section \<open>The contract is enough\<close>

text \<open>
  \<open>roomy k s\<close>: the store can take messages of \<open>k\<close> bytes in all. \<open>holds_content content invar roomy k a s\<close>: the store has the content \<open>a\<close> and room for \<open>k\<close>
  bytes. The rules follow a test step by step; \<open>leads m s Q\<close> says that \<open>m\<close> passes on \<open>s\<close> and leaves a store with \<open>Q\<close>.
\<close>

definition leads :: "('s, 'a, 'e) comp \<Rightarrow> 's \<Rightarrow> ('a \<Rightarrow> 's \<Rightarrow> bool) \<Rightarrow> bool" where
  "leads m s Q \<longleftrightarrow> (\<exists>a s'. m s = (Ok a, s') \<and> Q a s')"

lemma leads_nil: "Q () s \<Longrightarrow> leads (run_all []) s Q"
  by (simp add: leads_def ret_def)

lemma leads_cons: "leads m s (\<lambda>_ s'. leads (run_all ms) s' Q) \<Longrightarrow> leads (run_all (m # ms)) s Q"
  by (auto simp: leads_def bind_comp_def)

lemma leads_assert:
  "g s = v \<Longrightarrow> P v \<Longrightarrow> Q () s \<Longrightarrow> leads (bind_comp (gets g) (\<lambda>x. assert_that (P x))) s Q"
  by (simp add: leads_def comp_simps assert_that_def)

lemma leads_slice:
  "store_get_slice ops b e s = Ok ms \<Longrightarrow> P ms \<Longrightarrow> Q () s
    \<Longrightarrow> leads (bind_comp (expect (\<lambda>s. (store_get_slice ops b e s, s))) (\<lambda>x. assert_that (P x))) s Q"
  by (simp add: leads_def comp_simps assert_that_def expect_def)

lemma leads_expect: "m s = (Ok a, s') \<Longrightarrow> Q a s' \<Longrightarrow> leads (expect m) s Q"
  by (simp add: leads_def expect_def)

definition holds_content ::
    "('s \<Rightarrow> abs_store) \<Rightarrow> ('s \<Rightarrow> bool) \<Rightarrow> (nat \<Rightarrow> 's \<Rightarrow> bool) \<Rightarrow> nat \<Rightarrow> abs_store \<Rightarrow> 's \<Rightarrow> bool" where
  "holds_content content invar roomy k a s \<longleftrightarrow> invar s \<and> roomy k s \<and> content s = a"

locale harness_store = store_spec ops abs invar room
  for ops :: "'s message_store" and abs :: "'s \<Rightarrow> abs_store" and invar :: "'s \<Rightarrow> bool" and room :: "bytes \<Rightarrow> 's \<Rightarrow> bool" +
  fixes roomy :: "nat \<Rightarrow> 's \<Rightarrow> bool"
  assumes roomy_add: "invar s \<Longrightarrow> roomy k s \<Longrightarrow> length m \<le> k \<Longrightarrow>
      room m s \<and> (\<forall>s'. store_add ops n m s = (Ok (), s') \<longrightarrow> roomy (k - length m) s')"
    and roomy_inc_sender: "roomy k s \<Longrightarrow> increment_sender_seq_number ops s = (Ok (), s') \<Longrightarrow> roomy k s'"
    and roomy_inc_target: "roomy k s \<Longrightarrow> increment_target_seq_number ops s = (Ok (), s') \<Longrightarrow> roomy k s'"
    and roomy_set_target: "roomy k s \<Longrightarrow> set_target_seq_number ops n s = (Ok (), s') \<Longrightarrow> roomy k s'"
    and roomy_reset: "roomy k s \<Longrightarrow> store_reset ops now s = (Ok (), s') \<Longrightarrow> roomy k s'"
begin

abbreviation "holds \<equiv> holds_content abs invar roomy"

lemmas holds_def = holds_content_def

lemma leads_add:
  assumes "holds k a s" and "length m \<le> k"
    and "\<And>s'. holds (k - length m) (a\<lparr>abs_messages := (abs_messages a)(n \<mapsto> m)\<rparr>) s' \<Longrightarrow> Q () s'"
  shows "leads (add_step ops n m) s Q"
proof -
  have s: "invar s" "roomy k s" "abs s = a" using assms(1) by (simp_all add: holds_def)
  then obtain s' where s': "store_add ops n m s = (Ok (), s')" "invar s'" "abs s' = a\<lparr>abs_messages := (abs_messages a)(n \<mapsto> m)\<rparr>"
    using add_spec [of s m n] roomy_add [OF s(1,2) assms(2)] by auto
  then show ?thesis
    unfolding add_step_def using roomy_add [OF s(1,2) assms(2)] by (intro leads_expect [of "store_add ops n m", OF s'(1)] assms(3)) (auto simp: holds_def)
qed

lemma leads_op:
  assumes "holds k a s"
  shows "(\<And>s'. holds k (a\<lparr>abs_sender := abs_sender a + 1\<rparr>) s' \<Longrightarrow> Q () s') \<Longrightarrow> leads (op_step (increment_sender_seq_number ops)) s Q"
    and "(\<And>s'. holds k (a\<lparr>abs_target := abs_target a + 1\<rparr>) s' \<Longrightarrow> Q () s') \<Longrightarrow> leads (op_step (increment_target_seq_number ops)) s Q"
    and "(\<And>s'. holds k (a\<lparr>abs_target := n\<rparr>) s' \<Longrightarrow> Q () s') \<Longrightarrow> leads (op_step (set_target_seq_number ops n)) s Q"
    and "(\<And>s'. holds k \<lparr>abs_sender = 0, abs_target = 0, abs_created = now, abs_messages = Map.empty\<rparr> s' \<Longrightarrow> Q () s')
      \<Longrightarrow> leads (op_step (store_reset ops now)) s Q"
  using assms inc_sender_spec [of s] inc_target_spec [of s] set_target_spec [of s n] reset_spec [of s now]
    roomy_inc_sender roomy_inc_target roomy_set_target roomy_reset
  unfolding holds_def op_step_def by (metis leads_expect)+

lemma leads_numbers:
  assumes "holds k a s" and "Q () s"
  shows "n = abs_sender a + 1 \<Longrightarrow> leads (assert_sender ops n) s Q" "n = abs_target a + 1 \<Longrightarrow> leads (assert_target ops n) s Q"
    "P (abs_created a) \<Longrightarrow> leads (assert_created ops P) s Q"
  using assms unfolding assert_sender_def assert_target_def assert_created_def holds_def
  by (auto intro!: leads_assert simp: next_sender_spec next_target_spec creation_spec)

lemma leads_slices:
  assumes "holds k a s" and "Q () s" and "capacity_ok (e - b + 1)"
  shows "slice_of (abs_messages a) b e = ms \<Longrightarrow> leads (assert_slice ops b e ms) s Q"
    "length (slice_of (abs_messages a) b e) = n \<Longrightarrow> leads (assert_slice_length ops b e n) s Q"
  using assms get_slice_spec [of s e b] unfolding assert_slice_def assert_slice_length_def holds_def
  by (auto intro!: leads_slice)

text \<open>A test on one instance passes when its steps lead from a new store to its end.\<close>

lemma single_instance_tests:
  assumes ops: "factory_ops f = ops" and new: "create_store f now w = (Ok s, w')" 
    and fresh: "holds 100 \<lparr>abs_sender = 0, abs_target = 0, abs_created = now, abs_messages = Map.empty\<rparr> s"
  shows "fst (test_new_store_initialization f now w) = Ok ()" "fst (test_add_and_get_messages f now w) = Ok ()"
    "fst (test_get_slice_partial_range f now w) = Ok ()" "fst (test_get_slice_empty_range f now w) = Ok ()"
    "fst (test_increment_sender_seq_number f now w) = Ok ()" "fst (test_increment_target_seq_number f now w) = Ok ()"
    "fst (test_set_target_seq_number f now w) = Ok ()" "fst (test_reset_store f now later w) = Ok ()"
    "fst (test_get_slice_beyond_available_messages f now w) = Ok ()" "fst (test_overwrite_existing_message f now w) = Ok ()"
    "before \<le> now \<Longrightarrow> now \<le> after \<Longrightarrow> fst (test_creation_time_is_set f before now after w) = Ok ()"
proof -
  have run: "fst (on_new_store f now test w) = Ok ()" if "leads test s (\<lambda>_ _. True)" for test :: "'s test_step"
    using that new by (auto simp: on_new_store_def leads_def bind_comp_def expect_def)
  note steps = leads_cons leads_nil TrueI leads_add leads_op leads_numbers leads_slices
  note eval = slice_of_def seq_range_def map_filter_simps upt_rec capacity_ok_def
  show "fst (test_new_store_initialization f now w) = Ok ()" "fst (test_add_and_get_messages f now w) = Ok ()"
    "fst (test_get_slice_partial_range f now w) = Ok ()" "fst (test_get_slice_empty_range f now w) = Ok ()"
    "fst (test_increment_sender_seq_number f now w) = Ok ()" "fst (test_increment_target_seq_number f now w) = Ok ()"
    "fst (test_set_target_seq_number f now w) = Ok ()" "fst (test_reset_store f now later w) = Ok ()"
    "fst (test_get_slice_beyond_available_messages f now w) = Ok ()" "fst (test_overwrite_existing_message f now w) = Ok ()"
    "before \<le> now \<Longrightarrow> now \<le> after \<Longrightarrow> fst (test_creation_time_is_set f before now after w) = Ok ()"
    unfolding test_defs Let_def ops by (rule run; (rule steps fresh | assumption | simp add: eval)+)+
qed

end

section \<open>The stores of the repository\<close>

definition InMemoryMessageStoreTestFactory :: "(unit, memory_store) test_store_factory" where
  "InMemoryMessageStoreTestFactory = \<lparr>factory_ops = InMemoryMessageStore, create_store = (\<lambda>now w. (Ok (mem_default now), w)),
     close_store = (\<lambda>_ w. w), is_persistent = False\<rparr>"

definition FileStoreTestFactory :: "chrono \<Rightarrow> (disk, file_store) test_store_factory" where
  "FileStoreTestFactory ch = \<lparr>factory_ops = FileStore ch, create_store = FileStore_new ch, close_store = (\<lambda>s _. fs_disk s),
     is_persistent = True\<rparr>"

definition MongodbTestStoreFactory :: "'d mongo \<Rightarrow> ('d, 'd mongo_store) test_store_factory" where
  "MongodbTestStoreFactory svc = \<lparr>factory_ops = MongoDbMessageStore svc, create_store = MongoDbMessageStore_new svc,
     close_store = (\<lambda>s _. mongo_db s), is_persistent = True\<rparr>"

interpretation mem_harness: harness_store InMemoryMessageStore mem_abs "\<lambda>_. True" "\<lambda>_ _. True" "\<lambda>_ _. True"
  by unfold_locales simp_all

definition fs_roomy :: "nat \<Rightarrow> file_store \<Rightarrow> bool" where
  "fs_roomy k s \<longleftrightarrow> unat (current_body_offset s) + k < 2 ^ 64"

interpretation fs_harness: harness_store "FileStore ch" fs_abs fs_invar fs_room fs_roomy for ch
proof
  fix s :: file_store and k n and m :: bytes
  assume "fs_roomy k s" "length m \<le> k"
  then show "fs_room m s \<and> (\<forall>s'. store_add (FileStore ch) n m s = (Ok (), s') \<longrightarrow> fs_roomy (k - length m) s')"
    by (auto simp: fs_roomy_def fs_room_def fs_defs write_message_def Let_def unat_word_ariths unat_of_nat)
qed (auto simp: fs_roomy_def fs_defs write_seqnums_with_def perform_reset_def Let_def)

abbreviation empty_disk :: disk where
  "empty_disk \<equiv> \<lparr>body_file = None, header_file = None, seqnums_file = None, session_file = None\<rparr>"

text \<open>What the file store relies on of \<^verbatim>\<open>chrono\<close>: a printed time is plain text and reads back, also after trimming.\<close>

definition chrono_documented :: "chrono \<Rightarrow> bool" where
  "chrono_documented ch \<longleftrightarrow> (\<forall>t. from_utf8 (to_rfc3339 ch t) = Some (to_rfc3339 ch t) \<and> parse_utc ch (str_trim (to_rfc3339 ch t)) = Some t)"

lemma new_file_store:
  "FileStore_new ch now empty_disk = (Ok (fresh_file_store (to_rfc3339 ch now) now), fs_disk (fresh_file_store (to_rfc3339 ch now) now))"
  by (simp add: FileStore_new_def new_inner_def get_or_create_session_time_def read_initial_seqnums_def load_message_index_def
      create_if_missing_def lines.simps map_err_def Let_def fresh_file_store_def)

lemma reopen_file_store:
  assumes "fs_invar s" and "read_initial_seqnums (fs_disk s) = Ok (sender_seq_number s, target_seq_number s)"
    and "session_file (fs_disk s) = Some (to_rfc3339 ch (fs_creation_time s))" and "chrono_documented ch"
  shows "FileStore_new ch now (fs_disk s) = (Ok (s\<lparr>fs_disk := (fs_disk s)\<lparr>seqnums_file := Some []\<rparr>\<rparr>), (fs_disk s)\<lparr>seqnums_file := Some []\<rparr>)"
  using new_inner_invar [OF assms(1-3), of ch now] assms(4) by (simp add: FileStore_new_def map_err_def chrono_documented_def)

lemma fresh_reads: "read_initial_seqnums (fs_disk (fresh_file_store x now)) = Ok (0, 0)"
proof -
  have "from_utf8 [] = Some []" by code_simp
  moreover have "str_trim [] = []" by (simp add: str_trim_def trim_with.simps)
  ultimately show ?thesis by (simp add: read_initial_seqnums_def fresh_file_store_def)
qed

lemma file_store_two_instances:
  assumes "chrono_documented ch"
  shows "fst (test_persistence_across_store_instances (FileStoreTestFactory ch) now later empty_disk) = Ok ()"
    and "fst (test_creation_time_is_preserved (FileStoreTestFactory ch) now later empty_disk) = Ok ()"
    and "after_sleep < at_reset \<Longrightarrow>
      fst (test_creation_time_gets_reset_correctly (FileStoreTestFactory ch) now after_sleep at_reset later empty_disk) = Ok ()"
proof -
  let ?s = "\<lambda>t. fresh_file_store (to_rfc3339 ch t) t"
  have again: "FileStore_new ch later (fs_disk (?s t)) = (Ok (?s t), fs_disk (?s t))" for t
    using reopen_file_store [OF fresh_file_store_ok(1) _ _ assms, of "to_rfc3339 ch t" t later] fresh_reads
    by (simp add: fresh_file_store_def)
  have reset: "fs_reset ch at_reset s = (Ok (), ?s at_reset)" for s
    by (simp add: fs_reset_def perform_reset_def fresh_file_store_def)
  show "fst (test_creation_time_is_preserved (FileStoreTestFactory ch) now later empty_disk) = Ok ()"
    by (simp add: test_creation_time_is_preserved_def FileStoreTestFactory_def Let_def on_new_store_def expect_def comp_simps new_file_store again
        assert_created_def assert_that_def FileStore_def)
  show "fst (test_creation_time_gets_reset_correctly (FileStoreTestFactory ch) now after_sleep at_reset later empty_disk) = Ok ()"
    if "after_sleep < at_reset"
    using that
    by (simp add: test_creation_time_gets_reset_correctly_def FileStoreTestFactory_def Let_def on_new_store_def expect_def op_step_def comp_simps
        new_file_store again reset assert_created_def assert_that_def FileStore_def)
      (simp add: fresh_file_store_def)
  define s1 where
    "s1 = snd (fs_set_target_seq_number 5 (snd (fs_increment_sender_seq_number (write_message 1 ''persistent message'' (?s now)))))"
  have first: "run_all [add_step (FileStore ch) 1 ''persistent message'', op_step (increment_sender_seq_number (FileStore ch)),
      op_step (set_target_seq_number (FileStore ch) 5)] (?s now) = (Ok (), s1)"
    by (simp add: add_step_def op_step_def expect_def comp_simps fs_defs Let_def s1_def)
  let ?a = "\<lparr>abs_sender = 1, abs_target = 5, abs_created = now, abs_messages = [1 \<mapsto> ''persistent message'']\<rparr>"
  have fresh: "fs_harness.holds 100 \<lparr>abs_sender = 0, abs_target = 0, abs_created = now, abs_messages = Map.empty\<rparr> (?s now)"
    using fresh_file_store_ok by (auto simp: holds_content_def fs_roomy_def fresh_file_store_def mem_abs_def mem_default_def)
  have "leads (run_all [add_step (FileStore ch) 1 ''persistent message'', op_step (increment_sender_seq_number (FileStore ch)),
      op_step (set_target_seq_number (FileStore ch) 5)]) (?s now) (\<lambda>_ s. fs_harness.holds 82 ?a s)"
    by (rule fresh leads_cons leads_nil fs_harness.leads_add fs_harness.leads_op | assumption | simp)+
  then have s1: "fs_harness.holds 82 ?a s1" using first by (simp add: leads_def)
  let ?s2 = "s1\<lparr>fs_disk := (fs_disk s1)\<lparr>seqnums_file := Some []\<rparr>\<rparr>"
  have s2: "fs_harness.holds 82 ?a ?s2"
    using s1 fs_invar_seqnums [of s1 ?s2] by (simp add: holds_content_def fs_roomy_def fs_abs_def fs_body_def)
  have "seqnums_file (fs_disk s1) = Some (seqnums_text (sender_seq_number s1) (target_seq_number s1))"
    "session_file (fs_disk s1) = Some (to_rfc3339 ch (fs_creation_time s1))"
    by (simp_all add: s1_def fs_defs write_seqnums_with_def write_message_def fresh_file_store_def Let_def)
  then have reopen: "FileStore_new ch later (fs_disk s1) = (Ok ?s2, fs_disk ?s2)"
    using reopen_file_store [OF _ read_seqnums_text _ assms, of s1] s1 by (simp add: holds_content_def)
  have "leads (run_all [assert_sender (FileStore ch) 2, assert_target (FileStore ch) 6,
      assert_slice (FileStore ch) 1 1 [''persistent message'']]) ?s2 (\<lambda>_ _. True)"
    by (rule s2 leads_cons leads_nil fs_harness.leads_numbers fs_harness.leads_slices TrueI
        | simp add: slice_of_def seq_range_def map_filter_simps capacity_ok_def)+
  then show "fst (test_persistence_across_store_instances (FileStoreTestFactory ch) now later empty_disk) = Ok ()"
    using first reopen
    by (auto simp: test_persistence_across_store_instances_def FileStoreTestFactory_def Let_def on_new_store_def leads_def expect_def
        bind_comp_def ret_def new_file_store)
qed

section \<open>Properties\<close>

text \<open>C19. The stores conform. With a clock that does not go back and advances while a test sleeps, all fourteen tests of the
  conformance suite pass for the in-memory store and for the file store on an empty directory, the tests that close
  and reopen the store included.\<close>

theorem stores_conform:
  assumes "chrono_documented ch" and "t0 \<le> t1" and "t1 \<le> t2" and "t2 < t3"
  shows "suite_passes InMemoryMessageStoreTestFactory () t0 t1 t2 t3 \<and> suite_passes (FileStoreTestFactory ch) empty_disk t0 t1 t2 t3"
proof
  have "mem_harness.holds 100 \<lparr>abs_sender = 0, abs_target = 0, abs_created = t1, abs_messages = Map.empty\<rparr> (mem_default t1)"
    by (simp add: holds_content_def mem_abs_def mem_default_def)
  note single = mem_harness.single_instance_tests [OF _ _ this, of InMemoryMessageStoreTestFactory "()" "()"]
  have reset: "fst (test_creation_time_gets_reset_correctly InMemoryMessageStoreTestFactory t1 t2 t3 t3 ()) = Ok ()"
    using assms(4)
    by (simp add: test_creation_time_gets_reset_correctly_def InMemoryMessageStoreTestFactory_def on_new_store_def expect_def op_step_def
        comp_simps assert_that_def mem_defs Let_def)
  show "suite_passes InMemoryMessageStoreTestFactory () t0 t1 t2 t3"
    using single assms(2,3) reset
    by (simp add: suite_passes_def conformance_tests_def InMemoryMessageStoreTestFactory_def
        test_persistence_across_store_instances_def test_creation_time_is_preserved_def ret_def)
  have "fs_harness.holds 100 \<lparr>abs_sender = 0, abs_target = 0, abs_created = t1, abs_messages = Map.empty\<rparr>
      (fresh_file_store (to_rfc3339 ch t1) t1)"
    using fresh_file_store_ok by (auto simp: holds_content_def fs_roomy_def fresh_file_store_def mem_abs_def mem_default_def)
  note single = fs_harness.single_instance_tests [OF _ _ this, of "FileStoreTestFactory ch" ch empty_disk]
  show "suite_passes (FileStoreTestFactory ch) empty_disk t0 t1 t2 t3"
    using single new_file_store [of ch t1] assms(2,3) file_store_two_instances [OF assms(1)] assms(4)
    by (simp add: suite_passes_def conformance_tests_def) (simp add: FileStoreTestFactory_def)
qed

text \<open>A conformance test MongoDB cannot keep. The MongoDB store keeps its creation time in milliseconds; when the test reads the clock in the
  same millisecond in which the store is created, but not at its very beginning, the assertion that the store is not older than
  that reading fails.\<close>

theorem mongo_creation_time_test_fails:
  assumes "mongo_documented svc docs" and "docs d = {}" and "before div 1000000 = now div 1000000" and "before mod 1000000 \<noteq> 0"
  shows "fst (test_creation_time_is_set (MongodbTestStoreFactory svc) before now after d) = Panic"
proof -
  obtain s where s: "MongoDbMessageStore_new svc now d = (Ok s, mongo_db s)" "mongo_rel docs s
      \<lparr>abs_sender = 0, abs_target = 0, abs_created = bson_now now * 1000000, abs_messages = Map.empty\<rparr>"
    using first_open [OF assms(1,2)] by blast
  have "mongo_creation_time s < before"
    using s(2) assms(3,4) div_mult_mod_eq [of before 1000000] pos_mod_sign [of 1000000 before]
    by (simp add: mongo_rel_def bson_now_def)
  then show ?thesis
    using s(1) by (simp add: test_creation_time_is_set_def MongodbTestStoreFactory_def on_new_store_def expect_def comp_simps assert_created_def
        assert_that_def MongoDbMessageStore_def Let_def)
qed

section \<open>Witnesses\<close>

text \<open>Times as numbers: twice the time, and odd numbers for times before the epoch.\<close>

definition number_chrono :: chrono where
  "number_chrono = \<lparr>to_rfc3339 = (\<lambda>t. show_nat (if 0 \<le> t then 2 * nat t else 2 * nat (- t) + 1)),
     parse_utc = (\<lambda>s. map_option (\<lambda>k. if even k then int (k div 2) else - int (k div 2)) (digits_value 0 s))\<rparr>"

lemma number_chrono_documented: "chrono_documented number_chrono"
  unfolding chrono_documented_def number_chrono_def
  by (auto simp: str_trim_digits show_nat_digits digits_value_show_nat from_utf8_ascii)

theorem stores_conform_witness:
  "suite_passes InMemoryMessageStoreTestFactory () 5 6 7 8 \<and> suite_passes (FileStoreTestFactory number_chrono) empty_disk 5 6 7 8"
  using stores_conform [OF number_chrono_documented, of 5 6 7 8] by simp

theorem mongo_creation_time_test_fails_witness:
  "fst (test_creation_time_is_set (MongodbTestStoreFactory list_mongo) 1000001 1000002 1000003 []) = Panic"
  using mongo_creation_time_test_fails [OF list_mongo_documented, of "[]" 1000001 1000002 1000003] by simp

end
