(* ===== verification/Order_Entry.thy ===== *)
theory Order_Entry
  imports Web_Admin Value_Types File_Store
begin

text \<open>
  The application \<^verbatim>\<open>examples/order-entry\<close>: the order it sends (\<^verbatim>\<open>messages.rs\<close>), the log of messages its callbacks keep
  (\<^verbatim>\<open>application.rs\<close>) and the endpoints of its page (\<^verbatim>\<open>web.rs\<close>). The enumeration \<open>Side\<close> is generated code; its variants are the argument
  \<open>sides\<close>. The lock around the log makes each of its operations one step.
\<close>

section \<open>Fields\<close>

definition TRANSACT_TIME :: field_def where "TRANSACT_TIME = body_field 60"
definition SYMBOL :: field_def where "SYMBOL = body_field 55"
definition CL_ORD_ID :: field_def where "CL_ORD_ID = body_field 11"
definition SIDE :: field_def where "SIDE = body_field 54"
definition ORDER_QTY :: field_def where "ORDER_QTY = body_field 38"
definition SETTL_DATE :: field_def where "SETTL_DATE = body_field 64"
definition CURRENCY :: field_def where "CURRENCY = body_field 15"
definition NO_ALLOCS :: field_def where "NO_ALLOCS = body_field 78"
definition ALLOC_ACCOUNT :: field_def where "ALLOC_ACCOUNT = body_field 79"
definition ALLOC_QTY :: field_def where "ALLOC_QTY = body_field 80"

lemmas order_fields [simp] = TRANSACT_TIME_def SYMBOL_def CL_ORD_ID_def SIDE_def ORDER_QTY_def SETTL_DATE_def CURRENCY_def
  NO_ALLOCS_def ALLOC_ACCOUNT_def ALLOC_QTY_def

section \<open>The order\<close>

record new_order_single =
  transact_time :: timestamp
  symbol :: bytes
  cl_ord_id :: bytes
  side :: string
  order_qty :: u32
  settlement_date :: date
  currency :: bytes
  number_of_allocations :: u32
  allocation_account :: bytes
  allocation_quantity :: u32

definition order_allocation :: "('x) new_order_single_scheme \<Rightarrow> repeating_group" where
  "order_allocation o' =
     rg_store_field (Field (def_tag ALLOC_QTY) (unsigned_serialize_with 0 (allocation_quantity o')))
     (rg_store_field (Field (def_tag ALLOC_ACCOUNT) (str_serialize (allocation_account o')))
     (new_with_tags (def_tag NO_ALLOCS) (def_tag ALLOC_ACCOUNT)))"

text \<open>\<open>msg.set_groups(..).unwrap()\<close> on the body of a message.\<close>

definition set_body_groups :: "repeating_group list \<Rightarrow> message \<Rightarrow> (message, unit) outcome" where
  "set_body_groups gs m = (case part_set_groups gs (body m) of Ok b \<Rightarrow> Ok (m\<lparr>body := b\<rparr>) | _ \<Rightarrow> Panic)"

definition set_fields :: "(field_def \<times> bytes) list \<Rightarrow> message \<Rightarrow> message" where
  "set_fields fs m = fold (\<lambda>(d, v). msg_set d v) fs m"

definition order_write :: "enum_variant list \<Rightarrow> new_order_single \<Rightarrow> message \<Rightarrow> (message, unit) outcome" where
  "order_write sides o' m =
     set_body_groups [order_allocation o']
       (set_fields
         [(TRANSACT_TIME, timestamp_serialize (transact_time o')),
          (SYMBOL, str_serialize (symbol o')),
          (CL_ORD_ID, str_serialize (cl_ord_id o')),
          (SIDE, derived_serialize sides (side o')),
          (ORDER_QTY, unsigned_serialize_with 0 (order_qty o')),
          (SETTL_DATE, to_yyyymmdd (settlement_date o')),
          (CURRENCY, str_serialize (currency o')),
          (NO_ALLOCS, unsigned_serialize_with 0 (number_of_allocations o'))] m)"

definition order_entry_msg :: "enum_variant list \<Rightarrow> new_order_single \<Rightarrow> outbound_message" where
  "order_entry_msg sides o' = \<lparr>message_type = ''D'', write_to = order_write sides o'\<rparr>"

text \<open>The order as JSON carries it.\<close>

record new_order_single_dto =
  dto_symbol :: string
  dto_cl_ord_id :: string
  dto_side :: string
  dto_order_qty :: u32
  dto_settlement_date :: string
  dto_currency :: string
  dto_number_of_allocations :: u32
  dto_allocation_account :: string
  dto_allocation_quantity :: u32

text \<open>The error is the outermost context of the \<^verbatim>\<open>anyhow\<close> error, which is what its display shows.\<close>

definition into_order :: "calendar \<Rightarrow> new_order_single_dto \<Rightarrow> (new_order_single, string) outcome" where
  "into_order now dto =
     (if dto_side dto \<noteq> ''Buy'' \<and> dto_side dto \<noteq> ''Sell'' then Err (''invalid side: '' @ dto_side dto)
      else case split_on (CHR ''-'') (dto_settlement_date dto) of
          [p0, p1, p2] \<Rightarrow>
            (case parse_u32 p0 of None \<Rightarrow> Err ''invalid year'' | Some y \<Rightarrow>
            (case parse_u32 p1 of None \<Rightarrow> Err ''invalid month'' | Some m \<Rightarrow>
            (case parse_u32 p2 of None \<Rightarrow> Err ''invalid day'' | Some d \<Rightarrow>
            (case Date_new y m d of None \<Rightarrow> Err ''invalid settlement date'' | Some settlement \<Rightarrow>
            (case utc_now now of
               Ok t \<Rightarrow> Ok \<lparr>transact_time = t, symbol = dto_symbol dto, cl_ord_id = dto_cl_ord_id dto, side = dto_side dto,
                 order_qty = dto_order_qty dto, settlement_date = settlement, currency = dto_currency dto,
                 number_of_allocations = dto_number_of_allocations dto, allocation_account = dto_allocation_account dto,
                 allocation_quantity = dto_allocation_quantity dto\<rparr>
             | _ \<Rightarrow> Panic)))))
        | _ \<Rightarrow> Err ''invalid settlement_date format, expected YYYY-MM-DD'')"

text \<open>\<open>uuid\<close> is the text of a new random UUID.\<close>

definition random_order_json :: "string \<Rightarrow> new_order_single_dto" where
  "random_order_json uuid =
     \<lparr>dto_symbol = ''EUR/USD'', dto_cl_ord_id = take 12 uuid, dto_side = ''Buy'', dto_order_qty = 230,
      dto_settlement_date = ''2023-09-19'', dto_currency = ''USD'', dto_number_of_allocations = 1, dto_allocation_account = ''acc1'',
      dto_allocation_quantity = 230\<rparr>"

section \<open>The log of messages\<close>

record message_log_entry =
  entry_id :: u64
  direction :: string
  fix_string :: string

record shared_state =
  log_messages :: "message_log_entry list"
  next_id :: u64

definition SharedState_new :: shared_state where
  "SharedState_new = \<lparr>log_messages = [], next_id = 1\<rparr>"

definition SharedState_push :: "string \<Rightarrow> string \<Rightarrow> shared_state \<Rightarrow> shared_state" where
  "SharedState_push dir s st =
     st\<lparr>next_id := next_id st + 1, log_messages := log_messages st @ [\<lparr>entry_id = next_id st, direction = dir, fix_string = s\<rparr>]\<rparr>"

definition with_separator :: "char \<Rightarrow> msg_config" where
  "with_separator c = \<lparr>separator = c, validate_user_defined_fields = True\<rparr>"

text \<open>\<open>String::from_utf8_lossy\<close>: the longest beginning that may still become a character, but does not, is replaced by one replacement
  character. \<open>utf8_chunk\<close> says whether the bytes begin with a whole character and how many of them it takes.\<close>

definition second_ok :: "nat \<Rightarrow> nat \<Rightarrow> bool" where
  "second_ok a b \<longleftrightarrow> a = 224 \<and> 160 \<le> b \<and> b \<le> 191 \<or> a = 237 \<and> 128 \<le> b \<and> b \<le> 159
     \<or> (225 \<le> a \<and> a \<le> 236 \<or> 238 \<le> a \<and> a \<le> 239) \<and> is_cont b
     \<or> a = 240 \<and> 144 \<le> b \<and> b \<le> 191 \<or> a = 244 \<and> 128 \<le> b \<and> b \<le> 143 \<or> 241 \<le> a \<and> a \<le> 243 \<and> is_cont b"

fun utf8_chunk :: "nat list \<Rightarrow> bool \<times> nat" where
  "utf8_chunk (a # r) =
     (if a < 128 then (True, 1)
      else case r of
          [] \<Rightarrow> (False, 1)
        | b # r1 \<Rightarrow>
            if 194 \<le> a \<and> a \<le> 223 then (if is_cont b then (True, 2) else (False, 1))
            else if \<not> second_ok a b then (False, 1)
            else case r1 of
                [] \<Rightarrow> (False, 2)
              | c # r2 \<Rightarrow>
                  if \<not> is_cont c then (False, 2)
                  else if a < 240 then (True, 3)
                  else case r2 of [] \<Rightarrow> (False, 3) | d # _ \<Rightarrow> if is_cont d then (True, 4) else (False, 3))"
| "utf8_chunk [] = (False, 1)"

lemma utf8_chunk_pos: "0 < snd (utf8_chunk s)"
  by (cases s) (auto split: list.split)

function utf8_lossy :: "nat list \<Rightarrow> nat list" where
  "utf8_lossy s = (if s = [] then []
     else (if fst (utf8_chunk s) then take (snd (utf8_chunk s)) s else [0xEF, 0xBF, 0xBD]) @ utf8_lossy (drop (snd (utf8_chunk s)) s))"
  by pat_completeness auto
termination
  by (relation "measure length") (auto simp: utf8_chunk_pos)

declare utf8_lossy.simps [simp del]

definition from_utf8_lossy :: "bytes \<Rightarrow> string" where
  "from_utf8_lossy s = map char_of (utf8_lossy (map of_char s))"

text \<open>Encoding into a vector does not fail.\<close>

definition encode_pipe_separated :: "message \<Rightarrow> string" where
  "encode_pipe_separated m = from_utf8_lossy (fst (encode (with_separator (CHR ''|'')) m))"

definition order_on_outbound_message :: "outbound_message \<Rightarrow> (shared_state, outbound_decision, unit) comp" where
  "order_on_outbound_message om =
     bind_comp (lift_outcome (write_to om (Message_new ''FIX.4.4'' (message_type om)))) (\<lambda>fix_msg.
     bind_comp (modify (SharedState_push ''OUT'' (encode_pipe_separated fix_msg))) (\<lambda>_.
     ret Send))"

definition order_on_inbound_message :: "message \<Rightarrow> (shared_state, inbound_decision, unit) comp" where
  "order_on_inbound_message m =
     bind_comp (modify (SharedState_push ''IN'' (encode_pipe_separated m))) (\<lambda>_. ret AcceptInbound)"

section \<open>The page\<close>

datatype order_endpoint = OrderPage | SendOrder | GetMessages | GetRandomOrder

text \<open>The routes of the page, merged with those of the administrative server, whose changing endpoints are switched on.\<close>

definition order_router :: "(string \<times> http_method \<times> order_endpoint) list" where
  "order_router = [(''/order'', GET, OrderPage), (''/api/send-order'', POST, SendOrder), (''/api/messages'', GET, GetMessages),
     (''/api/random-order'', GET, GetRandomOrder)]"

definition order_service_router :: "bool \<Rightarrow> (string \<times> http_method \<times> (endpoint + order_endpoint)) list" where
  "order_service_router ui =
     map (\<lambda>(p, m, ep). (p, m, Inl ep)) (build_router_with_controller ui \<lparr>enable_admin_endpoints = True\<rparr>)
     @ map (\<lambda>(p, m, ep). (p, m, Inr ep)) order_router"

definition display_send_error :: "send_error \<Rightarrow> string" where
  "display_send_error e = (case e of
      SendDisconnected \<Rightarrow> ''session is disconnected''
    | SendPersist _ \<Rightarrow> ''failed to persist message''
    | SendSequenceNumber _ \<Rightarrow> ''failed to update sequence number''
    | SessionTerminated \<Rightarrow> ''session terminated by application''
    | SessionGone \<Rightarrow> ''session is no longer available'')"

definition error_json :: "nat \<Rightarrow> string \<Rightarrow> http_response" where
  "error_json status e = \<lparr>resp_status = status, resp_body = JsonText (JObject [(''error'', JString e)])\<rparr>"

definition send_order :: "enum_variant list \<Rightarrow> calendar \<Rightarrow> new_order_single_dto \<Rightarrow> (channels, http_response, unit) comp" where
  "send_order sides now dto ch = (case into_order now dto of
      Err e \<Rightarrow> (Ok (error_json 400 e), ch)
    | Panic \<Rightarrow> (Panic, ch)
    | Ok o' \<Rightarrow> (case initiator_send_forget (order_entry_msg sides o') ch of
        (Ok _, ch') \<Rightarrow> (Ok (json_response (JObject [(''status'', JString ''sent'')])), ch')
      | (Err e, ch') \<Rightarrow> (Ok (error_json 500 (display_send_error e)), ch')
      | (Panic, ch') \<Rightarrow> (Panic, ch')))"

definition messages_since :: "u64 option \<Rightarrow> shared_state \<Rightarrow> message_log_entry list" where
  "messages_since since st = filter (\<lambda>m. entry_id m > (case since of None \<Rightarrow> 0 | Some n \<Rightarrow> n)) (log_messages st)"

definition entry_json :: "message_log_entry \<Rightarrow> json" where
  "entry_json m = JObject [(''id'', JInt (uint (entry_id m))), (''direction'', JString (direction m)), (''fix_string'', JString (fix_string m))]"

definition get_messages :: "u64 option \<Rightarrow> shared_state \<Rightarrow> http_response" where
  "get_messages since st = json_response (JObject [(''messages'', JArray (map entry_json (messages_since since st)))])"

text \<open>The script of the page polls with the number of the last message it has shown, and appends what it gets.\<close>

record page =
  last_message_id :: u64
  shown :: "message_log_entry list"

definition poll_messages :: "shared_state \<Rightarrow> page \<Rightarrow> page" where
  "poll_messages st p = foldl (\<lambda>p m. p\<lparr>shown := shown p @ [m], last_message_id := entry_id m\<rparr>) p
     (messages_since (Some (last_message_id p)) st)"

section \<open>Facts\<close>

lemma utf8_chunk_valid:
  assumes "utf8_valid (a # r)"
  shows "fst (utf8_chunk (a # r)) \<and> utf8_valid (drop (snd (utf8_chunk (a # r))) (a # r))"
proof (cases "a < 128")
  case False
  note v = assms [unfolded utf8_valid.simps(2)] and one = False
  from v one obtain b r1 where r: "r = b # r1" by (cases r) (auto simp del: utf8_valid.simps)
  show ?thesis
  proof (cases "194 \<le> a \<and> a \<le> 223")
    case True
    with v one r show ?thesis by (simp del: utf8_valid.simps)
  next
    case two: False
    with v one r obtain c r2 where r1: "r1 = c # r2" by (cases r1) (auto simp del: utf8_valid.simps)
    show ?thesis
    proof (cases "a < 240")
      case True
      with v one two r r1 have "second_ok a b \<and> is_cont c \<and> utf8_valid r2"
        unfolding second_ok_def by (cases r2) (simp_all del: utf8_valid.simps split: if_splits)
      with True one two r r1 show ?thesis by (auto simp del: utf8_valid.simps)
    next
      case four: False
      with v one two r r1 obtain d r3 where r2: "r2 = d # r3" by (cases r2) (auto simp del: utf8_valid.simps)
      with four v one two r r1 have "second_ok a b \<and> is_cont c \<and> is_cont d \<and> utf8_valid r3"
        unfolding second_ok_def by (simp del: utf8_valid.simps split: if_splits)
      with four one two r r1 r2 show ?thesis by (auto simp del: utf8_valid.simps)
    qed
  qed
qed (use assms in simp)

lemma utf8_lossy_valid: "utf8_valid s \<Longrightarrow> utf8_lossy s = s"
proof (induction s rule: utf8_lossy.induct)
  case (1 s)
  show ?case
  proof (cases s)
    case (Cons a r)
    with 1(2) have "fst (utf8_chunk s) \<and> utf8_valid (drop (snd (utf8_chunk s)) s)" by (metis utf8_chunk_valid)
    with 1(1) Cons show ?thesis by (subst utf8_lossy.simps) simp
  qed (simp add: utf8_lossy.simps)
qed

lemma from_utf8_lossy_valid: "from_utf8 s = Some s \<Longrightarrow> from_utf8_lossy s = s"
  by (simp add: from_utf8_lossy_def from_utf8_def utf8_lossy_valid comp_def split: if_splits)

lemma message_ok_set_body_groups:
  assumes "message_ok m" and "list_all (\<lambda>g. fm_ok (group_fields g) \<and> groups_anchored (group_fields g)) gs"
    and "t \<in> fst ` set (fm_fields (body m))"
  shows "message_ok (m\<lparr>body := fm_set_groups t gs (body m)\<rparr>)"
proof -
  have "groups_anchored (fm_set_groups t gs (body m))"
    using assms by (cases "body m") (auto simp: message_ok_def fm_set_groups_def list_all_iff [of _ gs] intro!: list_all_im_insert)
  moreover have "fm_ok (fm_set_groups t gs (body m))"
    using assms by (intro fm_ok_set_groups) (auto simp: message_ok_def list_all_iff)
  ultimately show ?thesis using assms(1) by (simp add: message_ok_def)
qed

lemma set_fields_simps [simp]: "set_fields [] m = m" "set_fields ((d, v) # fs) m = set_fields fs (msg_set d v m)"
  by (simp_all add: set_fields_def)

lemma set_fields_ok [simp]: "message_ok m \<Longrightarrow> message_ok (set_fields fs m)"
  by (induction fs arbitrary: m) auto

lemma set_fields_header [simp]: "list_all (\<lambda>(d, _). def_location d = BodyLoc) fs \<Longrightarrow> header (set_fields fs m) = header m"
  by (induction fs arbitrary: m) auto

lemma order_allocation_ok:
  "fm_ok (group_fields (order_allocation o'))" "groups_anchored (group_fields (order_allocation o'))"
  "start_tag (order_allocation o') = 78"
  by (simp_all add: order_allocation_def rg_store_field_def part_store_field_def new_with_tags_def)

lemma set_body_groups_single: "set_body_groups [g] m = Ok (m\<lparr>body := fm_set_groups (start_tag g) [g] (body m)\<rparr>)"
  by (simp add: set_body_groups_def part_set_groups_def)

text \<open>The count field of the group is set before the group, so the message stays well-formed, and the header is not touched.\<close>

lemma order_body_ok:
  assumes "list_all (\<lambda>(d, _). def_location d = BodyLoc) fs" and "fs \<noteq> []" and "fst (last fs) = NO_ALLOCS"
  shows "\<exists>m'. set_body_groups [order_allocation o'] (set_fields fs m) = Ok m'
    \<and> (message_ok m \<longrightarrow> message_ok m') \<and> header m' = header m"
proof -
  obtain gs v where fs: "fs = gs @ [(NO_ALLOCS, v)]" using assms(2,3) by (cases fs rule: rev_cases) auto
  have "set_fields fs m = msg_set NO_ALLOCS v (set_fields gs m)" by (simp add: fs set_fields_def)
  moreover have "78 \<in> fst ` set (fm_fields (body (msg_set (body_field 78) v m)))" for m
    by (cases "body m") (simp add: msg_set_def part_set_def part_store_field_def fm_insert_def set_im_insert_keys)
  ultimately show ?thesis
    unfolding set_body_groups_single order_allocation_ok(3)
    using assms(1) order_allocation_ok(1,2) [of o'] by (auto simp: fs intro!: message_ok_set_body_groups)
qed

interpretation order: outbound_laws "order_entry_msg sides o'" for sides o'
  by (rule outbound_laws_body) (auto simp: order_entry_msg_def order_write_def intro!: order_body_ok simp del: set_fields_simps)

section \<open>Properties\<close>

text \<open>What is logged and polled, as a sequence of steps.\<close>

datatype log_step = Logged string string | Polled

fun log_run :: "log_step list \<Rightarrow> shared_state \<times> page \<Rightarrow> shared_state \<times> page" where
  "log_run [] sp = sp"
| "log_run (Logged dir s # es) (st, p) = log_run es (SharedState_push dir s st, p)"
| "log_run (Polled # es) (st, p) = log_run es (st, poll_messages st p)"

text \<open>Entry \<open>i\<close> of the log has the number \<open>i + 1\<close>, and the page has shown a beginning of the log up to the number it remembers.\<close>

definition log_inv :: "shared_state \<Rightarrow> page \<Rightarrow> bool" where
  "log_inv st p \<longleftrightarrow> (let n = length (log_messages st) in
     next_id st = of_nat n + 1 \<and> map entry_id (log_messages st) = map (\<lambda>i. of_nat i + 1) [0..<n]
     \<and> (\<exists>k \<le> n. shown p = take k (log_messages st) \<and> last_message_id p = of_nat k))"

lemma log_inv_push:
  assumes "log_inv st p"
  shows "log_inv (SharedState_push dir s st) p"
proof -
  obtain k where k: "k \<le> length (log_messages st)" "shown p = take k (log_messages st)" "last_message_id p = of_nat k"
    using assms by (auto simp: log_inv_def Let_def)
  then show ?thesis
    using assms unfolding log_inv_def SharedState_push_def Let_def
    by (auto intro!: exI [of _ k])
qed

lemma foldl_shown:
  "foldl (\<lambda>p m. p\<lparr>shown := shown p @ [m], last_message_id := entry_id m\<rparr>) p ms
     = p\<lparr>shown := shown p @ ms, last_message_id := (if ms = [] then last_message_id p else entry_id (last ms))\<rparr>"
  by (induction ms rule: rev_induct) auto

lemma entry_number:
  assumes "map entry_id xs = map (\<lambda>i. of_nat i + 1) [0..<length xs]" and "i < length xs" and "length xs < 2 ^ 64" and "k \<le> length xs"
  shows "of_nat k < entry_id (xs ! i) \<longleftrightarrow> k \<le> i"
proof -
  have "entry_id (xs ! i) = map entry_id xs ! i" using assms(2) by simp
  then have "entry_id (xs ! i) = of_nat (Suc i)" using assms(1,2) by (simp add: add.commute)
  moreover have "unat (of_nat (Suc i) :: u64) = Suc i" "unat (of_nat k :: u64) = k"
    using assms(2-4) by (simp_all add: unat_of_nat del: of_nat_Suc)
  ultimately show ?thesis by (simp add: word_less_nat_alt less_Suc_eq_le del: of_nat_Suc)
qed

lemma log_inv_poll:
  assumes "log_inv st p" and "length (log_messages st) < 2 ^ 64"
  shows "log_inv st (poll_messages st p)" "shown (poll_messages st p) = log_messages st"
proof -
  let ?xs = "log_messages st"
  obtain k where ids: "map entry_id ?xs = map (\<lambda>i. of_nat i + 1) [0..<length ?xs]"
    and k: "k \<le> length ?xs" "shown p = take k ?xs" "last_message_id p = of_nat k"
    using assms(1) by (auto simp: log_inv_def Let_def)
  note num = entry_number [OF ids _ assms(2) k(1)]
  have "filter (\<lambda>m. of_nat k < entry_id m) (take k ?xs) = []"
    using num k(1) by (auto simp: filter_empty_conv in_set_conv_nth)
  moreover have "filter (\<lambda>m. of_nat k < entry_id m) (drop k ?xs) = drop k ?xs"
    using num by (auto simp: filter_id_conv in_set_conv_nth)
  ultimately have "filter (\<lambda>m. of_nat k < entry_id m) (take k ?xs @ drop k ?xs) = drop k ?xs"
    by (simp only: filter_append append_Nil)
  then have new: "messages_since (Some (last_message_id p)) st = drop k ?xs"
    by (simp add: messages_since_def k(3))
  show sh: "shown (poll_messages st p) = ?xs" by (simp add: poll_messages_def new foldl_shown k(2))
  have "last_message_id (poll_messages st p) = of_nat (length ?xs)"
  proof (cases "k = length ?xs")
    case True
    then have "last_message_id (poll_messages st p) = last_message_id p" by (simp add: poll_messages_def new foldl_shown)
    then show ?thesis by (simp only: k(3) True)
  next
    case False
    with k(1) have "drop k ?xs \<noteq> []" "?xs \<noteq> []" by auto
    then have "last_message_id (poll_messages st p) = map entry_id ?xs ! (length ?xs - 1)"
      by (simp add: poll_messages_def new foldl_shown last_drop last_conv_nth)
    also have "\<dots> = of_nat (length ?xs - 1) + 1" using \<open>?xs \<noteq> []\<close> by (simp add: ids)
    also have "\<dots> = of_nat (Suc (length ?xs - 1))" by simp
    also have "\<dots> = of_nat (length ?xs)" using \<open>?xs \<noteq> []\<close> by (simp del: of_nat_Suc)
    finally show ?thesis .
  qed
  with sh assms(1) show "log_inv st (poll_messages st p)"
    unfolding log_inv_def Let_def by (auto intro!: exI [of _ "length ?xs"])
qed

lemma log_run_inv:
  "log_inv st p \<Longrightarrow> length (log_messages st) + length es < 2 ^ 64 \<Longrightarrow>
    (case log_run es (st, p) of (st', p') \<Rightarrow> log_inv st' p' \<and> length (log_messages st') < 2 ^ 64)"
proof (induction es "(st, p)" arbitrary: st p rule: log_run.induct)
  case (2 dir s es st p)
  have "length (log_messages (SharedState_push dir s st)) = Suc (length (log_messages st))" by (simp add: SharedState_push_def)
  with 2 show ?case by (simp add: log_inv_push)
next
  case (3 es st p)
  then show ?case by (simp add: log_inv_poll)
qed simp

lemma distinct_word_numbers:
  assumes "n < 2 ^ 64"
  shows "distinct (map (\<lambda>i. of_nat i + 1 :: u64) [0..<n])"
proof -
  have "unat (of_nat (Suc i) :: u64) = Suc i" if "i < n" for i
    using assms that by (simp add: unat_of_nat del: of_nat_Suc)
  then have "inj_on (\<lambda>i. of_nat (Suc i) :: u64) {0..<n}"
    by (intro inj_onI) (metis atLeastLessThan_iff nat.inject)
  then show ?thesis by (simp add: distinct_map add.commute)
qed

lemma log_run_append: "log_run (es @ fs) sp = log_run fs (log_run es sp)"
  by (induction es sp rule: log_run.induct) simp_all



end
