(* ===== verification/Example_Clients.thy ===== *)
theory Example_Clients
  imports Order_Entry Connecting Codegen
begin

text \<open>
  The two command line clients: \<^verbatim>\<open>examples/load-testing\<close> sends a number of orders and counts the execution reports that come back;
  \<^verbatim>\<open>examples/custom-fields\<close> sends one order with a field of its own dictionary and waits until a report with the same value says that the order
  is filled. Generated enumerations are lists of variants, floating point numbers are opaque, and a counter wraps as in an optimised build.
  An unbounded channel is the list of what was sent on it, with a flag that its receiver is still there.
\<close>

section \<open>Fields\<close>

definition ORD_TYPE :: field_def where "ORD_TYPE = body_field 40"
definition ORDER_ID :: field_def where "ORDER_ID = body_field 37"
definition EXEC_ID :: field_def where "EXEC_ID = body_field 17"
definition EXEC_TYPE :: field_def where "EXEC_TYPE = body_field 150"
definition ORD_STATUS :: field_def where "ORD_STATUS = body_field 39"
definition LEAVES_QTY :: field_def where "LEAVES_QTY = body_field 151"
definition CUM_QTY :: field_def where "CUM_QTY = body_field 14"
definition AVG_PX :: field_def where "AVG_PX = body_field 6"
definition CLIENT_STRATEGY_ID :: field_def where "CLIENT_STRATEGY_ID = body_field 6001"

lemmas client_fields [simp] = ORD_TYPE_def ORDER_ID_def EXEC_ID_def EXEC_TYPE_def ORD_STATUS_def LEAVES_QTY_def CUM_QTY_def AVG_PX_def
  CLIENT_STRATEGY_ID_def

text \<open>A channel without a bound.\<close>

record 'a queue =
  sent :: "'a list"
  receiver_alive :: bool

definition queue_send :: "'a \<Rightarrow> ('a queue, unit, unit) comp" where
  "queue_send a q = (if receiver_alive q then (Ok (), q\<lparr>sent := sent q @ [a]\<rparr>) else (Err (), q))"

definition unwrap :: "('v, 'e) outcome \<Rightarrow> ('st, 'v, 'f) comp" where
  "unwrap r = (case r of Ok v \<Rightarrow> ret v | _ \<Rightarrow> panic)"

section \<open>The load test\<close>

record load_order = new_order_single +
  order_type :: string

definition load_write :: "enum_variant list \<Rightarrow> enum_variant list \<Rightarrow> load_order \<Rightarrow> message \<Rightarrow> (message, unit) outcome" where
  "load_write sides types o' m =
     set_body_groups [order_allocation o']
       (set_fields
         [(TRANSACT_TIME, timestamp_serialize (transact_time o')),
          (SYMBOL, str_serialize (symbol o')),
          (CL_ORD_ID, str_serialize (cl_ord_id o')),
          (SIDE, derived_serialize sides (side o')),
          (ORDER_QTY, unsigned_serialize_with 0 (order_qty o')),
          (ORD_TYPE, derived_serialize types (order_type o')),
          (SETTL_DATE, to_yyyymmdd (settlement_date o')),
          (CURRENCY, str_serialize (currency o')),
          (NO_ALLOCS, unsigned_serialize_with 0 (number_of_allocations o'))] m)"

definition load_msg :: "enum_variant list \<Rightarrow> enum_variant list \<Rightarrow> load_order \<Rightarrow> outbound_message" where
  "load_msg sides types o' = \<lparr>message_type = ''D'', write_to = load_write sides types o'\<rparr>"

record 'f execution_report =
  er_order_id :: bytes
  er_cl_ord_id :: bytes
  er_exec_id :: bytes
  er_exec_type :: bytes
  er_ord_status :: string
  er_side :: string
  er_symbol :: bytes
  er_leaves_qty :: 'f
  er_cum_qty :: 'f
  er_avx_px :: 'f

datatype 'f inbound_msg = ExecutionReport "'f execution_report" | Unimplemented bytes

text \<open>Each \<open>unwrap\<close> panics on a field that is absent or that cannot be read.\<close>

definition parse_execution_report_ack ::
    "(bytes \<Rightarrow> 'f option) \<Rightarrow> enum_variant list \<Rightarrow> enum_variant list \<Rightarrow> message \<Rightarrow> ('st, 'f inbound_msg, unit) comp" where
  "parse_execution_report_ack float statuses sides m =
     bind_comp (unwrap (msg_get str_deserialize ORDER_ID m)) (\<lambda>order_id.
     bind_comp (unwrap (msg_get str_deserialize CL_ORD_ID m)) (\<lambda>cl_id.
     bind_comp (unwrap (msg_get str_deserialize EXEC_ID m)) (\<lambda>exec_id.
     bind_comp (unwrap (msg_get str_deserialize EXEC_TYPE m)) (\<lambda>exec_type.
     bind_comp (unwrap (msg_get (derived_deserialize statuses) ORD_STATUS m)) (\<lambda>status.
     bind_comp (unwrap (msg_get (derived_deserialize sides) SIDE m)) (\<lambda>sd.
     bind_comp (unwrap (msg_get str_deserialize SYMBOL m)) (\<lambda>sym.
     bind_comp (unwrap (msg_get (float_deserialize float) LEAVES_QTY m)) (\<lambda>leaves.
     bind_comp (unwrap (msg_get (float_deserialize float) CUM_QTY m)) (\<lambda>cum.
     bind_comp (unwrap (msg_get (float_deserialize float) AVG_PX m)) (\<lambda>px.
     ret (ExecutionReport \<lparr>er_order_id = order_id, er_cl_ord_id = cl_id, er_exec_id = exec_id, er_exec_type = exec_type,
       er_ord_status = status, er_side = sd, er_symbol = sym, er_leaves_qty = leaves, er_cum_qty = cum, er_avx_px = px\<rparr>)))))))))))"

definition InboundMsg_parse ::
    "(bytes \<Rightarrow> 'f option) \<Rightarrow> enum_variant list \<Rightarrow> enum_variant list \<Rightarrow> message \<Rightarrow> ('st, 'f inbound_msg, unit) comp" where
  "InboundMsg_parse float statuses sides m =
     bind_comp (unwrap (part_get str_deserialize MSG_TYPE (header m))) (\<lambda>ty.
     if ty = ''8'' then parse_execution_report_ack float statuses sides m else ret (Unimplemented ty))"

definition load_on_inbound_message ::
    "(bytes \<Rightarrow> 'f option) \<Rightarrow> enum_variant list \<Rightarrow> enum_variant list \<Rightarrow> message \<Rightarrow> ('f execution_report queue, inbound_decision, unit) comp" where
  "load_on_inbound_message float statuses sides m =
     bind_comp (InboundMsg_parse float statuses sides m) (\<lambda>parsed. case parsed of
         Unimplemented _ \<Rightarrow> ret AcceptInbound
       | ExecutionReport report \<Rightarrow> (\<lambda>q. case queue_send report q of
           (Ok _, q') \<Rightarrow> (Ok AcceptInbound, q')
         | (_, q') \<Rightarrow> (Ok TerminateInbound, q')))"

definition load_on_outbound_message :: "outbound_message \<Rightarrow> outbound_decision" where
  "load_on_outbound_message m = Send"

text \<open>\<open>uuid\<close> is the text of a new random UUID.\<close>

definition submit_message :: "enum_variant list \<Rightarrow> enum_variant list \<Rightarrow> string \<Rightarrow> calendar \<Rightarrow> (channels, unit, unit) comp" where
  "submit_message sides types uuid now =
     bind_comp (lift_outcome (utc_now now)) (\<lambda>t.
     bind_comp (unwrapped (Date_new 2023 9 19)) (\<lambda>d.
     (\<lambda>ch. case handle_send_forget (load_msg sides types
         \<lparr>transact_time = t, symbol = ''EUR/USD'', cl_ord_id = take 12 uuid, side = ''Buy'', order_qty = 230, settlement_date = d,
          currency = ''USD'', number_of_allocations = 1, allocation_account = ''acc1'', allocation_quantity = 230,
          order_type = ''Market''\<rparr>) ch of
         (Ok _, ch') \<Rightarrow> (Ok (), ch')
       | (_, ch') \<Rightarrow> (Panic, ch'))))"

text \<open>The identifier and the time of each order are given.\<close>

fun submit_each :: "enum_variant list \<Rightarrow> enum_variant list \<Rightarrow> (string \<times> calendar) list \<Rightarrow> (channels, unit, unit) comp" where
  "submit_each sides types [] = ret ()"
| "submit_each sides types ((uuid, now) # rest) =
     bind_comp (submit_message sides types uuid now) (\<lambda>_. submit_each sides types rest)"

definition submit_messages ::
    "enum_variant list \<Rightarrow> enum_variant list \<Rightarrow> (nat \<Rightarrow> string \<times> calendar) \<Rightarrow> u32 \<Rightarrow> (channels, unit, unit) comp" where
  "submit_messages sides types order message_count = submit_each sides types (map order [0..<unat message_count])"

definition REPORTS_PER_ORDER :: u32 where "REPORTS_PER_ORDER = 2"

text \<open>The reports that arrive; after them the channel is closed, or nothing else happens. The result is the count that is logged, or \<open>None\<close> while it waits.\<close>

fun listen_loop :: "u32 \<Rightarrow> u32 \<Rightarrow> 'r list \<Rightarrow> bool \<Rightarrow> u32 option" where
  "listen_loop message_count count [] closed = (if closed then Some count else None)"
| "listen_loop message_count count (_ # rs) closed =
     (let count = count + 1 in
      if count = message_count * REPORTS_PER_ORDER then Some count else listen_loop message_count count rs closed)"

definition listen_for_reports :: "u32 \<Rightarrow> 'r list \<Rightarrow> bool \<Rightarrow> u32 option" where
  "listen_for_reports message_count rs closed = listen_loop message_count 0 rs closed"

definition get_config :: "'tz endpoint_config" where
  "get_config =
     \<lparr>ep_session = \<lparr>cfg_session = \<lparr>begin_string = ''FIX.4.4'', sender_comp_id = ''dummy-initiator'', target_comp_id = ''dummy-acceptor'',
        heartbeat_interval = 30, logon_timeout = 10, logout_timeout = 2, reset_on_logon = True\<rparr>,
        data_dictionary_path = None,
        cfg_validate_user_defined_fields = vc_validate_user_defined_fields ValidationConfig_default,
        cfg_schedule = None, reconnect_interval = 30\<rparr>,
      connection_host = ''127.0.0.1'', connection_port = 9880, tls_config = None\<rparr>"

section \<open>The custom field\<close>

record custom_order =
  co_cl_ord_id :: bytes
  co_symbol :: bytes
  co_side :: string
  co_order_qty :: u32
  co_transact_time :: timestamp
  co_client_strategy_id :: "32 word"

definition custom_write :: "enum_variant list \<Rightarrow> enum_variant list \<Rightarrow> custom_order \<Rightarrow> message \<Rightarrow> (message, unit) outcome" where
  "custom_write sides types o' m =
     Ok (set_fields
         [(CL_ORD_ID, str_serialize (co_cl_ord_id o')),
          (SYMBOL, str_serialize (co_symbol o')),
          (SIDE, derived_serialize sides (co_side o')),
          (ORDER_QTY, unsigned_serialize_with 0 (co_order_qty o')),
          (TRANSACT_TIME, timestamp_serialize (co_transact_time o')),
          (ORD_TYPE, derived_serialize types ''Market''),
          (CLIENT_STRATEGY_ID, signed_serialize (co_client_strategy_id o'))] m)"

definition custom_msg :: "enum_variant list \<Rightarrow> enum_variant list \<Rightarrow> custom_order \<Rightarrow> outbound_message" where
  "custom_msg sides types o' = \<lparr>message_type = ''D'', write_to = custom_write sides types o'\<rparr>"

record exec_report_summary =
  sum_cl_ord_id :: bytes
  sum_ord_status :: string
  sum_client_strategy_id :: "32 word option"

definition custom_on_inbound_message :: "enum_variant list \<Rightarrow> message \<Rightarrow> (exec_report_summary queue, inbound_decision, unit) comp" where
  "custom_on_inbound_message statuses m q =
     (if part_get str_deserialize MSG_TYPE (header m) \<noteq> Ok ''8'' then (Ok AcceptInbound, q)
      else case (msg_get str_deserialize CL_ORD_ID m, msg_get (derived_deserialize statuses) ORD_STATUS m) of
          (Ok cl_id, Ok status) \<Rightarrow>
            (let strategy = (case msg_get signed_deserialize CLIENT_STRATEGY_ID m of Ok n \<Rightarrow> Some n | _ \<Rightarrow> None)
             in (Ok AcceptInbound, snd (queue_send \<lparr>sum_cl_ord_id = cl_id, sum_ord_status = status, sum_client_strategy_id = strategy\<rparr> q)))
        | _ \<Rightarrow> (Ok AcceptInbound, q))"

definition custom_on_outbound_message :: "outbound_message \<Rightarrow> outbound_decision" where
  "custom_on_outbound_message m = Send"

definition FILL_TIMEOUT :: nat where "FILL_TIMEOUT = 10 * 1000000000"
definition STRATEGY_ID :: "32 word" where "STRATEGY_ID = 42"

datatype fill_error = NotFilledInTime | ExecChannelClosed | NotEchoed bytes | StrategyMismatch "32 word"

text \<open>One turn of the loop: the time when it begins, and what waiting for the rest of the time yields: a report, the end of the channel, or
  that the time is over. \<open>None\<close> is the loop that is still waiting. Times are in nanoseconds.\<close>

datatype recv_result = Received exec_report_summary | ReceiverClosed | TimedOut

fun fill_loop :: "nat \<Rightarrow> (nat \<times> recv_result) list \<Rightarrow> (unit, fill_error) outcome option" where
  "fill_loop deadline [] = None"
| "fill_loop deadline ((now, r) # rest) =
     (if deadline - now = 0 then Some (Err NotFilledInTime)
      else case r of
          ReceiverClosed \<Rightarrow> Some (Err ExecChannelClosed)
        | TimedOut \<Rightarrow> Some (Err NotFilledInTime)
        | Received summary \<Rightarrow> (case sum_client_strategy_id summary of
            None \<Rightarrow> Some (Err (NotEchoed (sum_cl_ord_id summary)))
          | Some echoed \<Rightarrow>
              if echoed \<noteq> STRATEGY_ID then Some (Err (StrategyMismatch echoed))
              else if sum_ord_status summary = ''Filled'' then Some (Ok ())
              else fill_loop deadline rest))"

definition wait_for_fill :: "nat \<Rightarrow> (nat \<times> recv_result) list \<Rightarrow> (unit, fill_error) outcome option" where
  "wait_for_fill start turns = fill_loop (start + FILL_TIMEOUT) turns"

text \<open>The build script generates the module of fields from the example's own dictionary.\<close>

definition custom_build ::
    "codegen_env \<Rightarrow> (string \<Rightarrow> xml_node option) \<Rightarrow> (string \<Rightarrow> string option) \<Rightarrow> string option \<Rightarrow> (string \<Rightarrow> bool) \<Rightarrow> (string \<Rightarrow> nat option)
      \<Rightarrow> (string \<rightharpoonup> bytes, unit, unit) comp" where
  "custom_build env parse read out_dir creates writes =
     bind_comp (unwrap (load_from_file parse read ''spec/FIX44-custom.xml'')) (\<lambda>d.
     bind_comp (lift_outcome (gen_definitions env d (Settings_default\<lparr>hotfix_crate_name := ''hotfix_message''\<rparr>))) (\<lambda>code.
     bind_comp (unwrapped out_dir) (\<lambda>dir.
     (\<lambda>fs. let path = path_join dir ''custom_fix.rs'' in
        if \<not> creates path then (Err (), fs)
        else case writes path of
            None \<Rightarrow> (Ok (), fs(path \<mapsto> code))
          | Some n \<Rightarrow> (Err (), fs(path \<mapsto> take n code))))))"

section \<open>Facts\<close>

interpretation load: outbound_laws "load_msg sides types o'" for sides types o'
  by (rule outbound_laws_body) (auto simp: load_msg_def load_write_def intro!: order_body_ok simp del: set_fields_simps)

interpretation custom: outbound_laws "custom_msg sides types o'" for sides types o'
  by (rule outbound_laws_body) (simp add: custom_msg_def custom_write_def)

lemma unwrap_simps [comp_simps]: "unwrap (Ok v) s = (Ok v, s)" "unwrap (Err e) s = (Panic, s)" "unwrap Panic s = (Panic, s)"
  by (simp_all add: unwrap_def comp_simps)

lemma listen_loop_count:
  assumes "unat message_count < 2 ^ 31" and "unat count + length rs < 2 ^ 32" and "unat count < 2 * unat message_count \<or> message_count = 0"
  shows "listen_loop message_count count rs False =
    (if message_count \<noteq> 0 \<and> 2 * unat message_count \<le> unat count + length rs then Some (2 * message_count) else None)"
  using assms(2,3)
proof (induction rs arbitrary: count)
  case (Cons r rs)
  have suc: "unat (count + 1) = Suc (unat count)" using Cons.prems(1) by (simp add: unat_word_ariths)
  have dbl: "unat (2 * message_count) = 2 * unat message_count" using assms(1) by (simp add: unat_word_ariths)
  have eq: "count + 1 = 2 * message_count \<longleftrightarrow> Suc (unat count) = 2 * unat message_count"
    using suc dbl by (metis word_unat_eq_iff)
  have nz: "message_count = 0 \<longleftrightarrow> unat message_count = 0" by (simp add: unat_eq_0)
  show ?case
    using Cons eq suc nz by (auto simp: REPORTS_PER_ORDER_def Let_def mult.commute [of message_count])
qed (auto simp: unat_eq_0)

lemma submit_each_queues:
  assumes "ch_open ch" and "\<forall>(u, now) \<in> set os. \<exists>t. utc_now now = Ok t"
  shows "\<exists>ms. submit_each sides types os ch = (Ok (), ch\<lparr>ch_outbound := ch_outbound ch @ map (\<lambda>m. (m, None)) ms\<rparr>)
    \<and> length ms = length os \<and> (\<forall>m \<in> set ms. outbound_laws m \<and> message_type m = ''D'')"
  using assms
proof (induction os arbitrary: ch)
  case Nil
  then show ?case by (auto simp: comp_simps intro!: exI [of _ "[]"])
next
  case (Cons o1 os)
  obtain u now where o1: "o1 = (u, now)" by fastforce
  with Cons.prems obtain t where t: "utc_now now = Ok t" by auto
  obtain m where step: "submit_message sides types u now ch = (Ok (), ch\<lparr>ch_outbound := ch_outbound ch @ [(m, None)]\<rparr>)"
    and m: "outbound_laws m" "message_type m = ''D''"
    using Cons.prems(1) load.outbound_laws_axioms
    by (auto simp: submit_message_def t comp_simps unwrapped_def Date_new_def handle_send_forget_def send_outbound_def load_msg_def)
  let ?ch = "ch\<lparr>ch_outbound := ch_outbound ch @ [(m, None)]\<rparr>"
  obtain ms where "submit_each sides types os ?ch = (Ok (), ?ch\<lparr>ch_outbound := ch_outbound ?ch @ map (\<lambda>m. (m, None)) ms\<rparr>)"
    "length ms = length os" "\<forall>m \<in> set ms. outbound_laws m \<and> message_type m = ''D''"
    using Cons.IH [of ?ch] Cons.prems by auto
  with m show ?case by (intro exI [of _ "m # ms"]) (simp add: o1 step bind_comp_def)
qed

text \<open>The listener ends exactly when there is something to count and every report has come; a test of no orders waits for ever.\<close>

theorem listener_ends:
  assumes "unat message_count < 2 ^ 31" and "length rs < 2 ^ 32"
  shows "listen_for_reports message_count rs False =
    (if message_count \<noteq> 0 \<and> 2 * unat message_count \<le> length rs then Some (2 * message_count) else None)"
proof -
  have "message_count = 0 \<or> 0 < unat message_count" by (simp add: unat_gt_0)
  then show ?thesis
    unfolding listen_for_reports_def using assms listen_loop_count [of message_count 0 rs] by auto
qed

theorem listener_ends_witness:
  "listen_for_reports 1 [(), (), ()] False = Some 2 \<and> listen_for_reports 0 [(), (), ()] False = None"
  using listener_ends [of 1 "[(), (), ()]"] listener_ends [of 0 "[(), (), ()]"] by simp

text \<open>The field of the example's own dictionary survives the trip: of a report that carries back the bytes of the order's field, the application hands on
  the number the order was given, whatever its sign.\<close>

theorem custom_field_round_trip:
  assumes "custom_write sides types o' m = Ok m'"
    and "part_get_raw CLIENT_STRATEGY_ID (body report) = part_get_raw CLIENT_STRATEGY_ID (body m')"
    and "part_get str_deserialize MSG_TYPE (header report) = Ok ''8''"
    and "msg_get str_deserialize CL_ORD_ID report = Ok cl_id" and "msg_get (derived_deserialize statuses) ORD_STATUS report = Ok status"
    and "receiver_alive q"
  shows "custom_on_inbound_message statuses report q = (Ok AcceptInbound,
    q\<lparr>sent := sent q @ [\<lparr>sum_cl_ord_id = cl_id, sum_ord_status = status, sum_client_strategy_id = Some (co_client_strategy_id o')\<rparr>]\<rparr>)"
proof -
  have "part_get_raw CLIENT_STRATEGY_ID (body m') = Some (signed_serialize (co_client_strategy_id o'))"
    using assms(1) by (auto simp: custom_write_def msg_set_def part_get_raw_def part_set_def part_store_field_def)
  then have "msg_get signed_deserialize CLIENT_STRATEGY_ID report = Ok (co_client_strategy_id o')"
    using assms(2) by (simp add: msg_get_def part_get_def signed_field.roundtrip)
  with assms(3-6) show ?thesis by (simp add: custom_on_inbound_message_def queue_send_def)
qed

definition sample_custom_order :: custom_order where
  "sample_custom_order = \<lparr>co_cl_ord_id = ''demo-1'', co_symbol = ''EUR/USD'', co_side = ''Buy'', co_order_qty = 100,
     co_transact_time = Timestamp (Date 2024 1 2) (Time 3 4 5 6), co_client_strategy_id = - 42\<rparr>"

theorem custom_field_round_trip_witness:
  "snd (custom_on_inbound_message [\<lparr>ev_ident = ''Filled'', ev_variant = ''2''\<rparr>]
     (set_fields [(CL_ORD_ID, ''demo-1''), (ORD_STATUS, ''2''), (CLIENT_STRATEGY_ID, ''-42'')] (Message_new ''FIX.4.4'' ''8''))
     \<lparr>sent = [], receiver_alive = True\<rparr>)
   = \<lparr>sent = [\<lparr>sum_cl_ord_id = ''demo-1'', sum_ord_status = ''Filled'', sum_client_strategy_id = Some (- 42)\<rparr>], receiver_alive = True\<rparr>"
proof -
  let ?m = "set_fields [(CL_ORD_ID, ''demo-1''), (ORD_STATUS, ''2''), (CLIENT_STRATEGY_ID, ''-42'')] (Message_new ''FIX.4.4'' ''8'')"
  let ?statuses = "[\<lparr>ev_ident = ''Filled'', ev_variant = ''2''\<rparr>]"
  obtain m' where w: "custom_write [] [] sample_custom_order ?m = Ok m'" by (simp add: custom_write_def)
  have "part_get_raw CLIENT_STRATEGY_ID (body ?m) = part_get_raw CLIENT_STRATEGY_ID (body m')"
    using w by (auto simp: custom_write_def msg_set_def part_get_raw_def part_set_def part_store_field_def sample_custom_order_def
      signed_serialize_def show_int_def bytes_simps)
  moreover have "part_get str_deserialize MSG_TYPE (header ?m) = Ok ''8''" "msg_get str_deserialize CL_ORD_ID ?m = Ok ''demo-1''"
    "msg_get (derived_deserialize ?statuses) ORD_STATUS ?m = Ok ''Filled''"
    by (auto simp: Message_new_def msg_set_def msg_get_def part_get_def part_get_raw_def part_set_def part_store_field_def
      derived_deserialize_def str_deserialize_def bytes_simps)
  ultimately show ?thesis
    using custom_field_round_trip [OF w, of ?m "''demo-1''" ?statuses "''Filled''" "\<lparr>sent = [], receiver_alive = True\<rparr>"]
    by (simp add: sample_custom_order_def del: set_fields_simps client_fields order_fields)
qed

text \<open>A report the loop goes on after, and one it ends well with.\<close>

definition passes_on :: "nat \<Rightarrow> nat \<times> recv_result \<Rightarrow> bool" where
  "passes_on deadline x = (case x of
      (t, Received s) \<Rightarrow> t < deadline \<and> sum_client_strategy_id s = Some STRATEGY_ID \<and> sum_ord_status s \<noteq> ''Filled''
    | _ \<Rightarrow> False)"

definition reports_fill :: "nat \<Rightarrow> nat \<times> recv_result \<Rightarrow> bool" where
  "reports_fill deadline x = (case x of
      (t, Received s) \<Rightarrow> t < deadline \<and> sum_client_strategy_id s = Some STRATEGY_ID \<and> sum_ord_status s = ''Filled''
    | _ \<Rightarrow> False)"

lemma fill_loop_cons:
  "fill_loop deadline (x # rest) = Some (Ok ()) \<longleftrightarrow> reports_fill deadline x \<or> passes_on deadline x \<and> fill_loop deadline rest = Some (Ok ())"
  by (cases x; cases "snd x") (auto simp: passes_on_def reports_fill_def split: option.split)

text \<open>The client ends well exactly when a report that came in time says that the order is filled and carries its number, and so did every report before it.\<close>

theorem filled_iff:
  "wait_for_fill start turns = Some (Ok ()) \<longleftrightarrow>
    (\<exists>i < length turns. reports_fill (start + FILL_TIMEOUT) (turns ! i) \<and> (\<forall>j < i. passes_on (start + FILL_TIMEOUT) (turns ! j)))"
  unfolding wait_for_fill_def
proof (induction turns)
  case (Cons x turns)
  then show ?case unfolding fill_loop_cons by (auto simp: Ex_less_Suc2 All_less_Suc2)
qed simp

end
