(* ===== verification/Spec2Isabelle.thy ===== *)
theory Spec2Isabelle
  imports Message_Roundtrip File_Store Mongo_Store Session_Schedule Session_Recovery Session_Timers Engine Connecting Web_Admin
    Value_Types Codegen Session_Outbox Store_Conformance Order_Entry Example_Clients
begin

text \<open>
  \<^bold>\<open>HotFIX, a FIX engine for initiators.\<close>

  HotFIX keeps a session of the FIX protocol with one counterparty. A task per session owns the state of the session, a message
  store and the application; it gets its inputs (events of the connection, messages of the application, administrative requests) from three
  channels and from three timers. A reader task cuts the bytes of the socket into messages and sends them to the session; a writer task
  sends what the session hands to it; a loop connects, waits for the end of the connection and reconnects. Inbound messages are parsed with
  the specifications a message builder has derived from a dictionary, and the dictionary is read from a QuickFIX XML file.

  \<^bold>\<open>Theories and sources.\<close> Paths are relative to \<^verbatim>\<open>src/crates\<close>.

  \<^item> \<open>Prelude\<close>: machine integers and bytes, the outcome of a Rust computation (a value, an error, a panic), the state-passing
    combinators in which every stateful component is written, the calculus \<open>ensures\<close> for their invariants, decimal text, UTF-8, and the
    insertion-ordered map with its locale \<open>index_map\<close>.
  \<^item> \<open>Field_Types\<close> (\<^verbatim>\<open>hotfix-message/src/encoding/field_types\<close>): the field types the engine reads and writes; the locale
    \<open>field_type\<close> states that what is serialized can be read.
  \<^item> \<open>Message\<close> (\<^verbatim>\<open>hotfix-message/src/{field_map,parts,message,encoder}.rs\<close>): field maps, repeating groups, the parts of a message, and its
    encoding.
  \<^item> \<open>Dictionary\<close>, \<open>Quickfix_Reader\<close> (\<^verbatim>\<open>hotfix-dictionary/src\<close>): data types, definitions and lookups; reading a specification.
  \<^item> \<open>Message_Builder\<close>, \<open>Message_Roundtrip\<close>, \<open>Specification\<close> (\<^verbatim>\<open>hotfix-message/src/builder.rs\<close>): the parser of complete messages, its
    relation to the encoder, and the specifications it works with.
  \<^item> \<open>Frame_Parser\<close>, \<open>Transport\<close> (\<^verbatim>\<open>hotfix/src/message/parser.rs\<close>, \<^verbatim>\<open>hotfix/src/transport\<close>): cutting the stream into messages, the
    reader, the writer and the watchdog of a connection.
  \<^item> \<open>Store\<close>, \<open>File_Store\<close> (\<^verbatim>\<open>hotfix-store/src\<close>): the trait \<open>MessageStore\<close> as a record of operations, its contract as the locale
    \<open>store_spec\<close> over an abstract store, and the two stores, which interpret it.
  \<^item> \<open>Session_Schedule\<close> (\<^verbatim>\<open>hotfix/src/session_schedule.rs\<close>): activity windows and session periods.
  \<^item> \<open>Outbound_Messages\<close>, \<open>Verification\<close> (\<^verbatim>\<open>hotfix/src/message\<close>): the messages of the session layer, with the locale
    \<open>outbound_laws\<close> that each of them interprets, and the checks of an inbound message.
  \<^item> \<open>Session_State\<close>, \<open>Session_Ctx\<close>, \<open>Session\<close> (\<^verbatim>\<open>hotfix/src/session.rs\<close>, \<^verbatim>\<open>hotfix/src/session\<close>): the five states, the operations on store and
    writer, the handlers, and the task as the step relation \<open>session_step\<close>.
  \<^item> \<open>Session_Invariants\<close>, \<open>Session_Behaviour\<close>, \<open>Session_Recovery\<close>, \<open>Session_Timers\<close>: what holds of the session. The locale
    \<open>session_laws\<close> puts a store that meets \<open>store_spec\<close> and a clock together; it is interpreted on the in-memory store. The locale
    \<open>kept_invariant\<close>, with its extension \<open>kept_task\<close>, has the laws a condition on the context must keep under the primitive operations, and gives
    that every handler and every step keeps it; it is interpreted on the bounds of the history (\<open>Session_Invariants\<close>).
  \<^item> \<open>Session_Outbox\<close>: the second instance of \<open>kept_task\<close>, over every store of the locale \<open>replay_store\<close>: what the store holds for a resend and what may
    reach a writer.
  \<^item> \<open>Zoned_Types\<close>, \<open>Value_Types\<close> (\<^verbatim>\<open>hotfix-message/src/encoding\<close>, \<^verbatim>\<open>hotfix-derive\<close>): the field types the session layer does not use, integers of every
    width, derived enumerations, typed access and buffers.
  \<^item> \<open>Mongo_Store\<close> (\<^verbatim>\<open>hotfix-store-mongodb/src\<close>): the third store, over the operations of the database driver.
  \<^item> \<open>Store_Conformance\<close> (\<^verbatim>\<open>hotfix-store/src/test_utils.rs\<close>, \<^verbatim>\<open>tests/conformance.rs\<close> of the two store crates): the conformance tests as computations over a
    factory. The locale \<open>harness_store\<close> derives them from \<open>store_spec\<close>; the in-memory and the file store interpret it.
  \<^item> \<open>Codegen\<close> (\<^verbatim>\<open>hotfix-codegen/src\<close>, \<^verbatim>\<open>hotfix-message/build.rs\<close>, views of \<^verbatim>\<open>hotfix-dictionary/src\<close>): the generated field definitions, as text.
  \<^item> \<open>Engine\<close> (\<^verbatim>\<open>hotfix/src/initiator.rs\<close>, \<^verbatim>\<open>hotfix/src/session/{session_ref,session_handle}.rs\<close>): creating a session, the channels, the
    biased choice of the next input, the connection loop, and their interleaving \<open>engine_step\<close>.
  \<^item> \<open>Connecting\<close> (\<^verbatim>\<open>hotfix/src/config.rs\<close>, \<^verbatim>\<open>hotfix/src/transport/socket\<close>): loading a configuration, and the stream of a session over TCP or TLS.
  \<^item> \<open>Web_Admin\<close> (\<^verbatim>\<open>hotfix-cli/src\<close>, \<^verbatim>\<open>hotfix-web/src\<close>, \<^verbatim>\<open>hotfix-web-ui/src\<close>): the command line client, the web server and its session controller on the
    channels of the engine. The locale \<open>admin_controller\<close> is the contract of a controller; the HTTP controller interprets it.
  \<^item> \<open>Order_Entry\<close>, \<open>Example_Clients\<close> (\<^verbatim>\<open>../examples\<close>): the three applications that come with the engine: their messages, which interpret
    \<open>outbound_laws\<close>, their callbacks, the log and the page of the first, the tasks of the other two.

  \<^bold>\<open>State and effects.\<close> A session is the record \<open>session\<close>: its context (configuration, store, message builder), schedule, state, the deadline of
  the schedule check. What the session does to the outside (messages to a writer, callbacks of the application, answers to a question) is
  the history \<open>ctx_trace\<close> of its context, in order; the application's decisions are functions of that history. The clock is a function from
  the number of the reading; every reading of the source is one reading of the model.

  \<^bold>\<open>What is shown.\<close>
  \<^item> Messages: the framing of an encoded message, reading back what was encoded, the integrity checks, totality of the parser, its two panics.
  \<^item> Stream: independence of the chunks, termination and divergence of the framing loop, delivery from one engine to another.
  \<^item> Stores: the file store refines the in-memory store for every sequence of operations; reopening; the number file that is truncated. The
    MongoDB store refines the same abstract store up to the order of a slice, and cleaning up spares the sequence in use. The in-memory and the
    file store pass the conformance suite; one of its tests fails for MongoDB.
  \<^item> Dictionary: what the reader accepts is consistent, the builder returns and admits exactly the tags of the expanded layouts, and the
    dictionaries on which it fails.
  \<^item> Session: the verification decides as specified; a run keeps its bounds and writes only to the current writer; messages are delivered
    only in sequence; gaps, low numbers, SequenceReset, ResendRequest (against a reference plan) and the peer timer are answered as specified,
    and the inbound messages that end the task. No sequence number is used without a stored message, and nothing else than such messages and
    marked copies of them is written.
  \<^item> Engine: it refines the session, has one connection at a time, and stops when the session has ended for good. A session configured for TLS gets no
    other stream than an authenticated one.
  \<^item> Operators: a web request is a run of the engine; a command of the client reaches the session exactly once or not at all; without the
    administrative endpoints no request does; and the status the client cannot read.
  \<^item> Generated code: the constants agree with the parser on where a field belongs, the generator returns unless a field has the tag zero, and the text is trimmed.
  \<^item> Other values: which texts a \<open>MonthYear\<close> reads, the types that do not read what they write, and the readers that misread or panic.

  \<^item> Examples: the page of the order entry shows every logged message once, the load test ends exactly when every report of at least one order has
    come, and a custom field is read back as it was written.

  \<^bold>\<open>Bounds and fuel.\<close> Integers have the width of the source and wrap as in a release build. The framing loop is a
  \<open>partial_function\<close> whose \<open>None\<close> is a loop that does not end. The group parser has the length of the input as fuel, which
  \<open>build_total\<close> shows to be enough. The expansion of components has fuel for the call stack; \<open>message_builder_from_dictionary\<close> shows that some bound is
  enough, and that more of it changes nothing. All other recursion is structural or has a measure.

  \<^bold>\<open>Parameters.\<close> The time zone rules and the calendar (\<^verbatim>\<open>chrono\<close>, \<^verbatim>\<open>chrono-tz\<close>), the XML and TOML parsers, the file system, the sockets and \<^verbatim>\<open>rustls\<close>, the
  MongoDB driver, the case conversions of \<^verbatim>\<open>heck\<close>, the dispatch of \<^verbatim>\<open>axum\<close>, the HTTP client, the templates and the application are arguments of the definitions that
  use them. What is relied on of the driver, of \<^verbatim>\<open>axum\<close> and of the network are the hypotheses \<open>mongo_documented\<close>, \<open>axum_documented\<close> and \<open>reaches_server\<close>; each
  has an instance in its theory. JSON documents and TOML tables are values; the derived conversions of \<^verbatim>\<open>serde\<close> on them are written out.

  \<^bold>\<open>Not modelled.\<close> Logging and the colours of the output; the capacities of the channels (they only delay a sender); the decimal field types, whose
  modules no feature of the crate enables; the parsing of the command line by \<^verbatim>\<open>clap\<close>; the templates and assets of the dashboard and the text of the
  example page; the functions \<open>main\<close>, \<open>run_load_test\<close> and \<open>start_session\<close> of the examples, which read the environment and start what is modelled; and the unit and
  integration tests other than the conformance suite, which run the modelled code against a mock counterparty.
\<close>

end
